(* ===== verification/Go_Base.thy ===== *)
theory Go_Base
  imports Main "HOL-Library.Word" "HOL-Library.Signed_Division" "HOL-Library.Sublist"
begin

text \<open>
  The prelude of the development: the types that stand for Go's machine integers, the parts of
  Go's standard library the service relies on (\<open>time\<close>, \<open>strings.TrimSpace\<close>, \<open>errors\<close>), the
  collections of rewrite rules the component theories share, and generic lemmas on words, lists
  and options.
\<close>

section \<open>Machine integers\<close>

type_synonym uint128 = "128 word"
type_synonym uint64 = "64 word"
type_synonym uint32 = "32 word"
type_synonym uint16 = "16 word"
type_synonym byte = "8 word"

text \<open>
  Go's \<open>int\<close>, \<open>int64\<close> and \<open>time.Duration\<close> are signed 64-bit integers.  They are modelled by
  \<^typ>\<open>int\<close>; wherever the code does arithmetic on them whose result can leave the range, the
  model applies \<open>wrap_int64\<close>.
\<close>

definition wrap_int64 :: "int \<Rightarrow> int" where
  "wrap_int64 x = sint (word_of_int x :: 64 word)"

abbreviation max_int64 :: int where
  "max_int64 \<equiv> 9223372036854775807"

abbreviation min_int64 :: int where
  "min_int64 \<equiv> - 9223372036854775808"

definition is_int64 :: "int \<Rightarrow> bool" where
  "is_int64 x \<longleftrightarrow> min_int64 \<le> x \<and> x \<le> max_int64"

section \<open>Time\<close>

text \<open>
  A \<open>time.Time\<close> is the number of nanoseconds since January 1, year 1, UTC, the instant of Go's
  zero \<open>Time\<close>; a \<open>time.Duration\<close> is a number of nanoseconds.
\<close>

type_synonym Time = int
type_synonym Duration = int

definition second :: Duration where
  "second = 1000000000"

definition millisecond :: Duration where
  "millisecond = 1000000"

definition Time_IsZero :: "Time \<Rightarrow> bool" where
  "Time_IsZero t \<longleftrightarrow> t = 0"

text \<open>\<open>t.Sub(u)\<close> saturates at the ends of the range of \<open>Duration\<close>.\<close>

definition Time_Sub :: "Time \<Rightarrow> Time \<Rightarrow> Duration" where
  "Time_Sub t u = max min_int64 (min max_int64 (t - u))"

text \<open>\<open>time.Unix(0, nsec)\<close>: the Unix epoch is 62135596800 seconds after the zero \<open>Time\<close>.\<close>

definition time_Unix_nsec :: "int \<Rightarrow> Time" where
  "time_Unix_nsec ns = 62135596800 * 1000000000 + ns"

definition Time_Add :: "Time \<Rightarrow> Duration \<Rightarrow> Time" where
  "Time_Add t d = t + d"

definition Milliseconds :: "Duration \<Rightarrow> int" where
  "Milliseconds d = d sdiv 1000000"

section \<open>Strings\<close>

text \<open>
  A Go string is a sequence of bytes.  \<open>strings.TrimSpace\<close> removes leading and trailing
  characters with Unicode's White Space property; their UTF-8 encodings are listed here.  UTF-8
  is self-synchronising, so a leading (trailing) character is one of them exactly when its
  encoding is a prefix (suffix) of the string.
\<close>

definition space_encodings :: "string list" where
  "space_encodings =
     [[CHR 0x09], [CHR 0x0A], [CHR 0x0B], [CHR 0x0C], [CHR 0x0D], [CHR 0x20],
      [CHR 0xC2, CHR 0x85], [CHR 0xC2, CHR 0xA0], [CHR 0xE1, CHR 0x9A, CHR 0x80],
      [CHR 0xE2, CHR 0x80, CHR 0x80], [CHR 0xE2, CHR 0x80, CHR 0x81],
      [CHR 0xE2, CHR 0x80, CHR 0x82], [CHR 0xE2, CHR 0x80, CHR 0x83],
      [CHR 0xE2, CHR 0x80, CHR 0x84], [CHR 0xE2, CHR 0x80, CHR 0x85],
      [CHR 0xE2, CHR 0x80, CHR 0x86], [CHR 0xE2, CHR 0x80, CHR 0x87],
      [CHR 0xE2, CHR 0x80, CHR 0x88], [CHR 0xE2, CHR 0x80, CHR 0x89],
      [CHR 0xE2, CHR 0x80, CHR 0x8A], [CHR 0xE2, CHR 0x80, CHR 0xA8],
      [CHR 0xE2, CHR 0x80, CHR 0xA9], [CHR 0xE2, CHR 0x80, CHR 0xAF],
      [CHR 0xE2, CHR 0x81, CHR 0x9F], [CHR 0xE3, CHR 0x80, CHR 0x80]]"

text \<open>Drop prefixes from a list of non-empty strings for as long as one matches.\<close>

function strip_prefixes :: "string list \<Rightarrow> string \<Rightarrow> string" where
  "strip_prefixes ps s =
     (case find (\<lambda>p. p \<noteq> [] \<and> prefix p s) ps of
        None \<Rightarrow> s
      | Some p \<Rightarrow> strip_prefixes ps (drop (length p) s))"
  by pat_completeness auto
termination
  by (relation "measure (\<lambda>(ps, s). length s)") (auto simp: find_Some_iff prefix_def)

declare strip_prefixes.simps [simp del]

definition TrimSpace :: "string \<Rightarrow> string" where
  "TrimSpace s =
     rev (strip_prefixes (map rev space_encodings) (rev (strip_prefixes space_encodings s)))"

text \<open>Decimal numbers, as \<open>strconv.Itoa\<close>, the verb \<open>%d\<close> and \<open>big.Int.String\<close> print them.\<close>

fun show_nat :: "nat \<Rightarrow> string" where
  "show_nat n =
     (if n < 10 then [char_of (48 + n)] else show_nat (n div 10) @ [char_of (48 + n mod 10)])"

declare show_nat.simps [simp del]

definition show_int :: "int \<Rightarrow> string" where
  "show_int i = (if i < 0 then CHR ''-'' # show_nat (nat (- i)) else show_nat (nat i))"

section \<open>Shared collections and lemmas\<close>

named_theorems kind_defs \<open>the string constants of the service\<close>
named_theorems prog_simps \<open>running and combining effectful programs\<close>
named_theorems wp_rules \<open>weakest-precondition equations of the effectful operations\<close>

lemma wrap_int64_id [simp]: "is_int64 x \<Longrightarrow> wrap_int64 x = x"
  by (simp add: wrap_int64_def is_int64_def signed_of_int signed_take_bit_int_eq_self)

lemma wrap_int64_range: "is_int64 (wrap_int64 x)"
  using sint_ge [of "word_of_int x :: 64 word"] sint_lt [of "word_of_int x :: 64 word"]
  by (simp add: wrap_int64_def is_int64_def)

lemma uint_ucast_64_128 [simp]: "uint (ucast (x :: 64 word) :: 128 word) = uint x"
  by (rule uint_up_ucast) (simp add: is_up)

lemma ucast_64_128_inject [simp]: "(ucast (x :: 64 word) :: 128 word) = ucast y \<longleftrightarrow> x = y"
  by (metis uint_ucast_64_128 word_uint_eq_iff)

lemma Time_Sub_exact: "is_int64 (t - u) \<Longrightarrow> Time_Sub t u = t - u"
  by (simp add: Time_Sub_def is_int64_def)

lemma Time_Sub_range: "is_int64 (Time_Sub t u)"
  by (simp add: Time_Sub_def is_int64_def)

lemma sdiv_nonneg_int: "0 \<le> (a :: int) \<Longrightarrow> 0 < b \<Longrightarrow> a sdiv b = a div b"
  by (simp add: signed_divide_int_def sgn_if)

lemma strip_prefixes_suffix: "suffix (strip_prefixes ps s) s"
proof (induction ps s rule: strip_prefixes.induct)
  case (1 ps s)
  show ?case
    using 1 by (subst strip_prefixes.simps)
      (auto split: option.splits intro: suffix_order.trans suffix_drop)
qed

lemma strip_prefixes_no_prefix:
  "p \<in> set ps \<Longrightarrow> p \<noteq> [] \<Longrightarrow> \<not> prefix p (strip_prefixes ps s)"
proof (induction ps s rule: strip_prefixes.induct)
  case (1 ps s)
  then show ?case
    by (subst strip_prefixes.simps) (auto split: option.splits simp: find_None_iff)
qed

lemma strip_prefixes_id:
  "(\<And>p. p \<in> set ps \<Longrightarrow> p \<noteq> [] \<Longrightarrow> \<not> prefix p s) \<Longrightarrow> strip_prefixes ps s = s"
  by (subst strip_prefixes.simps) (auto split: option.splits simp: find_Some_iff; metis nth_mem)

end
