(* ===== verification/Domain_Model.thy ===== *)
theory Domain_Model
  imports Go_Base
begin

text \<open>
  The package \<open>internal/domain\<close>: the errors of \<open>errors.go\<close> and the kinds, requests and responses
  of \<open>model.go\<close>.  \<open>AccountKind\<close> and \<open>OperationKind\<close> are string types in the source, so any
  string can arrive in a request; they are \<^typ>\<open>string\<close> here as well.  A record field is named
  after its Go field, prefixed by a short name of its struct.
\<close>

section \<open>Errors\<close>

text \<open>
  The sentinel errors of the service and of the packages \<open>context\<close> and \<open>net/http\<close>; \<open>NewError m\<close> is any other error
  with message \<open>m\<close>, and \<open>Errorf p e s\<close> is \<open>fmt.Errorf\<close> with one \<open>%w\<close> verb: the wrapped error
  between two pieces of text.
\<close>

datatype Error =
    ErrInvalidRequest
  | ErrAccountNotFound
  | ErrAuthorizationNotFound
  | ErrIdempotencyConflict
  | ContextCanceled
  | ContextDeadlineExceeded
  | ErrServerClosed
  | NewError string
  | Errorf string Error string

text \<open>\<open>errors.Is\<close> and the \<open>Error\<close> method of the standard library.\<close>

fun errors_Is :: "Error \<Rightarrow> Error \<Rightarrow> bool" where
  "errors_Is (Errorf p e s) target \<longleftrightarrow> Errorf p e s = target \<or> errors_Is e target"
| "errors_Is e target \<longleftrightarrow> e = target"

fun Error_Error :: "Error \<Rightarrow> string" where
  "Error_Error ErrInvalidRequest = ''invalid request''"
| "Error_Error ErrAccountNotFound = ''account not found''"
| "Error_Error ErrAuthorizationNotFound = ''authorization not found''"
| "Error_Error ErrIdempotencyConflict = ''idempotency key reused with a different payload''"
| "Error_Error ContextCanceled = ''context canceled''"
| "Error_Error ContextDeadlineExceeded = ''context deadline exceeded''"
| "Error_Error ErrServerClosed = ''http: Server closed''"
| "Error_Error (NewError m) = m"
| "Error_Error (Errorf p e s) = p @ Error_Error e @ s"

text \<open>\<open>fmt.Errorf("%w: m", domain.ErrInvalidRequest)\<close>, the shape of every validation error.\<close>

definition invalid :: "string \<Rightarrow> Error" where
  "invalid m = Errorf [] ErrInvalidRequest ('': '' @ m)"

section \<open>Kinds\<close>

type_synonym AccountKind = string

definition AccountSafeguardedCash :: AccountKind where
  [kind_defs]: "AccountSafeguardedCash = ''safeguarded_cash''"
definition AccountCorporateWallet :: AccountKind where
  [kind_defs]: "AccountCorporateWallet = ''corporate_wallet''"
definition AccountCardWallet :: AccountKind where
  [kind_defs]: "AccountCardWallet = ''card_wallet''"
definition AccountCardSettlementPayable :: AccountKind where
  [kind_defs]: "AccountCardSettlementPayable = ''card_settlement_payable''"

definition AccountKind_Valid :: "AccountKind \<Rightarrow> bool" where
  "AccountKind_Valid k \<longleftrightarrow>
     k = AccountSafeguardedCash \<or> k = AccountCorporateWallet \<or>
     k = AccountCardWallet \<or> k = AccountCardSettlementPayable"

type_synonym OperationKind = string

definition OperationTopUp :: OperationKind where
  [kind_defs]: "OperationTopUp = ''topup''"
definition OperationWithdrawal :: OperationKind where
  [kind_defs]: "OperationWithdrawal = ''withdrawal''"
definition OperationCardAllocation :: OperationKind where
  [kind_defs]: "OperationCardAllocation = ''card_allocation''"
definition OperationCardReturn :: OperationKind where
  [kind_defs]: "OperationCardReturn = ''card_return''"
definition OperationAuthorization :: OperationKind where
  [kind_defs]: "OperationAuthorization = ''authorization''"
definition OperationAuthorizationIncrement :: OperationKind where
  [kind_defs]: "OperationAuthorizationIncrement = ''authorization_increment''"

section \<open>Requests\<close>

record CreateAccountRequest =
  CreateAccount_AccountID :: string
  CreateAccount_Kind :: AccountKind
  CreateAccount_CorporateAccountID :: string

record TopUpRequest =
  TopUp_RequestID :: string
  TopUp_AccountID :: string
  TopUp_AmountCents :: uint64

record WithdrawalRequest =
  Withdrawal_RequestID :: string
  Withdrawal_AccountID :: string
  Withdrawal_AmountCents :: uint64

record CardAllocationRequest =
  CardAllocation_RequestID :: string
  CardAllocation_AccountID :: string
  CardAllocation_CardID :: string
  CardAllocation_AmountCents :: uint64

record CardReturnRequest =
  CardReturn_RequestID :: string
  CardReturn_AccountID :: string
  CardReturn_CardID :: string
  CardReturn_AmountCents :: uint64

record AuthorizationRequest =
  Authorization_RequestID :: string
  Authorization_CardID :: string
  Authorization_MerchantID :: string
  Authorization_AmountCents :: uint64

record IncrementAuthorizationRequest =
  Increment_RequestID :: string
  Increment_AuthorizationID :: string
  Increment_IncrementCents :: uint64

section \<open>Responses\<close>

record AccountResponse =
  AccountResp_AccountID :: string
  AccountResp_Kind :: AccountKind
  AccountResp_CorporateAccountID :: string
  AccountResp_Status :: string
  AccountResp_Timestamp :: uint64

record BalanceResponse =
  BalanceResp_AccountID :: string
  BalanceResp_Kind :: AccountKind
  BalanceResp_CorporateAccountID :: string
  BalanceResp_DebitsPending :: string
  BalanceResp_DebitsPosted :: string
  BalanceResp_CreditsPending :: string
  BalanceResp_CreditsPosted :: string
  BalanceResp_PostedBalance :: string
  BalanceResp_AvailableBalance :: string
  BalanceResp_Timestamp :: uint64

record TransactionResponse =
  TxResp_RequestID :: string
  TxResp_TransactionID :: string
  TxResp_Status :: string
  TxResp_LedgerStatus :: string
  TxResp_Timestamp :: uint64
  TxResp_ErrorCode :: string
  TxResp_Message :: string

record AuthorizationResponse =
  AuthResp_RequestID :: string
  AuthResp_AuthorizationID :: string
  AuthResp_HoldTransferID :: string
  AuthResp_Status :: string
  AuthResp_LedgerStatus :: string
  AuthResp_EvaluationTimeMS :: int
  AuthResp_ExpiresAt :: "Time option"
  AuthResp_Timestamp :: uint64
  AuthResp_ErrorCode :: string
  AuthResp_Message :: string

record IncrementAuthorizationResponse =
  IncResp_RequestID :: string
  IncResp_AuthorizationID :: string
  IncResp_HoldTransferID :: string
  IncResp_Status :: string
  IncResp_LedgerStatus :: string
  IncResp_IncrementCents :: uint64
  IncResp_EvaluationTimeMS :: int
  IncResp_Timestamp :: uint64
  IncResp_ErrorCode :: string
  IncResp_Message :: string

record ErrorResponse =
  ErrorResp_Status :: string
  ErrorResp_ErrorCode :: string
  ErrorResp_Message :: string

text \<open>Go's zero values of the responses, the base of every composite literal.\<close>

definition zeroTransactionResponse :: TransactionResponse where
  "zeroTransactionResponse =
     \<lparr>TxResp_RequestID = [], TxResp_TransactionID = [], TxResp_Status = [],
      TxResp_LedgerStatus = [], TxResp_Timestamp = 0, TxResp_ErrorCode = [], TxResp_Message = []\<rparr>"

definition zeroAuthorizationResponse :: AuthorizationResponse where
  "zeroAuthorizationResponse =
     \<lparr>AuthResp_RequestID = [], AuthResp_AuthorizationID = [], AuthResp_HoldTransferID = [],
      AuthResp_Status = [], AuthResp_LedgerStatus = [], AuthResp_EvaluationTimeMS = 0,
      AuthResp_ExpiresAt = None, AuthResp_Timestamp = 0, AuthResp_ErrorCode = [],
      AuthResp_Message = []\<rparr>"

definition zeroIncrementAuthorizationResponse :: IncrementAuthorizationResponse where
  "zeroIncrementAuthorizationResponse =
     \<lparr>IncResp_RequestID = [], IncResp_AuthorizationID = [], IncResp_HoldTransferID = [],
      IncResp_Status = [], IncResp_LedgerStatus = [], IncResp_IncrementCents = 0,
      IncResp_EvaluationTimeMS = 0, IncResp_Timestamp = 0, IncResp_ErrorCode = [],
      IncResp_Message = []\<rparr>"

section \<open>Lemmas\<close>

lemma errors_Is_refl [simp]: "errors_Is e e"
  by (cases e) auto

lemma errors_Is_invalid [simp]: "errors_Is (invalid m) t \<longleftrightarrow> t = invalid m \<or> t = ErrInvalidRequest"
  by (auto simp: invalid_def)

lemma invalid_neq [simp]:
  "invalid m \<noteq> ErrInvalidRequest" "invalid m \<noteq> ErrAccountNotFound"
  "invalid m \<noteq> ErrAuthorizationNotFound" "invalid m \<noteq> ErrIdempotencyConflict"
  "ErrInvalidRequest \<noteq> invalid m" "ErrAccountNotFound \<noteq> invalid m"
  "ErrAuthorizationNotFound \<noteq> invalid m" "ErrIdempotencyConflict \<noteq> invalid m"
  by (simp_all add: invalid_def)

lemma kinds_distinct [simp]:
  "AccountSafeguardedCash \<noteq> AccountCorporateWallet" "AccountCorporateWallet \<noteq> AccountSafeguardedCash"
  "AccountSafeguardedCash \<noteq> AccountCardWallet" "AccountCardWallet \<noteq> AccountSafeguardedCash"
  "AccountSafeguardedCash \<noteq> AccountCardSettlementPayable"
  "AccountCardSettlementPayable \<noteq> AccountSafeguardedCash"
  "AccountCorporateWallet \<noteq> AccountCardWallet" "AccountCardWallet \<noteq> AccountCorporateWallet"
  "AccountCorporateWallet \<noteq> AccountCardSettlementPayable"
  "AccountCardSettlementPayable \<noteq> AccountCorporateWallet"
  "AccountCardWallet \<noteq> AccountCardSettlementPayable"
  "AccountCardSettlementPayable \<noteq> AccountCardWallet"
  by (simp_all add: kind_defs)

end
