(* ===== verification/TigerBeetle_SDK.thy ===== *)
theory TigerBeetle_SDK
  imports Domain_Model
begin

text \<open>
  The surface of the third-party module \<open>tigerbeetle-go\<close> that the service uses.  Its code is not
  part of the repository: its functions are the fields of the record \<open>SDK\<close>, a parameter of every
  definition that calls one of them, and what the service relies on is the locale \<open>tb_sdk\<close>.  The
  structs hold the fields the service reads or writes.  Of the status enumerations, the values
  the service names are constructors; every other value is \<open>Other\<close> with its number.
\<close>

section \<open>Structs and enumerations\<close>

record AccountFlags =
  DebitsMustNotExceedCredits :: bool
  CreditsMustNotExceedDebits :: bool

record TransferFlags =
  Pending :: bool

record Account =
  Account_ID :: uint128
  Account_DebitsPending :: uint128
  Account_DebitsPosted :: uint128
  Account_CreditsPending :: uint128
  Account_CreditsPosted :: uint128
  Account_UserData128 :: uint128
  Account_UserData64 :: uint64
  Account_UserData32 :: uint32
  Account_Ledger :: uint32
  Account_Code :: uint16
  Account_Flags :: uint16
  Account_Timestamp :: uint64

record Transfer =
  Transfer_ID :: uint128
  Transfer_DebitAccountID :: uint128
  Transfer_CreditAccountID :: uint128
  Transfer_Amount :: uint128
  Transfer_PendingID :: uint128
  Transfer_UserData128 :: uint128
  Transfer_UserData64 :: uint64
  Transfer_UserData32 :: uint32
  Transfer_Timeout :: uint32
  Transfer_Ledger :: uint32
  Transfer_Code :: uint16
  Transfer_Flags :: uint16
  Transfer_Timestamp :: uint64

text \<open>The zero values \<open>tb.Account{}\<close> and \<open>tb.Transfer{}\<close>.\<close>

definition zeroAccount :: Account where
  "zeroAccount =
     \<lparr>Account_ID = 0, Account_DebitsPending = 0, Account_DebitsPosted = 0,
      Account_CreditsPending = 0, Account_CreditsPosted = 0, Account_UserData128 = 0,
      Account_UserData64 = 0, Account_UserData32 = 0, Account_Ledger = 0, Account_Code = 0,
      Account_Flags = 0, Account_Timestamp = 0\<rparr>"

definition zeroTransfer :: Transfer where
  "zeroTransfer =
     \<lparr>Transfer_ID = 0, Transfer_DebitAccountID = 0, Transfer_CreditAccountID = 0,
      Transfer_Amount = 0, Transfer_PendingID = 0, Transfer_UserData128 = 0,
      Transfer_UserData64 = 0, Transfer_UserData32 = 0, Transfer_Timeout = 0,
      Transfer_Ledger = 0, Transfer_Code = 0, Transfer_Flags = 0, Transfer_Timestamp = 0\<rparr>"

datatype CreateAccountStatus =
    AccountCreated
  | AccountExists
  | AccountExistsWithDifferentFlags
  | AccountExistsWithDifferentUserData128
  | AccountExistsWithDifferentUserData64
  | AccountExistsWithDifferentUserData32
  | AccountExistsWithDifferentLedger
  | AccountExistsWithDifferentCode
  | AccountStatusOther nat

datatype CreateTransferStatus =
    TransferCreated
  | TransferExists
  | TransferExistsWithDifferentFlags
  | TransferExistsWithDifferentPendingID
  | TransferExistsWithDifferentTimeout
  | TransferExistsWithDifferentDebitAccountID
  | TransferExistsWithDifferentCreditAccountID
  | TransferExistsWithDifferentAmount
  | TransferExistsWithDifferentUserData128
  | TransferExistsWithDifferentUserData64
  | TransferExistsWithDifferentUserData32
  | TransferExistsWithDifferentLedger
  | TransferExistsWithDifferentCode
  | TransferExceedsCredits
  | TransferExceedsDebits
  | TransferDebitAccountNotFound
  | TransferCreditAccountNotFound
  | TransferIDAlreadyFailed
  | TransferOverflowsDebits
  | TransferStatusOther nat

record CreateAccountResult =
  AccountResult_Status :: CreateAccountStatus
  AccountResult_Timestamp :: uint64

record CreateTransferResult =
  TransferResult_Status :: CreateTransferStatus
  TransferResult_Timestamp :: uint64

section \<open>Functions of the module\<close>

record SDK =
  ToUint128 :: "uint64 \<Rightarrow> uint128"
  Uint128_Uint64 :: "uint128 \<Rightarrow> uint64 \<times> uint64"
  Uint128_BigInt :: "uint128 \<Rightarrow> int"
  Uint128_Bytes :: "uint128 \<Rightarrow> byte list"
  Uint128_String :: "uint128 \<Rightarrow> string"
  HexStringToUint128 :: "string \<Rightarrow> Error + uint128"
  AccountFlags_ToUint16 :: "AccountFlags \<Rightarrow> uint16"
  Account_AccountFlags :: "uint16 \<Rightarrow> AccountFlags"
  TransferFlags_ToUint16 :: "TransferFlags \<Rightarrow> uint16"
  Transfer_TransferFlags :: "uint16 \<Rightarrow> TransferFlags"
  CreateAccountStatus_String :: "CreateAccountStatus \<Rightarrow> string"
  CreateTransferStatus_String :: "CreateTransferStatus \<Rightarrow> string"

text \<open>
  What the module documents of these functions: \<open>ToUint128\<close> widens, \<open>Uint64\<close> splits into the low
  and the high half, \<open>BigInt\<close> is the unsigned value, \<open>Bytes\<close> the sixteen bytes in little-endian
  order, \<open>String\<close> a hexadecimal form that \<open>HexStringToUint128\<close> reads back, and the flag structs
  survive packing into sixteen bits.
\<close>

locale tb_sdk =
  fixes sdk :: SDK
  assumes ToUint128_ucast: "ToUint128 sdk x = ucast x"
    and Uint64_halves: "Uint128_Uint64 sdk v = (ucast v, ucast (drop_bit 64 v))"
    and BigInt_uint: "Uint128_BigInt sdk v = uint v"
    and Bytes_little_endian: "Uint128_Bytes sdk v = map (\<lambda>i. ucast (drop_bit (8 * i) v)) [0..<16]"
    and Hex_String: "HexStringToUint128 sdk (Uint128_String sdk v) = Inr v"
    and AccountFlags_decode: "Account_AccountFlags sdk (AccountFlags_ToUint16 sdk f) = f"
    and TransferFlags_decode: "Transfer_TransferFlags sdk (TransferFlags_ToUint16 sdk g) = g"
begin

lemma String_inject [simp]: "Uint128_String sdk v = Uint128_String sdk w \<longleftrightarrow> v = w"
  by (metis Hex_String sum.inject(2))

lemma ToUint128_inject [simp]: "ToUint128 sdk x = ToUint128 sdk y \<longleftrightarrow> x = y"
  by (simp add: ToUint128_ucast)

lemma ToUint128_eq_0 [simp]: "ToUint128 sdk x = 0 \<longleftrightarrow> x = 0"
  using ToUint128_inject [of x 0] by (simp add: ToUint128_ucast)

lemma BigInt_ToUint128 [simp]: "Uint128_BigInt sdk (ToUint128 sdk x) = uint x"
  by (simp add: ToUint128_ucast BigInt_uint)

lemma BigInt_nonneg [simp]: "0 \<le> Uint128_BigInt sdk v"
  by (simp add: BigInt_uint)

lemma AccountFlags_ToUint16_inject [simp]:
  "AccountFlags_ToUint16 sdk f = AccountFlags_ToUint16 sdk f' \<longleftrightarrow> f = f'"
  by (metis AccountFlags_decode)

end

section \<open>The ledger interface\<close>

text \<open>
  The interface \<open>service.Ledger\<close> as operations on an abstract ledger state.  A lookup returns
  the struct and the \<open>found\<close> flag; an error is a left value.
\<close>

record 'l Ledger =
  Ledger_CreateAccount :: "Account \<Rightarrow> 'l \<Rightarrow> (Error + CreateAccountResult) \<times> 'l"
  Ledger_CreateTransfer :: "Transfer \<Rightarrow> 'l \<Rightarrow> (Error + CreateTransferResult) \<times> 'l"
  Ledger_LookupAccount :: "uint128 \<Rightarrow> 'l \<Rightarrow> (Error + Account \<times> bool) \<times> 'l"
  Ledger_LookupTransfer :: "uint128 \<Rightarrow> 'l \<Rightarrow> (Error + Transfer \<times> bool) \<times> 'l"

end
