(* ===== verification/Ledger_Model.thy ===== *)
theory Ledger_Model
  imports TigerBeetle_SDK
begin

text \<open>
  \<open>internal/ledger/model.go\<close>: the codes of the chart of accounts and of the transfer journal, the
  two reserved system accounts, and the account recipe \<open>ledger.Account\<close>.
\<close>

section \<open>Codes\<close>

definition AccountCodeSafeguardedCash :: uint16 where
  "AccountCodeSafeguardedCash = 1001"
definition AccountCodeCorporateWallet :: uint16 where
  "AccountCodeCorporateWallet = 2001"
definition AccountCodeCardWallet :: uint16 where
  "AccountCodeCardWallet = 2002"
definition AccountCodeCardSettlementPayable :: uint16 where
  "AccountCodeCardSettlementPayable = 2003"

definition TransferCodeTopUp :: uint16 where
  "TransferCodeTopUp = 1001"
definition TransferCodeWithdrawal :: uint16 where
  "TransferCodeWithdrawal = 1002"
definition TransferCodeCardAllocation :: uint16 where
  "TransferCodeCardAllocation = 1201"
definition TransferCodeCardReturn :: uint16 where
  "TransferCodeCardReturn = 1202"
definition TransferCodeAuthorization :: uint16 where
  "TransferCodeAuthorization = 1101"
definition TransferCodeAuthorizationIncrement :: uint16 where
  "TransferCodeAuthorizationIncrement = 1102"

lemmas account_code_defs =
  AccountCodeSafeguardedCash_def AccountCodeCorporateWallet_def
  AccountCodeCardWallet_def AccountCodeCardSettlementPayable_def

lemmas transfer_code_defs =
  TransferCodeTopUp_def TransferCodeWithdrawal_def TransferCodeCardAllocation_def
  TransferCodeCardReturn_def TransferCodeAuthorization_def TransferCodeAuthorizationIncrement_def

section \<open>System accounts\<close>

definition SafeguardedCashAccountID :: "SDK \<Rightarrow> uint128" where
  "SafeguardedCashAccountID sdk = ToUint128 sdk 1"

definition CardSettlementPayableAccountID :: "SDK \<Rightarrow> uint128" where
  "CardSettlementPayableAccountID sdk = ToUint128 sdk 2"

definition IsSystemAccountID :: "SDK \<Rightarrow> uint128 \<Rightarrow> bool" where
  "IsSystemAccountID sdk ident \<longleftrightarrow>
     ident = SafeguardedCashAccountID sdk \<or> ident = CardSettlementPayableAccountID sdk"

section \<open>The account recipe\<close>

text \<open>The \<open>%q\<close> of the first error quotes a kind that no caller in the service passes.\<close>

definition ledger_Account ::
  "SDK \<Rightarrow> AccountKind \<Rightarrow> uint128 \<Rightarrow> uint128 \<Rightarrow> uint32 \<Rightarrow> Error + Account" where
  "ledger_Account sdk kind ident corporateAccountID ledgerID =
     (if \<not> AccountKind_Valid kind then
        Inl (NewError (''unsupported account kind '' @ [CHR 0x22] @ kind @ [CHR 0x22]))
      else if ident = 0 then Inl (NewError ''account id must be non-zero'')
      else if ledgerID = 0 then Inl (NewError ''ledger id must be non-zero'')
      else
        let account = zeroAccount\<lparr>Account_ID := ident, Account_UserData128 := corporateAccountID,
                                  Account_Ledger := ledgerID\<rparr>;
            debitsBounded = AccountFlags_ToUint16 sdk
              \<lparr>DebitsMustNotExceedCredits = True, CreditsMustNotExceedDebits = False\<rparr>;
            creditsBounded = AccountFlags_ToUint16 sdk
              \<lparr>DebitsMustNotExceedCredits = False, CreditsMustNotExceedDebits = True\<rparr>
        in
          if kind = AccountSafeguardedCash then
            if corporateAccountID \<noteq> 0
            then Inl (NewError ''safeguarded cash cannot have a corporate parent'')
            else Inr (account\<lparr>Account_Code := AccountCodeSafeguardedCash,
                              Account_Flags := creditsBounded\<rparr>)
          else if kind = AccountCorporateWallet then
            if corporateAccountID \<noteq> 0
            then Inl (NewError ''corporate wallet cannot have a corporate parent'')
            else Inr (account\<lparr>Account_Code := AccountCodeCorporateWallet,
                              Account_Flags := debitsBounded\<rparr>)
          else if kind = AccountCardWallet then
            if corporateAccountID = 0
            then Inl (NewError ''card wallet requires a corporate parent'')
            else if corporateAccountID = ident
            then Inl (NewError ''card wallet cannot be its own corporate parent'')
            else Inr (account\<lparr>Account_Code := AccountCodeCardWallet,
                              Account_Flags := debitsBounded\<rparr>)
          else if kind = AccountCardSettlementPayable then
            if corporateAccountID \<noteq> 0
            then Inl (NewError ''card settlement payable cannot have a corporate parent'')
            else Inr (account\<lparr>Account_Code := AccountCodeCardSettlementPayable,
                              Account_Flags := debitsBounded\<rparr>)
          else Inr account)"

section \<open>The chart of accounts\<close>

text \<open>
  The table of \<open>docs/ledger-model.md\<close>: each account class with its code and its invariant.
\<close>

definition chart_code :: "AccountKind \<Rightarrow> uint16" where
  "chart_code k =
     (if k = AccountSafeguardedCash then 1001 else if k = AccountCorporateWallet then 2001
      else if k = AccountCardWallet then 2002 else 2003)"

definition debit_normal :: "AccountKind \<Rightarrow> bool" where
  "debit_normal k \<longleftrightarrow> k = AccountSafeguardedCash"

lemma account_codes_distinct [simp]:
  "AccountCodeSafeguardedCash \<noteq> AccountCodeCorporateWallet"
  "AccountCodeSafeguardedCash \<noteq> AccountCodeCardWallet"
  "AccountCodeSafeguardedCash \<noteq> AccountCodeCardSettlementPayable"
  "AccountCodeCorporateWallet \<noteq> AccountCodeSafeguardedCash"
  "AccountCodeCorporateWallet \<noteq> AccountCodeCardWallet"
  "AccountCodeCorporateWallet \<noteq> AccountCodeCardSettlementPayable"
  "AccountCodeCardWallet \<noteq> AccountCodeSafeguardedCash"
  "AccountCodeCardWallet \<noteq> AccountCodeCorporateWallet"
  "AccountCodeCardWallet \<noteq> AccountCodeCardSettlementPayable"
  "AccountCodeCardSettlementPayable \<noteq> AccountCodeSafeguardedCash"
  "AccountCodeCardSettlementPayable \<noteq> AccountCodeCorporateWallet"
  "AccountCodeCardSettlementPayable \<noteq> AccountCodeCardWallet"
  by (simp_all add: account_code_defs)

lemma transfer_codes_distinct [simp]: "distinct [TransferCodeTopUp, TransferCodeWithdrawal,
    TransferCodeCardAllocation, TransferCodeCardReturn, TransferCodeAuthorization,
    TransferCodeAuthorizationIncrement]"
  by (simp add: transfer_code_defs)

lemma ledger_Account_Inr:
  "ledger_Account sdk k ident corp l = Inr a \<longleftrightarrow>
     AccountKind_Valid k \<and> ident \<noteq> 0 \<and> l \<noteq> 0 \<and>
     (if k = AccountCardWallet then corp \<noteq> 0 \<and> corp \<noteq> ident else corp = 0) \<and>
     a = zeroAccount\<lparr>Account_ID := ident, Account_UserData128 := corp, Account_Ledger := l,
       Account_Code := chart_code k,
       Account_Flags := AccountFlags_ToUint16 sdk
         \<lparr>DebitsMustNotExceedCredits = \<not> debit_normal k,
          CreditsMustNotExceedDebits = debit_normal k\<rparr>\<rparr>"
  by (auto simp: ledger_Account_def Let_def AccountKind_Valid_def chart_code_def debit_normal_def
      account_code_defs)

end
