(* ===== verification/Metadata_Cache.thy ===== *)
theory Metadata_Cache
  imports Ledger_Model "HOL-Library.AList"
begin

text \<open>
  \<open>internal/service/cache.go\<close>: the bounded round-robin cache of account metadata.  The Go map
  \<open>entries\<close> is an association list, updated with the operations of \<open>HOL-Library.AList\<close>; \<open>keys\<close>
  is the ring buffer of cached IDs and \<open>next\<close> the position evicted next.  Each method runs under
  the cache's mutex, so each is one atomic function.  Indexing \<open>keys\<close> out of range panics, which
  is \<^const>\<open>None\<close>.
\<close>

section \<open>Definitions\<close>

record accountMetadata =
  meta_kind :: AccountKind
  meta_corporateAccountID :: uint128

record metadataCache =
  cache_entries :: "(uint128 \<times> accountMetadata) list"
  cache_keys :: "uint128 list"
  cache_next :: int
  cache_limit :: int

definition newMetadataCache :: "int \<Rightarrow> metadataCache" where
  "newMetadataCache limit =
     \<lparr>cache_entries = [], cache_keys = [], cache_next = 0,
      cache_limit = (if limit < 0 then 0 else limit)\<rparr>"

definition cache_Load :: "uint128 \<Rightarrow> metadataCache \<Rightarrow> accountMetadata option" where
  "cache_Load ident c =
     (if cache_limit c = 0 then None else map_of (cache_entries c) ident)"

definition cache_Store :: "uint128 \<Rightarrow> accountMetadata \<Rightarrow> metadataCache \<Rightarrow> metadataCache option" where
  "cache_Store ident metadata c =
     (if cache_limit c = 0 then Some c
      else if map_of (cache_entries c) ident \<noteq> None then
        Some (c\<lparr>cache_entries := AList.update ident metadata (cache_entries c)\<rparr>)
      else if int (length (cache_entries c)) < cache_limit c then
        Some (c\<lparr>cache_entries := AList.update ident metadata (cache_entries c),
                cache_keys := cache_keys c @ [ident]\<rparr>)
      else if 0 \<le> cache_next c \<and> nat (cache_next c) < length (cache_keys c) then
        let evicted = cache_keys c ! nat (cache_next c) in
        Some (c\<lparr>cache_entries :=
                  AList.update ident metadata (AList.delete evicted (cache_entries c)),
                cache_keys := (cache_keys c)[nat (cache_next c) := ident],
                cache_next := (cache_next c + 1) mod cache_limit c\<rparr>)
      else None)"

definition cache_Len :: "metadataCache \<Rightarrow> nat" where
  "cache_Len c = length (cache_entries c)"

text \<open>A sequence of stores, stopping at a panic.\<close>

fun cache_stores :: "(uint128 \<times> accountMetadata) list \<Rightarrow> metadataCache \<Rightarrow> metadataCache option" where
  "cache_stores [] c = Some c"
| "cache_stores ((i, m) # rest) c =
     (case cache_Store i m c of None \<Rightarrow> None | Some c' \<Rightarrow> cache_stores rest c')"

text \<open>
  The representation invariant: the ring holds the cached IDs, each once, and never more than
  the limit; the eviction pointer is a position of the ring and stays at the start until the
  ring is full.
\<close>

definition cache_inv :: "metadataCache \<Rightarrow> bool" where
  "cache_inv c \<longleftrightarrow>
     0 \<le> cache_limit c \<and> distinct (map fst (cache_entries c)) \<and> distinct (cache_keys c) \<and>
     set (cache_keys c) = fst ` set (cache_entries c) \<and>
     int (length (cache_keys c)) \<le> cache_limit c \<and> 0 \<le> cache_next c \<and>
     (cache_next c < cache_limit c \<or> cache_next c = 0) \<and>
     (int (length (cache_keys c)) < cache_limit c \<longrightarrow> cache_next c = 0)"

text \<open>How many stores of new IDs the entry at position \<open>p\<close> of the ring still survives.\<close>

definition ring_life :: "metadataCache \<Rightarrow> nat \<Rightarrow> int" where
  "ring_life c p =
     (if int (length (cache_keys c)) < cache_limit c
      then cache_limit c - int (length (cache_keys c)) + int p
      else (int p - cache_next c) mod cache_limit c)"

section \<open>The contract of a cache\<close>

text \<open>
  What a client may rely on: a store succeeds and keeps the invariant, and afterwards a load
  gives only what was just stored or what a load gave before.  Everything the cache holds then
  satisfies any predicate that the stored values satisfy.
\<close>

locale bounded_cache =
  fixes inv :: "'c \<Rightarrow> bool"
    and load :: "'k \<Rightarrow> 'c \<Rightarrow> 'v option"
    and store :: "'k \<Rightarrow> 'v \<Rightarrow> 'c \<Rightarrow> 'c option"
  assumes store_total: "inv c \<Longrightarrow> \<exists>c'. store k v c = Some c' \<and> inv c'"
    and load_store: "inv c \<Longrightarrow> store k v c = Some c' \<Longrightarrow> load j c' = Some w \<Longrightarrow>
           j = k \<and> w = v \<or> load j c = Some w"
begin

definition holds_only :: "('k \<Rightarrow> 'v \<Rightarrow> bool) \<Rightarrow> 'c \<Rightarrow> bool" where
  "holds_only P c \<longleftrightarrow> (\<forall>k v. load k c = Some v \<longrightarrow> P k v)"

lemma store_cases:
  assumes "inv c"
  obtains c' where "store k v c = Some c'" and "inv c'"
  using store_total [OF assms] by blast

lemma store_inv: "inv c \<Longrightarrow> store k v c = Some c' \<Longrightarrow> inv c'"
  using store_total [of c k v] by auto

lemma holds_only_store:
  "inv c \<Longrightarrow> holds_only P c \<Longrightarrow> P k v \<Longrightarrow> store k v c = Some c' \<Longrightarrow> holds_only P c'"
  unfolding holds_only_def by (metis load_store)

lemma holds_only_mono:
  "holds_only P c \<Longrightarrow> (\<And>k v. P k v \<Longrightarrow> Q k v) \<Longrightarrow> holds_only Q c"
  unfolding holds_only_def by blast

end

section \<open>The invariant\<close>

lemma keys_delete: "fst ` set (AList.delete k al) = fst ` set al - {k}"
  using arg_cong [OF delete_keys [of k al], of set] by simp

lemma distinct_keys_delete:
  "distinct (map fst al) \<Longrightarrow> distinct (map fst (AList.delete k al))"
  by (simp add: delete_keys distinct_removeAll)

lemma cache_inv_length:
  assumes "cache_inv c"
  shows "length (cache_keys c) = length (cache_entries c)"
proof -
  have "length (cache_keys c) = card (set (cache_keys c))"
    using assms by (metis cache_inv_def distinct_card)
  also have "\<dots> = card (set (map fst (cache_entries c)))"
    using assms by (simp add: cache_inv_def)
  also have "\<dots> = length (cache_entries c)"
    using assms by (metis cache_inv_def distinct_card length_map)
  finally show ?thesis .
qed

lemma cache_inv_new: "cache_inv (newMetadataCache limit)"
  by (simp add: cache_inv_def newMetadataCache_def)

lemma map_of_eq_None_keys: "cache_inv c \<Longrightarrow>
    map_of (cache_entries c) i = None \<longleftrightarrow> i \<notin> set (cache_keys c)"
  by (simp add: cache_inv_def map_of_eq_None_iff)

text \<open>The three ways a store changes an enabled cache.\<close>

lemma cache_Store_cases:
  assumes inv: "cache_inv c" and limit: "cache_limit c \<noteq> 0"
  obtains
    (overwrite) "i \<in> set (cache_keys c)"
      "cache_Store i m c = Some (c\<lparr>cache_entries := AList.update i m (cache_entries c)\<rparr>)"
  | (fill) "i \<notin> set (cache_keys c)" "int (length (cache_keys c)) < cache_limit c"
      "cache_Store i m c = Some (c\<lparr>cache_entries := AList.update i m (cache_entries c),
         cache_keys := cache_keys c @ [i]\<rparr>)"
  | (evict) "i \<notin> set (cache_keys c)" "int (length (cache_keys c)) = cache_limit c"
      "nat (cache_next c) < length (cache_keys c)"
      "cache_Store i m c = Some (c\<lparr>cache_entries := AList.update i m
           (AList.delete (cache_keys c ! nat (cache_next c)) (cache_entries c)),
         cache_keys := (cache_keys c)[nat (cache_next c) := i],
         cache_next := (cache_next c + 1) mod cache_limit c\<rparr>)"
proof -
  note len = cache_inv_length [OF inv] and none = map_of_eq_None_keys [OF inv]
  consider "i \<in> set (cache_keys c)"
    | "i \<notin> set (cache_keys c)" "int (length (cache_keys c)) < cache_limit c"
    | "i \<notin> set (cache_keys c)" "int (length (cache_keys c)) = cache_limit c"
    using inv by (fastforce simp: cache_inv_def)
  then show ?thesis
  proof cases
    case 1
    then show ?thesis
      using limit none [of i] by (intro overwrite) (auto simp: cache_Store_def)
  next
    case 2
    then show ?thesis
      using limit none [of i] len by (intro fill) (auto simp: cache_Store_def)
  next
    case 3
    moreover from 3 inv limit have "0 \<le> cache_next c" "nat (cache_next c) < length (cache_keys c)"
      by (auto simp: cache_inv_def)
    ultimately show ?thesis
      using limit none [of i] len by (intro evict) (auto simp: cache_Store_def Let_def)
  qed
qed

lemma set_keys_update: "distinct xs \<Longrightarrow> n < length xs \<Longrightarrow> x \<notin> set xs \<Longrightarrow>
    set (xs[n := x]) = insert x (set xs - {xs ! n})"
  by (simp add: set_update_distinct)

lemma cache_Store_total:
  assumes inv: "cache_inv c"
  shows "\<exists>c'. cache_Store i m c = Some c' \<and> cache_inv c'"
proof (cases "cache_limit c = 0")
  case True
  then show ?thesis
    using inv by (simp add: cache_Store_def)
next
  case False
  from inv False show ?thesis
  proof (cases rule: cache_Store_cases [where i = i and m = m])
    case overwrite
    then show ?thesis
      using inv by (auto simp: cache_inv_def distinct_update dom_update)
  next
    case fill
    then show ?thesis
      using inv by (auto simp: cache_inv_def distinct_update dom_update)
  next
    case evict
    moreover have "0 < cache_limit c"
      using inv False by (simp add: cache_inv_def)
    ultimately show ?thesis
      using inv
      by (auto simp: cache_inv_def distinct_update distinct_keys_delete dom_update keys_delete
          set_keys_update distinct_list_update)
  qed
qed

lemma cache_load_store:
  assumes inv: "cache_inv c" and st: "cache_Store i m c = Some c'"
    and ld: "cache_Load j c' = Some w"
  shows "j = i \<and> w = m \<or> cache_Load j c = Some w"
proof (cases "cache_limit c = 0")
  case True
  with st ld show ?thesis
    by (simp add: cache_Store_def)
next
  case False
  from inv False show ?thesis
    by (cases rule: cache_Store_cases [where i = i and m = m])
      (use st ld False in \<open>auto simp: cache_Load_def update_conv' delete_conv'
        split: if_splits\<close>)
qed

interpretation mc: bounded_cache cache_inv cache_Load cache_Store
  by unfold_locales (auto dest: cache_Store_total cache_load_store)

section \<open>Eviction\<close>

lemma life_evict:
  assumes "0 < n" "(p - k) mod n \<noteq> (0 :: int)"
  shows "(p - (k + 1) mod n) mod n = (p - k) mod n - 1"
proof -
  have "(p - (k + 1) mod n) mod n = ((p - k) mod n - 1) mod n"
    by (simp add: mod_simps algebra_simps)
  moreover have "0 \<le> (p - k) mod n - 1" "(p - k) mod n - 1 < n"
    using assms pos_mod_sign [of n "p - k"] pos_mod_bound [of n "p - k"] by linarith+
  ultimately show ?thesis
    by simp
qed

lemma ring_life_step:
  assumes inv: "cache_inv c" and limit: "cache_limit c \<noteq> 0" and p: "p < length (cache_keys c)"
    and life: "0 < ring_life c p" and st: "cache_Store j w c = Some c'"
  shows "cache_limit c' = cache_limit c \<and> p < length (cache_keys c') \<and>
    cache_keys c' ! p = cache_keys c ! p \<and> ring_life c p - 1 \<le> ring_life c' p \<and>
    cache_Load (cache_keys c ! p) c' =
      (if j = cache_keys c ! p then Some w else cache_Load (cache_keys c ! p) c)"
  using inv limit
proof (cases rule: cache_Store_cases [where i = j and m = w])
  case overwrite
  then show ?thesis
    using st p limit by (auto simp: ring_life_def cache_Load_def update_conv')
next
  case fill
  moreover have "cache_next c = 0"
    using fill inv by (simp add: cache_inv_def)
  ultimately show ?thesis
    using st p limit by (auto simp: ring_life_def cache_Load_def update_conv' nth_append)
next
  case evict
  have pos: "0 < cache_limit c" and d: "distinct (cache_keys c)"
    using inv limit by (auto simp: cache_inv_def)
  have ne: "(int p - cache_next c) mod cache_limit c \<noteq> 0"
    using life evict by (simp add: ring_life_def)
  have pn: "p \<noteq> nat (cache_next c)"
    using ne inv by (auto simp: cache_inv_def)
  have "cache_keys c ! nat (cache_next c) \<noteq> cache_keys c ! p"
    using pn d p evict by (simp add: nth_eq_iff_index_eq)
  then show ?thesis
    using st p limit pn evict life_evict [OF pos ne]
    by (auto simp: ring_life_def cache_Load_def update_conv' delete_conv')
qed

lemma cache_stores_life:
  assumes "cache_inv c" "cache_limit c \<noteq> 0" "p < length (cache_keys c)"
    "int (length ops) \<le> ring_life c p"
  shows "\<exists>c'. cache_stores ops c = Some c' \<and>
    cache_Load (cache_keys c ! p) c' =
      (case map_of (rev ops) (cache_keys c ! p) of
         None \<Rightarrow> cache_Load (cache_keys c ! p) c | Some w \<Rightarrow> Some w)"
  using assms
proof (induction ops arbitrary: c)
  case Nil
  then show ?case
    by simp
next
  case (Cons op ops)
  obtain j w where op: "op = (j, w)"
    by fastforce
  obtain c1 where c1: "cache_Store j w c = Some c1" "cache_inv c1"
    using Cons.prems(1) by (rule mc.store_cases)
  have "0 < ring_life c p"
    using Cons.prems(4) by simp
  note step = ring_life_step [OF Cons.prems(1-3) this c1(1)]
  have "\<exists>c'. cache_stores ops c1 = Some c' \<and>
    cache_Load (cache_keys c1 ! p) c' =
      (case map_of (rev ops) (cache_keys c1 ! p) of
         None \<Rightarrow> cache_Load (cache_keys c1 ! p) c1 | Some w \<Rightarrow> Some w)"
    by (rule Cons.IH) (use c1 step Cons.prems in auto)
  then show ?case
    using step by (auto simp: op c1 map_add_def split: option.splits)
qed

lemma fresh_life:
  assumes inv: "cache_inv c" and limit: "cache_limit c \<noteq> 0" and new: "cache_Load i c = None"
    and st: "cache_Store i m c = Some c'"
  shows "\<exists>p < length (cache_keys c'). cache_keys c' ! p = i \<and>
    ring_life c' p = cache_limit c - 1 \<and> cache_limit c' = cache_limit c \<and>
    cache_Load i c' = Some m"
  using inv limit
proof (cases rule: cache_Store_cases [where i = i and m = m])
  case overwrite
  then show ?thesis
    using new map_of_eq_None_keys [OF inv, of i] limit by (simp add: cache_Load_def)
next
  case fill
  moreover have "cache_next c = 0" "0 < cache_limit c"
    using fill inv limit by (auto simp: cache_inv_def)
  ultimately show ?thesis
    using st by (intro exI [of _ "length (cache_keys c)"])
      (auto simp: ring_life_def cache_Load_def update_conv')
next
  case evict
  have pos: "0 < cache_limit c" "0 \<le> cache_next c"
    using inv limit by (auto simp: cache_inv_def)
  have "(cache_next c - (cache_next c + 1) mod cache_limit c) mod cache_limit c = cache_limit c - 1"
    using pos by (simp add: mod_simps zmod_minus1)
  then show ?thesis
    using st evict pos by (intro exI [of _ "nat (cache_next c)"])
      (auto simp: ring_life_def cache_Load_def update_conv')
qed

section \<open>Properties\<close>

lemma cache_stores_inv:
  "cache_inv c \<Longrightarrow> \<exists>c'. cache_stores ops c = Some c' \<and> cache_inv c' \<and> cache_limit c' = cache_limit c"
proof (induction ops arbitrary: c)
  case (Cons op ops)
  obtain j w where op: "op = (j, w)"
    by fastforce
  obtain c1 where c1: "cache_Store j w c = Some c1" "cache_inv c1"
    using Cons.prems by (rule mc.store_cases)
  moreover have "cache_limit c1 = cache_limit c"
    using c1(1) by (auto simp: cache_Store_def Let_def split: if_splits)
  ultimately show ?case
    using Cons.IH [of c1] by (simp add: op)
qed simp

text \<open>
  C24.  The cache is bounded and never panics: every sequence of stores into a new cache succeeds,
  keeps the representation invariant, and leaves at most \<open>limit\<close> entries (none when the cache is
  disabled by a limit of zero or less).
\<close>

theorem cache_bounded:
  "\<exists>c. cache_stores ops (newMetadataCache limit) = Some c \<and> cache_inv c \<and>
     int (cache_Len c) \<le> max 0 limit"
proof -
  obtain c where c: "cache_stores ops (newMetadataCache limit) = Some c" "cache_inv c"
      "cache_limit c = cache_limit (newMetadataCache limit)"
    using cache_stores_inv [OF cache_inv_new] by blast
  moreover have "int (cache_Len c) \<le> cache_limit c"
    using c(2) cache_inv_length [OF c(2)] by (simp add: cache_Len_def cache_inv_def)
  ultimately show ?thesis
    by (auto simp: newMetadataCache_def split: if_splits)
qed

text \<open>
  A store is immediately visible and evicts at most one entry: in an enabled cache a load of
  the stored ID gives the stored metadata, and every other ID loads as before, except that when
  the cache is full and the ID is new, the ID at the eviction pointer is gone.
\<close>

lemma cache_store_effect:
  assumes inv: "cache_inv c" and limit: "cache_limit c \<noteq> 0"
    and st: "cache_Store i m c = Some c'"
  shows "cache_Load i c' = Some m \<and>
    (\<forall>j. j \<noteq> i \<longrightarrow> cache_Load j c' =
       (if cache_Load i c = None \<and> int (cache_Len c) = cache_limit c \<and>
           j = cache_keys c ! nat (cache_next c)
        then None else cache_Load j c))"
  using inv limit
proof (cases rule: cache_Store_cases [where i = i and m = m])
  case overwrite
  then show ?thesis
    using st limit map_of_eq_None_keys [OF inv, of i]
    by (auto simp: cache_Load_def update_conv')
next
  case fill
  then show ?thesis
    using st limit cache_inv_length [OF inv]
    by (auto simp: cache_Load_def cache_Len_def update_conv')
next
  case evict
  then show ?thesis
    using st limit map_of_eq_None_keys [OF inv, of i] cache_inv_length [OF inv]
    by (auto simp: cache_Load_def cache_Len_def update_conv' delete_conv')
qed

lemma cache_store_effect_witness:
  "cache_Load 3 ((newMetadataCache 1)\<lparr>cache_entries := [(3, \<lparr>meta_kind = AccountCardWallet,
      meta_corporateAccountID = 7\<rparr>)], cache_keys := [3]\<rparr>) =
     Some \<lparr>meta_kind = AccountCardWallet, meta_corporateAccountID = 7\<rparr>"
proof -
  have "cache_Store 3 \<lparr>meta_kind = AccountCardWallet, meta_corporateAccountID = 7\<rparr>
      (newMetadataCache 1) = Some ((newMetadataCache 1)\<lparr>cache_entries := [(3,
        \<lparr>meta_kind = AccountCardWallet, meta_corporateAccountID = 7\<rparr>)], cache_keys := [3]\<rparr>)"
    by (simp add: cache_Store_def newMetadataCache_def)
  from cache_store_effect [OF cache_inv_new _ this] show ?thesis
    by (simp add: newMetadataCache_def)
qed

text \<open>
  C25.  Round-robin eviction is fair: a newly inserted entry survives any \<open>limit - 1\<close> further
  stores, whatever IDs they store, and a load then gives the metadata stored for it last.
\<close>

theorem cache_entry_survives:
  assumes inv: "cache_inv c" and new: "cache_Load i c = None"
    and st: "cache_Store i m c = Some c'" and few: "int (length ops) < cache_limit c"
  shows "\<exists>c''. cache_stores ops c' = Some c'' \<and>
    cache_Load i c'' = Some (case map_of (rev ops) i of None \<Rightarrow> m | Some w \<Rightarrow> w)"
proof -
  have limit: "cache_limit c \<noteq> 0"
    using few by auto
  have inv': "cache_inv c'"
    using inv st by (rule mc.store_inv)
  obtain p where p: "p < length (cache_keys c')" "cache_keys c' ! p = i"
      "ring_life c' p = cache_limit c - 1" "cache_limit c' = cache_limit c"
      "cache_Load i c' = Some m"
    using fresh_life [OF inv limit new st] by blast
  have "int (length ops) \<le> ring_life c' p" "cache_limit c' \<noteq> 0"
    using few p(3,4) limit by simp_all
  then obtain c'' where "cache_stores ops c' = Some c''"
      "cache_Load i c'' = (case map_of (rev ops) i of None \<Rightarrow> cache_Load i c' | Some w \<Rightarrow> Some w)"
    using cache_stores_life [OF inv' _ p(1)] p(2) by blast
  then show ?thesis
    using p(5) by (simp split: option.splits)
qed

theorem cache_entry_survives_witness:
  "\<exists>c c''. cache_Store 10 \<lparr>meta_kind = AccountCorporateWallet, meta_corporateAccountID = 0\<rparr>
       (newMetadataCache 2) = Some c \<and>
     cache_stores [(11, \<lparr>meta_kind = AccountCardWallet, meta_corporateAccountID = 10\<rparr>)] c
       = Some c'' \<and>
     cache_Load 10 c'' = Some \<lparr>meta_kind = AccountCorporateWallet, meta_corporateAccountID = 0\<rparr>"
proof -
  obtain c where c: "cache_Store 10
      \<lparr>meta_kind = AccountCorporateWallet, meta_corporateAccountID = 0\<rparr> (newMetadataCache 2) = Some c"
    by (simp add: cache_Store_def newMetadataCache_def)
  from cache_entry_survives [OF cache_inv_new _ this,
      of "[(11, \<lparr>meta_kind = AccountCardWallet, meta_corporateAccountID = 10\<rparr>)]"] c
  show ?thesis
    by (auto simp: newMetadataCache_def cache_Load_def)
qed

end
