(* ===== verification/Observability.thy ===== *)
theory Observability
  imports Domain_Model
begin

text \<open>
  \<open>internal/observability/metrics.go\<close>.  The Prometheus vectors are third-party objects; their
  documented effect is modelled, a counter or gauge per label tuple and a histogram as the list
  of observed durations.  \<open>MetricCall\<close> lists the methods of \<open>Metrics\<close> as data, so that programs
  can record which of them they call; \<open>metrics_apply\<close> is what the calls do.  \<open>statusWriter\<close> is the
  response writer that captures the status of a response.
\<close>

section \<open>Metrics\<close>

record Metrics =
  metrics_operations :: "string \<times> string \<Rightarrow> nat"
  metrics_duration :: "string \<Rightarrow> Duration list"
  metrics_http :: "string \<times> string \<times> string \<Rightarrow> nat"
  metrics_admissionInFlight :: int
  metrics_admissionRejected :: "string \<Rightarrow> nat"
  metrics_ledgerCalls :: "string \<times> string \<Rightarrow> nat"
  metrics_ledgerCallDuration :: "string \<Rightarrow> Duration list"
  metrics_ledgerCallsInFlight :: int

definition NewMetrics :: Metrics where
  "NewMetrics =
     \<lparr>metrics_operations = (\<lambda>_. 0), metrics_duration = (\<lambda>_. []), metrics_http = (\<lambda>_. 0),
      metrics_admissionInFlight = 0, metrics_admissionRejected = (\<lambda>_. 0),
      metrics_ledgerCalls = (\<lambda>_. 0), metrics_ledgerCallDuration = (\<lambda>_. []),
      metrics_ledgerCallsInFlight = 0\<rparr>"

text \<open>\<open>vec.WithLabelValues(l).Inc()\<close> and \<open>vec.WithLabelValues(l).Observe(d)\<close>.\<close>

definition vec_inc :: "'k \<Rightarrow> ('k \<Rightarrow> nat) \<Rightarrow> 'k \<Rightarrow> nat" where
  "vec_inc k f = f(k := f k + 1)"

definition vec_observe :: "'k \<Rightarrow> 'd \<Rightarrow> ('k \<Rightarrow> 'd list) \<Rightarrow> 'k \<Rightarrow> 'd list" where
  "vec_observe k d f = f(k := f k @ [d])"

definition metrics_BeginAdmission :: "Metrics \<Rightarrow> Metrics" where
  "metrics_BeginAdmission m = m\<lparr>metrics_admissionInFlight := metrics_admissionInFlight m + 1\<rparr>"

definition metrics_EndAdmission :: "Metrics \<Rightarrow> Metrics" where
  "metrics_EndAdmission m = m\<lparr>metrics_admissionInFlight := metrics_admissionInFlight m - 1\<rparr>"

definition metrics_ObserveAdmissionRejection :: "string \<Rightarrow> Metrics \<Rightarrow> Metrics" where
  "metrics_ObserveAdmissionRejection reason m =
     m\<lparr>metrics_admissionRejected := vec_inc reason (metrics_admissionRejected m)\<rparr>"

definition metrics_ObserveLedgerCall :: "string \<Rightarrow> string \<Rightarrow> Duration \<Rightarrow> Metrics \<Rightarrow> Metrics" where
  "metrics_ObserveLedgerCall kind outcome elapsed m =
     m\<lparr>metrics_ledgerCalls := vec_inc (kind, outcome) (metrics_ledgerCalls m),
       metrics_ledgerCallDuration := vec_observe kind elapsed (metrics_ledgerCallDuration m)\<rparr>"

definition metrics_SetLedgerCallsInFlight :: "nat \<Rightarrow> Metrics \<Rightarrow> Metrics" where
  "metrics_SetLedgerCallsInFlight inFlight m = m\<lparr>metrics_ledgerCallsInFlight := int inFlight\<rparr>"

definition metrics_ObserveOperation :: "string \<Rightarrow> string \<Rightarrow> Duration \<Rightarrow> Metrics \<Rightarrow> Metrics" where
  "metrics_ObserveOperation kind outcome elapsed m =
     m\<lparr>metrics_operations := vec_inc (kind, outcome) (metrics_operations m),
       metrics_duration := vec_observe kind elapsed (metrics_duration m)\<rparr>"

definition metrics_ObserveHTTP :: "string \<Rightarrow> string \<Rightarrow> int \<Rightarrow> Metrics \<Rightarrow> Metrics" where
  "metrics_ObserveHTTP verb route status m =
     m\<lparr>metrics_http := vec_inc (verb, route, show_int status) (metrics_http m)\<rparr>"

datatype MetricCall =
    BeginAdmission
  | EndAdmission
  | ObserveAdmissionRejection string
  | ObserveLedgerCall string string Duration
  | SetLedgerCallsInFlight nat
  | ObserveOperation string string Duration
  | ObserveHTTP string string int

fun metrics_apply :: "MetricCall \<Rightarrow> Metrics \<Rightarrow> Metrics" where
  "metrics_apply BeginAdmission = metrics_BeginAdmission"
| "metrics_apply EndAdmission = metrics_EndAdmission"
| "metrics_apply (ObserveAdmissionRejection r) = metrics_ObserveAdmissionRejection r"
| "metrics_apply (ObserveLedgerCall k out d) = metrics_ObserveLedgerCall k out d"
| "metrics_apply (SetLedgerCallsInFlight n) = metrics_SetLedgerCallsInFlight n"
| "metrics_apply (ObserveOperation k out d) = metrics_ObserveOperation k out d"
| "metrics_apply (ObserveHTTP m r s) = metrics_ObserveHTTP m r s"

text \<open>\<open>Handler\<close>: \<open>promhttp.HandlerFor\<close>, a parameter, gives the exposition of a registry.\<close>

definition metrics_Handler :: "(Metrics \<Rightarrow> 'h) \<Rightarrow> Metrics \<Rightarrow> 'h" where
  "metrics_Handler promhttp_HandlerFor m = promhttp_HandlerFor m"

section \<open>The status-capturing response writer\<close>

text \<open>
  The embedded \<open>http.ResponseWriter\<close> is modelled by the calls it receives: \<open>Inl\<close> a status for
  \<open>WriteHeader\<close>, \<open>Inr\<close> bytes for \<open>Write\<close>.
\<close>

record statusWriter =
  sw_status :: int
  sw_wroteHeader :: bool
  sw_calls :: "(int + string) list"

definition new_statusWriter :: statusWriter where
  "new_statusWriter = \<lparr>sw_status = 200, sw_wroteHeader = False, sw_calls = []\<rparr>"

definition sw_WriteHeader :: "int \<Rightarrow> statusWriter \<Rightarrow> statusWriter" where
  "sw_WriteHeader status w =
     (if sw_wroteHeader w then w
      else w\<lparr>sw_wroteHeader := True, sw_status := status, sw_calls := sw_calls w @ [Inl status]\<rparr>)"

definition sw_Write :: "string \<Rightarrow> statusWriter \<Rightarrow> statusWriter" where
  "sw_Write body w =
     (let w' = (if \<not> sw_wroteHeader w then sw_WriteHeader 200 w else w)
      in w'\<lparr>sw_calls := sw_calls w' @ [Inr body]\<rparr>)"

fun sw_run :: "(int + string) list \<Rightarrow> statusWriter \<Rightarrow> statusWriter" where
  "sw_run [] w = w"
| "sw_run (Inl s # cs) w = sw_run cs (sw_WriteHeader s w)"
| "sw_run (Inr b # cs) w = sw_run cs (sw_Write b w)"

text \<open>
  What \<open>net/http\<close> documents of a response: the first \<open>WriteHeader\<close> call fixes the status, a
  \<open>Write\<close> before any \<open>WriteHeader\<close> implies 200, and a handler that writes nothing sends 200.
\<close>

fun http_status :: "(int + string) list \<Rightarrow> int" where
  "http_status [] = 200"
| "http_status (Inl s # _) = s"
| "http_status (Inr _ # _) = 200"

lemma sw_run_wrote:
  "sw_wroteHeader w \<Longrightarrow> sw_run cs w =
     w\<lparr>sw_calls := sw_calls w @ map Inr [b. Inr b \<leftarrow> cs]\<rparr>"
proof (induction cs w rule: sw_run.induct)
  case (1 w)
  then show ?case by simp
next
  case (2 s cs w)
  then show ?case by (simp add: sw_WriteHeader_def)
next
  case (3 b cs w)
  then show ?case by (simp add: sw_Write_def Let_def)
qed

lemma sw_run_new:
  "sw_run (c # cs) new_statusWriter =
     \<lparr>sw_status = http_status (c # cs), sw_wroteHeader = True,
      sw_calls = Inl (http_status (c # cs)) # map Inr [b. Inr b \<leftarrow> c # cs]\<rparr>"
  by (cases c) (simp_all add: sw_run_wrote sw_WriteHeader_def sw_Write_def new_statusWriter_def)

end
