(* ===== verification/Ledger_Health.thy ===== *)
theory Ledger_Health
  imports Observability "HOL-Library.AList" "HOL-Library.Multiset"
begin

text \<open>
  \<open>internal/service/health.go\<close>: the record of ledger calls in flight behind readiness and
  admission.  \<open>active\<close> is an association list; \<open>findOldest\<close> ranges over the Go map in an
  unspecified order, so it takes that order, any permutation of the entries, as an argument.  The
  parts of \<open>begin\<close> and of the function it returns that run under the mutex are one atomic step
  each, \<open>observed_begin\<close> and \<open>observed_done\<close>.
\<close>

section \<open>Definitions\<close>

record LedgerHealth =
  Health_Ready :: bool
  Health_InFlight :: int
  Health_Oldest :: Duration
  Health_LastSuccess :: Time

record observedLedger =
  obs_metrics :: bool
  obs_stallThreshold :: Duration
  obs_nextID :: uint64
  obs_active :: "(uint64 \<times> Time) list"
  obs_oldestID :: uint64
  obs_oldestStarted :: Time
  obs_lastSuccess :: Time

definition newObservedLedger :: "Duration \<Rightarrow> bool \<Rightarrow> observedLedger" where
  "newObservedLedger stallThreshold metrics =
     \<lparr>obs_metrics = metrics,
      obs_stallThreshold = (if stallThreshold \<le> 0 then 2 * second else stallThreshold),
      obs_nextID = 0, obs_active = [], obs_oldestID = 0, obs_oldestStarted = 0,
      obs_lastSuccess = 0\<rparr>"

text \<open>The locked part of \<open>begin\<close>: the new call's number, the new state and the metric calls.\<close>

definition observed_begin :: "Time \<Rightarrow> observedLedger \<Rightarrow> uint64 \<times> observedLedger \<times> MetricCall list" where
  "observed_begin started l =
     (let ident = obs_nextID l + 1;
          l1 = l\<lparr>obs_nextID := ident, obs_active := AList.update ident started (obs_active l)\<rparr>;
          l2 = (if Time_IsZero (obs_oldestStarted l1) \<or> started < obs_oldestStarted l1
                then l1\<lparr>obs_oldestID := ident, obs_oldestStarted := started\<rparr> else l1)
      in (ident, l2,
          if obs_metrics l2 then [SetLedgerCallsInFlight (length (obs_active l2))] else []))"

text \<open>One iteration of the loop in \<open>findOldest\<close>, and the whole of it over an iteration order.\<close>

definition findOldest_step :: "uint64 \<times> Time \<Rightarrow> observedLedger \<Rightarrow> observedLedger" where
  "findOldest_step entry l =
     (if Time_IsZero (obs_oldestStarted l) \<or> snd entry < obs_oldestStarted l
      then l\<lparr>obs_oldestID := fst entry, obs_oldestStarted := snd entry\<rparr> else l)"

definition findOldest ::
  "((uint64 \<times> Time) list \<Rightarrow> (uint64 \<times> Time) list) \<Rightarrow> observedLedger \<Rightarrow> observedLedger" where
  "findOldest order l =
     fold findOldest_step (order (obs_active l)) (l\<lparr>obs_oldestID := 0, obs_oldestStarted := 0\<rparr>)"

text \<open>The locked part of the function \<open>begin\<close> returns.\<close>

definition observed_done ::
  "((uint64 \<times> Time) list \<Rightarrow> (uint64 \<times> Time) list) \<Rightarrow> uint64 \<Rightarrow> Time \<Rightarrow> bool \<Rightarrow>
   observedLedger \<Rightarrow> observedLedger \<times> MetricCall list" where
  "observed_done order ident completed failed l =
     (let l1 = l\<lparr>obs_active := AList.delete ident (obs_active l)\<rparr>;
          l2 = (if failed then l1 else l1\<lparr>obs_lastSuccess := completed\<rparr>);
          l3 = (if ident = obs_oldestID l2 then findOldest order l2 else l2)
      in (l3, if obs_metrics l3 then [SetLedgerCallsInFlight (length (obs_active l3))] else []))"

definition observed_Health :: "Time \<Rightarrow> observedLedger \<Rightarrow> LedgerHealth" where
  "observed_Health now l =
     (let oldest = (if \<not> Time_IsZero (obs_oldestStarted l)
                    then Time_Sub now (obs_oldestStarted l) else 0)
      in \<lparr>Health_Ready = oldest < obs_stallThreshold l,
          Health_InFlight = int (length (obs_active l)),
          Health_Oldest = oldest,
          Health_LastSuccess = obs_lastSuccess l\<rparr>)"

text \<open>
  The invariant: call numbers are distinct and were handed out, start times are real clock
  readings, and \<open>oldestID\<close> and \<open>oldestStarted\<close> name a call with the least start time, or are zero
  when nothing is in flight.
\<close>

definition obs_inv :: "observedLedger \<Rightarrow> bool" where
  "obs_inv l \<longleftrightarrow>
     0 < obs_stallThreshold l \<and> distinct (map fst (obs_active l)) \<and>
     (\<forall>(i, t) \<in> set (obs_active l). i \<noteq> 0 \<and> i \<le> obs_nextID l \<and> 0 < t) \<and>
     (if obs_active l = [] then obs_oldestID l = 0 \<and> obs_oldestStarted l = 0
      else (obs_oldestID l, obs_oldestStarted l) \<in> set (obs_active l) \<and>
           (\<forall>(i, t) \<in> set (obs_active l). obs_oldestStarted l \<le> t))"

text \<open>The calls in flight, as steps of the components around the record.\<close>

datatype call_event =
    CallBegins Time
  | CallEnds uint64 Time bool

inductive observed_step ::
  "((uint64 \<times> Time) list \<Rightarrow> (uint64 \<times> Time) list) \<Rightarrow> observedLedger \<Rightarrow> call_event \<Rightarrow>
   observedLedger \<Rightarrow> bool" for order where
  begins: "observed_begin started l = (i, l', ms) \<Longrightarrow> 0 < started \<Longrightarrow> obs_nextID l \<noteq> - 1 \<Longrightarrow>
     observed_step order l (CallBegins started) l'"
| ends: "observed_done order i completed failed l = (l', ms) \<Longrightarrow>
     observed_step order l (CallEnds i completed failed) l'"

inductive_cases observed_beginsE: "observed_step order l (CallBegins started) l'"
inductive_cases observed_endsE: "observed_step order l (CallEnds i completed failed) l'"

inductive observed_steps ::
  "((uint64 \<times> Time) list \<Rightarrow> (uint64 \<times> Time) list) \<Rightarrow> observedLedger \<Rightarrow> call_event list \<Rightarrow>
   observedLedger \<Rightarrow> bool" for order where
  none: "observed_steps order l [] l"
| one_more: "observed_step order l e l' \<Longrightarrow> observed_steps order l' es l'' \<Longrightarrow>
     observed_steps order l (e # es) l''"

text \<open>A map iteration order: some arrangement of exactly the entries.\<close>

definition iteration_order :: "((uint64 \<times> Time) list \<Rightarrow> (uint64 \<times> Time) list) \<Rightarrow> bool" where
  "iteration_order order \<longleftrightarrow> (\<forall>es. mset (order es) = mset es)"

section \<open>Finding the oldest call\<close>

lemma findOldest_step_active [simp]:
  "obs_active (findOldest_step e l) = obs_active l"
  "obs_nextID (findOldest_step e l) = obs_nextID l"
  "obs_stallThreshold (findOldest_step e l) = obs_stallThreshold l"
  "obs_metrics (findOldest_step e l) = obs_metrics l"
  "obs_lastSuccess (findOldest_step e l) = obs_lastSuccess l"
  by (simp_all add: findOldest_step_def)

lemma fold_findOldest_step_frame [simp]:
  "obs_active (fold findOldest_step es l) = obs_active l"
  "obs_nextID (fold findOldest_step es l) = obs_nextID l"
  "obs_stallThreshold (fold findOldest_step es l) = obs_stallThreshold l"
  "obs_metrics (fold findOldest_step es l) = obs_metrics l"
  "obs_lastSuccess (fold findOldest_step es l) = obs_lastSuccess l"
  by (induction es arbitrary: l) simp_all

lemma findOldest_frame [simp]:
  "obs_active (findOldest order l) = obs_active l"
  "obs_nextID (findOldest order l) = obs_nextID l"
  "obs_stallThreshold (findOldest order l) = obs_stallThreshold l"
  "obs_metrics (findOldest order l) = obs_metrics l"
  "obs_lastSuccess (findOldest order l) = obs_lastSuccess l"
  by (simp_all add: findOldest_def)

text \<open>The loop invariant: after some entries, the candidate is the least of them and of the start.\<close>

lemma fold_findOldest_min:
  assumes "0 < obs_oldestStarted l" "\<forall>e \<in> set es. 0 < snd e"
  shows "(obs_oldestID (fold findOldest_step es l), obs_oldestStarted (fold findOldest_step es l))
       \<in> insert (obs_oldestID l, obs_oldestStarted l) (set es) \<and>
     obs_oldestStarted (fold findOldest_step es l) \<le> obs_oldestStarted l \<and>
     (\<forall>e \<in> set es. obs_oldestStarted (fold findOldest_step es l) \<le> snd e)"
  using assms
proof (induction es arbitrary: l)
  case Nil
  then show ?case by simp
next
  case (Cons e es)
  let ?l = "findOldest_step e l"
  have pos: "0 < obs_oldestStarted ?l"
    using Cons.prems by (simp add: findOldest_step_def)
  have le: "obs_oldestStarted ?l \<le> obs_oldestStarted l" "obs_oldestStarted ?l \<le> snd e"
    using Cons.prems by (auto simp: findOldest_step_def Time_IsZero_def)
  have mem: "(obs_oldestID ?l, obs_oldestStarted ?l) \<in> {(obs_oldestID l, obs_oldestStarted l), e}"
    by (simp add: findOldest_step_def)
  show ?case
    using Cons.IH [OF pos] Cons.prems(2) le mem by fastforce
qed

lemma findOldest_least:
  assumes perm: "mset (order (obs_active l)) = mset (obs_active l)"
    and pos: "\<forall>e \<in> set (obs_active l). 0 < snd e" and ne: "obs_active l \<noteq> []"
  shows "(obs_oldestID (findOldest order l), obs_oldestStarted (findOldest order l))
       \<in> set (obs_active l) \<and>
     (\<forall>e \<in> set (obs_active l). obs_oldestStarted (findOldest order l) \<le> snd e)"
proof -
  have st: "set (order (obs_active l)) = set (obs_active l)"
    using perm by (metis set_mset_mset)
  obtain e es where es: "order (obs_active l) = e # es"
    using perm ne by (cases "order (obs_active l)") auto
  let ?l = "findOldest_step e (l\<lparr>obs_oldestID := 0, obs_oldestStarted := 0\<rparr>)"
  have start: "obs_oldestID ?l = fst e" "obs_oldestStarted ?l = snd e"
    by (simp_all add: findOldest_step_def Time_IsZero_def)
  have "findOldest order l = fold findOldest_step es ?l"
    by (simp add: findOldest_def es)
  with fold_findOldest_min [of ?l es] pos start st es show ?thesis
    by (auto simp flip: st)
qed

lemma findOldest_empty:
  assumes perm: "mset (order (obs_active l)) = mset (obs_active l)" and "obs_active l = []"
  shows "obs_oldestID (findOldest order l) = 0 \<and> obs_oldestStarted (findOldest order l) = 0"
  using assms by (simp add: findOldest_def)

section \<open>The invariant\<close>

lemma word_less_Suc: "x \<noteq> - 1 \<Longrightarrow> x < x + (1 :: uint64)"
  by (metis add.commute add_eq_0_iff2 lessI unatSuc word_less_nat_alt)

lemma obs_inv_new: "obs_inv (newObservedLedger threshold m)"
  by (simp add: obs_inv_def newObservedLedger_def second_def)

lemma obs_inv_fresh: "obs_inv l \<Longrightarrow> obs_nextID l \<noteq> - 1 \<Longrightarrow>
    obs_nextID l + 1 \<notin> fst ` set (obs_active l)"
  using word_less_Suc [of "obs_nextID l"] by (fastforce simp: obs_inv_def)

lemma update_fresh: "k \<notin> fst ` set al \<Longrightarrow> AList.update k v al = al @ [(k, v)]"
  by (induction al) auto

lemma observed_begin_inv:
  assumes inv: "obs_inv l" and b: "observed_begin started l = (i, l', ms)"
    and started: "0 < started" and next_id: "obs_nextID l \<noteq> - 1"
  shows "obs_inv l' \<and> i \<notin> fst ` set (obs_active l) \<and>
    obs_active l' = obs_active l @ [(i, started)]"
proof -
  note fresh = obs_inv_fresh [OF inv next_id] and less = word_less_Suc [OF next_id]
  have nz: "obs_nextID l + 1 \<noteq> 0"
    using next_id by (metis add_eq_0_iff2)
  have le: "i \<le> obs_nextID l \<Longrightarrow> i \<le> obs_nextID l + 1" for i
    using less by (meson order.trans less_imp_le)
  have act: "obs_active l' = obs_active l @ [(i, started)]" "i = obs_nextID l + 1"
    using b update_fresh [OF fresh] by (auto simp: observed_begin_def Let_def split: if_splits)
  have rest: "obs_nextID l' = i" "obs_stallThreshold l' = obs_stallThreshold l"
      "(obs_oldestID l', obs_oldestStarted l') =
         (if obs_oldestStarted l = 0 \<or> started < obs_oldestStarted l
          then (i, started) else (obs_oldestID l, obs_oldestStarted l))"
    using b by (auto simp: observed_begin_def Let_def Time_IsZero_def split: if_splits)
  have old: "obs_oldestStarted l = 0 \<longleftrightarrow> obs_active l = []"
    using inv by (auto simp: obs_inv_def split: if_splits)
  have entries: "0 < obs_stallThreshold l'" "distinct (map fst (obs_active l'))"
      "\<forall>(j, t) \<in> set (obs_active l'). j \<noteq> 0 \<and> j \<le> obs_nextID l' \<and> 0 < t"
    using inv fresh le nz started act rest(1,2) by (auto simp: obs_inv_def)
  have "(obs_oldestID l', obs_oldestStarted l') \<in> set (obs_active l')"
      "\<forall>(j, t) \<in> set (obs_active l'). obs_oldestStarted l' \<le> t"
    using inv rest(3) old by (auto simp: act(1) obs_inv_def split: if_splits)
  with entries act(1) have "obs_inv l'"
    by (simp add: obs_inv_def)
  with act fresh show ?thesis
    by simp
qed

lemma keys_delete_active: "fst ` set (AList.delete k al) = fst ` set al - {k}"
  using arg_cong [OF delete_keys [of k al], of set] by simp

lemma set_delete_active: "set (AList.delete k al) = {e \<in> set al. fst e \<noteq> k}"
  by (auto simp: AList.delete_eq)

lemma observed_done_inv:
  assumes order: "iteration_order order" and inv: "obs_inv l"
    and d: "observed_done order i completed failed l = (l', ms)"
  shows "obs_inv l' \<and> obs_active l' = AList.delete i (obs_active l)"
proof -
  define l2 where "l2 = (if failed then l\<lparr>obs_active := AList.delete i (obs_active l)\<rparr>
    else l\<lparr>obs_active := AList.delete i (obs_active l), obs_lastSuccess := completed\<rparr>)"
  have l2: "obs_active l2 = AList.delete i (obs_active l)" "obs_nextID l2 = obs_nextID l"
      "obs_stallThreshold l2 = obs_stallThreshold l" "obs_oldestID l2 = obs_oldestID l"
      "obs_oldestStarted l2 = obs_oldestStarted l"
    by (simp_all add: l2_def)
  have l': "l' = (if i = obs_oldestID l then findOldest order l2 else l2)"
    using d by (auto simp: observed_done_def Let_def l2_def split: if_splits)
  have entries: "0 < obs_stallThreshold l" "distinct (map fst (AList.delete i (obs_active l)))"
      "\<forall>(j, t) \<in> set (AList.delete i (obs_active l)). j \<noteq> 0 \<and> j \<le> obs_nextID l \<and> 0 < t"
    using inv by (auto simp: obs_inv_def delete_keys distinct_removeAll set_delete_active)
  show ?thesis
  proof (cases "i = obs_oldestID l")
    case True
    have perm: "mset (order (obs_active l2)) = mset (obs_active l2)"
      using order by (simp add: iteration_order_def)
    have pos: "\<forall>e \<in> set (obs_active l2). 0 < snd e"
      using entries l2 by auto
    show ?thesis
      using findOldest_least [of order l2, OF perm pos] findOldest_empty [of order l2, OF perm]
        entries l2 l' True
      by (fastforce simp: obs_inv_def split: if_splits)
  next
    case False
    have "obs_active l \<noteq> [] \<Longrightarrow>
        (obs_oldestID l, obs_oldestStarted l) \<in> set (AList.delete i (obs_active l)) \<and>
        AList.delete i (obs_active l) \<noteq> []"
      using inv False set_delete_active [of i "obs_active l"] by (force simp: obs_inv_def)
    then show ?thesis
      using inv False entries l2 l'
      by (cases "obs_active l = []") (auto simp: obs_inv_def set_delete_active)
  qed
qed

lemma observed_step_inv:
  "observed_step order l e l' \<Longrightarrow> iteration_order order \<Longrightarrow> obs_inv l \<Longrightarrow> obs_inv l'"
  by (induction rule: observed_step.induct) (auto dest: observed_begin_inv observed_done_inv)

lemma observed_steps_inv:
  "observed_steps order l es l' \<Longrightarrow> iteration_order order \<Longrightarrow> obs_inv l \<Longrightarrow> obs_inv l'"
  by (induction rule: observed_steps.induct) (auto intro: observed_step_inv)

section \<open>Properties\<close>

lemma Health_oldest:
  assumes "obs_inv l" "obs_active l \<noteq> []"
  shows "Health_Oldest (observed_Health now l) = Time_Sub now (obs_oldestStarted l)"
    and "Health_Ready (observed_Health now l) \<longleftrightarrow>
      Time_Sub now (obs_oldestStarted l) < obs_stallThreshold l"
proof -
  have "0 < obs_oldestStarted l"
    using assms by (auto simp: obs_inv_def split: if_splits)
  then show "Health_Oldest (observed_Health now l) = Time_Sub now (obs_oldestStarted l)"
    "Health_Ready (observed_Health now l) \<longleftrightarrow>
      Time_Sub now (obs_oldestStarted l) < obs_stallThreshold l"
    by (simp_all add: observed_Health_def Let_def Time_IsZero_def)
qed

lemma Time_Sub_antimono: "u \<le> v \<Longrightarrow> Time_Sub t v \<le> Time_Sub t u"
  by (simp add: Time_Sub_def)

text \<open>
  What a history of events says on its own: the calls are numbered in the order in which they began,
  and a call is in flight when no later event ends the call with its number.
\<close>

fun is_begin :: "call_event \<Rightarrow> bool" where
  "is_begin (CallBegins started) = True"
| "is_begin (CallEnds i completed failed) = False"

definition begun :: "call_event list \<Rightarrow> nat" where
  "begun es = length (filter is_begin es)"

definition calls_in_flight :: "call_event list \<Rightarrow> (nat \<times> Time) set" where
  "calls_in_flight es =
     {(n, started). \<exists>before after. es = before @ CallBegins started # after \<and> n = Suc (begun before) \<and>
        (\<forall>completed failed. CallEnds (of_nat n) completed failed \<notin> set after)}"

text \<open>The time at which the last successful call ended, or the zero time.\<close>

fun succeeds :: "call_event \<Rightarrow> bool" where
  "succeeds (CallBegins started) = False"
| "succeeds (CallEnds i completed failed) = (\<not> failed)"

fun event_time :: "call_event \<Rightarrow> Time" where
  "event_time (CallBegins started) = started"
| "event_time (CallEnds i completed failed) = completed"

definition last_success :: "call_event list \<Rightarrow> Time" where
  "last_success es = (case rev (filter succeeds es) of [] \<Rightarrow> 0 | e # _ \<Rightarrow> event_time e)"

lemma begun_simps [simp]:
  "begun [] = 0" "begun (es @ [CallBegins started]) = Suc (begun es)"
  "begun (es @ [CallEnds i completed failed]) = begun es"
  by (simp_all add: begun_def)

lemma last_success_simps [simp]:
  "last_success [] = 0" "last_success (es @ [CallBegins started]) = last_success es"
  "last_success (es @ [CallEnds i completed failed]) = (if failed then last_success es else completed)"
  by (simp_all add: last_success_def)

lemma calls_in_flight_nil [simp]: "calls_in_flight [] = {}"
  by (simp add: calls_in_flight_def)

lemma calls_in_flight_snoc:
  "(n, t) \<in> calls_in_flight (es @ [e]) \<longleftrightarrow> e = CallBegins t \<and> n = Suc (begun es) \<or>
     (n, t) \<in> calls_in_flight es \<and> (\<forall>completed failed. e \<noteq> CallEnds (of_nat n) completed failed)"
  (is "?new \<longleftrightarrow> ?last \<or> ?old")
proof
  assume ?new
  then obtain before after where new: "es @ [e] = before @ CallBegins t # after" "n = Suc (begun before)"
      "\<And>completed failed. CallEnds (of_nat n) completed failed \<notin> set after"
    unfolding calls_in_flight_def by blast
  show "?last \<or> ?old"
  proof (cases after rule: rev_cases)
    case Nil
    with new show ?thesis by simp
  next
    case (snoc after' e')
    with new(1) have "es = before @ CallBegins t # after'" "e' = e" by auto
    moreover have "CallEnds (of_nat n) completed failed \<notin> set after'"
        "e \<noteq> CallEnds (of_nat n) completed failed" for completed failed
      using new(3) [of completed failed] snoc \<open>e' = e\<close> by auto
    ultimately show ?thesis
      using new(2) unfolding calls_in_flight_def by blast
  qed
next
  assume "?last \<or> ?old"
  then show ?new
  proof
    assume ?last
    then have "es @ [e] = es @ CallBegins t # []" "n = Suc (begun es)" by auto
    then show ?new
      unfolding calls_in_flight_def by fastforce
  next
    assume old: ?old
    then obtain before after where "es = before @ CallBegins t # after" "n = Suc (begun before)"
        "\<And>completed failed. CallEnds (of_nat n) completed failed \<notin> set after"
      unfolding calls_in_flight_def by blast
    moreover have "es @ [e] = before @ CallBegins t # (after @ [e])"
      using calculation by simp
    moreover have "CallEnds (of_nat n) completed failed \<notin> set (after @ [e])" for completed failed
      using calculation(3) [of completed failed] old by auto
    ultimately show ?new
      unfolding calls_in_flight_def by blast
  qed
qed

lemma calls_in_flight_begins:
  "calls_in_flight (es @ [CallBegins started]) = insert (Suc (begun es), started) (calls_in_flight es)"
  by (auto simp: calls_in_flight_snoc)

lemma calls_in_flight_ends:
  "calls_in_flight (es @ [CallEnds i completed failed]) = {(n, t) \<in> calls_in_flight es. of_nat n \<noteq> i}"
  by (auto simp: calls_in_flight_snoc)

lemma calls_in_flight_bound: "(n, t) \<in> calls_in_flight es \<Longrightarrow> n \<le> begun es"
  by (auto simp: calls_in_flight_def begun_def)

lemma observed_steps_snoc:
  "observed_steps order l (es @ [e]) l'' \<longleftrightarrow>
     (\<exists>l'. observed_steps order l es l' \<and> observed_step order l' e l'')"
proof (induction es arbitrary: l)
  case Nil
  then show ?case
    by (auto intro: observed_steps.intros elim: observed_steps.cases)
next
  case (Cons x es)
  have cons: "observed_steps order l (x # fs) m \<longleftrightarrow>
      (\<exists>l'. observed_step order l x l' \<and> observed_steps order l' fs m)" for fs m
    by (auto intro: observed_steps.intros elim: observed_steps.cases)
  show ?case
    unfolding append_Cons cons Cons.IH by blast
qed

text \<open>The record follows the history: numbers, entries, threshold and last success.\<close>

definition follows :: "call_event list \<Rightarrow> observedLedger \<Rightarrow> bool" where
  "follows es l \<longleftrightarrow> obs_inv l \<and> unat (obs_nextID l) = begun es \<and>
     set (obs_active l) = (\<lambda>(n, t). (of_nat n, t)) ` calls_in_flight es \<and>
     obs_lastSuccess l = last_success es"

lemma follows_begins:
  assumes f: "follows es l" and b: "observed_begin started l = (i, l', ms)"
    and started: "0 < started" "obs_nextID l \<noteq> - 1"
  shows "follows (es @ [CallBegins started]) l'"
proof -
  have inv: "obs_inv l' \<and> i \<notin> fst ` set (obs_active l) \<and> obs_active l' = obs_active l @ [(i, started)]"
    using f b started by (intro observed_begin_inv) (auto simp: follows_def)
  have l': "i = obs_nextID l + 1" "obs_nextID l' = i" "obs_lastSuccess l' = obs_lastSuccess l"
    using b by (auto simp: observed_begin_def Let_def split: if_splits)
  have nz: "1 + obs_nextID l \<noteq> 0"
    using started(2) by (metis add.commute add_eq_0_iff2)
  have n: "unat i = Suc (begun es)"
    using f l'(1) unatSuc [OF nz] by (simp add: follows_def add.commute)
  have "of_nat (Suc (begun es)) = i"
    unfolding n [symmetric] of_nat_unat by (rule ucast_id)
  with f inv l' n show ?thesis
    by (auto simp: follows_def calls_in_flight_begins)
qed

lemma follows_ends:
  assumes "follows es l" "observed_done order i completed failed l = (l', ms)" "iteration_order order"
  shows "follows (es @ [CallEnds i completed failed]) l'"
proof -
  have inv: "obs_inv l' \<and> obs_active l' = AList.delete i (obs_active l)"
    using assms by (intro observed_done_inv) (auto simp: follows_def)
  have "obs_nextID l' = obs_nextID l"
      "obs_lastSuccess l' = (if failed then obs_lastSuccess l else completed)"
    using assms(2) by (auto simp: observed_done_def Let_def split: if_splits)
  with assms(1) inv show ?thesis
    by (force simp: follows_def calls_in_flight_ends set_delete_active)
qed

lemma observed_steps_follow:
  assumes "iteration_order order" "observed_steps order (newObservedLedger threshold m) es l"
  shows "follows es l \<and> obs_stallThreshold l = (if threshold \<le> 0 then 2 * second else threshold)"
  using assms(2)
proof (induction es arbitrary: l rule: rev_induct)
  case Nil
  then have "l = newObservedLedger threshold m"
    by (auto elim: observed_steps.cases)
  then show ?case
    using obs_inv_new [of threshold m] by (simp add: follows_def) (simp add: newObservedLedger_def)
next
  case (snoc e es)
  then obtain l' where l': "observed_steps order (newObservedLedger threshold m) es l'" "observed_step order l' e l"
    by (auto simp: observed_steps_snoc)
  have threshold: "obs_stallThreshold l = obs_stallThreshold l'"
    using l'(2) by cases (auto simp: observed_begin_def observed_done_def Let_def split: if_splits)
  from l'(2) have "follows (es @ [e]) l"
  proof cases
    case (begins started i ms)
    then show ?thesis
      using snoc.IH [OF l'(1)] follows_begins by blast
  next
    case (ends i completed failed ms)
    then show ?thesis
      using snoc.IH [OF l'(1)] follows_ends assms(1) by blast
  qed
  with threshold snoc.IH [OF l'(1)] show ?case
    by simp
qed

text \<open>The number of entries is the number of calls, since no number is handed out twice.\<close>

lemma follows_number:
  assumes "follows es l"
  shows "length (obs_active l) = card (calls_in_flight es)"
proof -
  have small: "n < 2 ^ 64" if "(n, t) \<in> calls_in_flight es" for n t
    using calls_in_flight_bound [OF that] assms unsigned_less [of "obs_nextID l", where 'a = nat]
    by (simp add: follows_def)
  have "n = n'" if "(n, t) \<in> calls_in_flight es" "(n', t') \<in> calls_in_flight es"
      "(of_nat n :: uint64) = of_nat n'" for n t n' t'
    using arg_cong [OF that(3), of unat] small [OF that(1)] small [OF that(2)]
    by (simp add: unat_of_nat)
  then have "inj_on (\<lambda>(n, t). (of_nat n :: uint64, t)) (calls_in_flight es)"
    by (fastforce simp: inj_on_def)
  moreover have "distinct (obs_active l)"
    using assms by (auto simp: follows_def obs_inv_def distinct_map)
  ultimately show ?thesis
    using assms card_image distinct_card [of "obs_active l"] by (fastforce simp: follows_def)
qed

text \<open>
  C26.  Health is what happened.  After any history of ledger calls that begin and end, in any order
  and with any iteration order of Go's maps, the health record says exactly this: the number in flight
  is the number of calls of the history that began and have not ended, the oldest age is the time since
  the earliest of them began, the service is ready exactly when each of them has been running for less
  than the configured threshold (two seconds when none is configured), and the last success is the end
  of the last call that did not fail.
\<close>

theorem readiness_exact:
  assumes order: "iteration_order order"
    and run: "observed_steps order (newObservedLedger threshold m) es l"
  shows "Health_InFlight (observed_Health now l) = int (card (calls_in_flight es)) \<and>
    (Health_Ready (observed_Health now l) \<longleftrightarrow>
      (\<forall>(n, started) \<in> calls_in_flight es.
         Time_Sub now started < (if threshold \<le> 0 then 2 * second else threshold))) \<and>
    Health_Oldest (observed_Health now l) =
      (if calls_in_flight es = {} then 0 else Time_Sub now (Min (snd ` calls_in_flight es))) \<and>
    Health_LastSuccess (observed_Health now l) = last_success es"
proof -
  have f: "follows es l" and threshold: "obs_stallThreshold l = (if threshold \<le> 0 then 2 * second else threshold)"
    using observed_steps_follow [OF order run] by auto
  then have inv: "obs_inv l" and entries: "set (obs_active l) = (\<lambda>(n, t). (of_nat n, t)) ` calls_in_flight es"
    and success: "obs_lastSuccess l = last_success es"
    by (auto simp: follows_def)
  have times: "snd ` calls_in_flight es = snd ` set (obs_active l)"
    unfolding entries by force
  have flight: "Health_InFlight (observed_Health now l) = int (card (calls_in_flight es))"
      "Health_LastSuccess (observed_Health now l) = last_success es"
    using follows_number [OF f] success by (simp_all add: observed_Health_def Let_def)
  show ?thesis
  proof (cases "obs_active l = []")
    case True
    then have "calls_in_flight es = {}"
      using entries by auto
    with True inv flight show ?thesis
      by (auto simp: observed_Health_def Let_def Time_IsZero_def obs_inv_def threshold)
  next
    case False
    then have min: "obs_oldestStarted l \<in> snd ` set (obs_active l)"
        "\<forall>t \<in> snd ` set (obs_active l). obs_oldestStarted l \<le> t"
      using inv by (auto simp: obs_inv_def rev_image_eqI)
    then have oldest: "Min (snd ` calls_in_flight es) = obs_oldestStarted l"
      unfolding times by (intro Min_eqI) auto
    have "(\<forall>t \<in> snd ` set (obs_active l). Time_Sub now t < obs_stallThreshold l) \<longleftrightarrow>
        Time_Sub now (obs_oldestStarted l) < obs_stallThreshold l"
      using min by (metis Time_Sub_antimono le_less_trans)
    then have "(\<forall>(n, t) \<in> calls_in_flight es. Time_Sub now t < obs_stallThreshold l) \<longleftrightarrow>
        Time_Sub now (obs_oldestStarted l) < obs_stallThreshold l"
      unfolding times [symmetric] by fastforce
    moreover have "calls_in_flight es \<noteq> {}"
      using False entries by auto
    ultimately show ?thesis
      using flight oldest by (simp add: Health_oldest [OF inv False] threshold)
  qed
qed

text \<open>A run with two overlapping calls, of which the older one ends: the younger one is 10 ns old.\<close>

theorem readiness_exact_witness:
  "\<exists>l. observed_steps (\<lambda>es. es) (newObservedLedger 15 True)
        [CallBegins 100, CallBegins 110, CallEnds 1 120 False] l \<and>
     Health_Ready (observed_Health 120 l) \<and> Health_InFlight (observed_Health 120 l) = 1 \<and>
     Health_LastSuccess (observed_Health 120 l) = 120"
proof -
  let ?es = "[CallBegins 100, CallBegins 110, CallEnds 1 120 False]"
  have order: "iteration_order (\<lambda>es. es)"
    by (simp add: iteration_order_def)
  let ?l = "\<lambda>next act old since success. \<lparr>obs_metrics = True, obs_stallThreshold = 15,
    obs_nextID = next, obs_active = act, obs_oldestID = old, obs_oldestStarted = since,
    obs_lastSuccess = success\<rparr>"
  let ?l1 = "?l 1 [(1, 100)] 1 100 0" and ?l2 = "?l 2 [(1, 100), (2, 110)] 1 100 0"
    and ?l3 = "?l 2 [(2, 110)] 2 110 120"
  have "observed_begin 100 (newObservedLedger 15 True) = (1, ?l1, [SetLedgerCallsInFlight 1])"
    by (simp add: observed_begin_def newObservedLedger_def Time_IsZero_def)
  then have 1: "observed_step (\<lambda>es. es) (newObservedLedger 15 True) (CallBegins 100) ?l1"
    by (rule observed_step.begins) (simp_all add: newObservedLedger_def)
  have "observed_begin 110 ?l1 = (2, ?l2, [SetLedgerCallsInFlight 2])"
    by (simp add: observed_begin_def Time_IsZero_def)
  then have 2: "observed_step (\<lambda>es. es) ?l1 (CallBegins 110) ?l2"
    by (rule observed_step.begins) simp_all
  have "observed_done (\<lambda>es. es) 1 120 False ?l2 = (?l3, [SetLedgerCallsInFlight 1])"
    by (simp add: observed_done_def findOldest_def findOldest_step_def Time_IsZero_def)
  then have 3: "observed_step (\<lambda>es. es) ?l2 (CallEnds 1 120 False) ?l3"
    by (rule observed_step.ends)
  have run: "observed_steps (\<lambda>es. es) (newObservedLedger 15 True)
      [CallBegins 100, CallBegins 110, CallEnds 1 120 False] ?l3"
    by (rule observed_steps.intros 1 2 3)+
  have "calls_in_flight (([] @ [CallBegins 100]) @ [CallBegins 110]) = {(1, 100), (2, 110)}"
    unfolding calls_in_flight_begins by (auto simp: begun_def)
  then have "calls_in_flight ?es = {(2, 110)}"
    using calls_in_flight_ends [of "[CallBegins 100, CallBegins 110]" 1 120 False] by auto
  moreover have "last_success ?es = 120"
    by (simp add: last_success_def)
  ultimately show ?thesis
    using run readiness_exact [OF order run, of 120]
    by (intro exI [of _ ?l3]) (simp add: Time_Sub_def)
qed

end
