(* ===== verification/Effects.thy ===== *)
theory Effects
  imports Metadata_Cache Ledger_Health
begin

text \<open>
  The effects of the service.  A method of the service is a value of type \<^verbatim>\<open>'a prog\<close>: a tree whose
  nodes are the atomic actions the code performs, a clock reading, a cache access, one call of
  the ledger client, one critical section of the health record, one metric or log call, and whose
  branches are the possible answers.  Two semantics run the same trees: \<open>run\<close> executes one
  program alone, and \<open>sys_step\<close> interleaves any number of programs action by action, as
  the goroutines of the HTTP server do.
\<close>

section \<open>Programs\<close>

datatype ContextError = Canceled | DeadlineExceeded

fun ctx_Err :: "ContextError \<Rightarrow> Error" where
  "ctx_Err Canceled = ContextCanceled"
| "ctx_Err DeadlineExceeded = ContextDeadlineExceeded"

text \<open>One call of \<open>logger.Info\<close> or \<open>logger.Error\<close>: the message and its key-value attributes.\<close>

datatype LogValue = LogString string | LogInt int | LogError Error

record LogEntry =
  log_message :: string
  log_fields :: "(string \<times> LogValue) list"

datatype 'a prog =
    Return 'a
  | Panic
  | Now "Time \<Rightarrow> 'a prog"
  | AwaitRisk Duration "ContextError option \<Rightarrow> 'a prog"
  | CacheLoad uint128 "accountMetadata option \<Rightarrow> 'a prog"
  | CacheStore uint128 accountMetadata "bool \<Rightarrow> 'a prog"
  | BeginCall Time "uint64 \<Rightarrow> 'a prog"
  | EndCall uint64 Time bool "'a prog"
  | CallCreateAccount Account "Error + CreateAccountResult \<Rightarrow> 'a prog"
  | CallCreateTransfer Transfer "Error + CreateTransferResult \<Rightarrow> 'a prog"
  | CallLookupAccount uint128 "Error + Account \<times> bool \<Rightarrow> 'a prog"
  | CallLookupTransfer uint128 "Error + Transfer \<times> bool \<Rightarrow> 'a prog"
  | ReadHealth "observedLedger \<Rightarrow> 'a prog"
  | AcquireSlot "bool \<Rightarrow> 'a prog"
  | ReleaseSlot "'a prog"
  | EmitMetric MetricCall "'a prog"
  | EmitLog LogEntry "'a prog"

text \<open>Sequencing; a panic skips what follows.\<close>

primrec seq :: "'a prog \<Rightarrow> ('a \<Rightarrow> 'b prog) \<Rightarrow> 'b prog" where
  "seq (Return x) f = f x"
| "seq Panic f = Panic"
| "seq (Now k) f = Now (\<lambda>t. seq (k t) f)"
| "seq (AwaitRisk d k) f = AwaitRisk d (\<lambda>c. seq (k c) f)"
| "seq (CacheLoad i k) f = CacheLoad i (\<lambda>m. seq (k m) f)"
| "seq (CacheStore i m k) f = CacheStore i m (\<lambda>b. seq (k b) f)"
| "seq (BeginCall t k) f = BeginCall t (\<lambda>i. seq (k i) f)"
| "seq (EndCall i t b k) f = EndCall i t b (seq k f)"
| "seq (CallCreateAccount a k) f = CallCreateAccount a (\<lambda>r. seq (k r) f)"
| "seq (CallCreateTransfer t k) f = CallCreateTransfer t (\<lambda>r. seq (k r) f)"
| "seq (CallLookupAccount i k) f = CallLookupAccount i (\<lambda>r. seq (k r) f)"
| "seq (CallLookupTransfer i k) f = CallLookupTransfer i (\<lambda>r. seq (k r) f)"
| "seq (ReadHealth k) f = ReadHealth (\<lambda>h. seq (k h) f)"
| "seq (AcquireSlot k) f = AcquireSlot (\<lambda>b. seq (k b) f)"
| "seq (ReleaseSlot k) f = ReleaseSlot (seq k f)"
| "seq (EmitMetric m k) f = EmitMetric m (seq k f)"
| "seq (EmitLog e k) f = EmitLog e (seq k f)"

text \<open>
  The two idioms of Go's error handling: \<open>attempt p f\<close> is \<open>x, err := p; if err != nil { return
  err }; f(x)\<close> for an effectful \<open>p\<close>, and \<open>check r f\<close> the same for a pure result.
\<close>

definition fail :: "Error \<Rightarrow> (Error + 'a) prog" where
  "fail e = Return (Inl e)"

definition attempt :: "(Error + 'b) prog \<Rightarrow> ('b \<Rightarrow> (Error + 'a) prog) \<Rightarrow> (Error + 'a) prog" where
  "attempt p f = seq p (\<lambda>r. case r of Inl e \<Rightarrow> fail e | Inr x \<Rightarrow> f x)"

definition check :: "Error + 'b \<Rightarrow> ('b \<Rightarrow> (Error + 'a) prog) \<Rightarrow> (Error + 'a) prog" where
  "check r f = (case r of Inl e \<Rightarrow> fail e | Inr x \<Rightarrow> f x)"

text \<open>
  \<open>defer\<close> and \<open>recover\<close>: \<open>upon_exit p f\<close> goes on with \<open>f\<close> after \<open>p\<close> returned (\<^const>\<open>Some\<close>) or
  panicked (\<^const>\<open>None\<close>).
\<close>

primrec upon_exit :: "'a prog \<Rightarrow> ('a option \<Rightarrow> 'b prog) \<Rightarrow> 'b prog" where
  "upon_exit (Return x) f = f (Some x)"
| "upon_exit Panic f = f None"
| "upon_exit (Now k) f = Now (\<lambda>t. upon_exit (k t) f)"
| "upon_exit (AwaitRisk d k) f = AwaitRisk d (\<lambda>c. upon_exit (k c) f)"
| "upon_exit (CacheLoad i k) f = CacheLoad i (\<lambda>m. upon_exit (k m) f)"
| "upon_exit (CacheStore i m k) f = CacheStore i m (\<lambda>b. upon_exit (k b) f)"
| "upon_exit (BeginCall t k) f = BeginCall t (\<lambda>i. upon_exit (k i) f)"
| "upon_exit (EndCall i t b k) f = EndCall i t b (upon_exit k f)"
| "upon_exit (CallCreateAccount a k) f = CallCreateAccount a (\<lambda>r. upon_exit (k r) f)"
| "upon_exit (CallCreateTransfer t k) f = CallCreateTransfer t (\<lambda>r. upon_exit (k r) f)"
| "upon_exit (CallLookupAccount i k) f = CallLookupAccount i (\<lambda>r. upon_exit (k r) f)"
| "upon_exit (CallLookupTransfer i k) f = CallLookupTransfer i (\<lambda>r. upon_exit (k r) f)"
| "upon_exit (ReadHealth k) f = ReadHealth (\<lambda>h. upon_exit (k h) f)"
| "upon_exit (AcquireSlot k) f = AcquireSlot (\<lambda>b. upon_exit (k b) f)"
| "upon_exit (ReleaseSlot k) f = ReleaseSlot (upon_exit k f)"
| "upon_exit (EmitMetric m k) f = EmitMetric m (upon_exit k f)"
| "upon_exit (EmitLog e k) f = EmitLog e (upon_exit k f)"

section \<open>Running a program\<close>

text \<open>
  What the environment decides: the clock, whether a request's context ends before the risk
  timer, the iteration order of Go maps, and the number of admission slots.  The readings are
  taken at successive ticks.
\<close>

record environment =
  env_now :: "nat \<Rightarrow> Time"
  env_ctx :: "nat \<Rightarrow> ContextError option"
  env_order :: "(uint64 \<times> Time) list \<Rightarrow> (uint64 \<times> Time) list"
  env_slots :: nat

text \<open>The state shared by all requests, over any ledger state \<^verbatim>\<open>'l\<close>.\<close>

record 'l world =
  w_ledger :: 'l
  w_cache :: metadataCache
  w_observed :: observedLedger
  w_slots :: nat
  w_metrics :: "MetricCall list"
  w_log :: "LogEntry list"
  w_tick :: nat

definition w_advance :: "'l world \<Rightarrow> 'l world" where
  "w_advance w = w\<lparr>w_tick := w_tick w + 1\<rparr>"

text \<open>One action: the remaining program and the new state.\<close>

primrec act :: "'l Ledger \<Rightarrow> environment \<Rightarrow> 'a prog \<Rightarrow> 'l world \<Rightarrow> 'a prog \<times> 'l world" where
  "act ops env (Return x) w = (Return x, w)"
| "act ops env Panic w = (Panic, w)"
| "act ops env (Now k) w = (k (env_now env (w_tick w)), w_advance w)"
| "act ops env (AwaitRisk d k) w = (k (env_ctx env (w_tick w)), w_advance w)"
| "act ops env (CacheLoad i k) w = (k (cache_Load i (w_cache w)), w)"
| "act ops env (CacheStore i m k) w =
     (case cache_Store i m (w_cache w) of
        None \<Rightarrow> (k False, w)
      | Some c \<Rightarrow> (k True, w\<lparr>w_cache := c\<rparr>))"
| "act ops env (BeginCall t k) w =
     (case observed_begin t (w_observed w) of
        (i, l, ms) \<Rightarrow> (k i, w\<lparr>w_observed := l, w_metrics := w_metrics w @ ms\<rparr>))"
| "act ops env (EndCall i t b k) w =
     (case observed_done (env_order env) i t b (w_observed w) of
        (l, ms) \<Rightarrow> (k, w\<lparr>w_observed := l, w_metrics := w_metrics w @ ms\<rparr>))"
| "act ops env (CallCreateAccount a k) w =
     (case Ledger_CreateAccount ops a (w_ledger w) of (r, l) \<Rightarrow> (k r, w\<lparr>w_ledger := l\<rparr>))"
| "act ops env (CallCreateTransfer t k) w =
     (case Ledger_CreateTransfer ops t (w_ledger w) of (r, l) \<Rightarrow> (k r, w\<lparr>w_ledger := l\<rparr>))"
| "act ops env (CallLookupAccount i k) w =
     (case Ledger_LookupAccount ops i (w_ledger w) of (r, l) \<Rightarrow> (k r, w\<lparr>w_ledger := l\<rparr>))"
| "act ops env (CallLookupTransfer i k) w =
     (case Ledger_LookupTransfer ops i (w_ledger w) of (r, l) \<Rightarrow> (k r, w\<lparr>w_ledger := l\<rparr>))"
| "act ops env (ReadHealth k) w = (k (w_observed w), w)"
| "act ops env (AcquireSlot k) w =
     (if w_slots w < env_slots env then (k True, w\<lparr>w_slots := w_slots w + 1\<rparr>) else (k False, w))"
| "act ops env (ReleaseSlot k) w = (k, w\<lparr>w_slots := w_slots w - 1\<rparr>)"
| "act ops env (EmitMetric m k) w = (k, w\<lparr>w_metrics := w_metrics w @ [m]\<rparr>)"
| "act ops env (EmitLog e k) w = (k, w\<lparr>w_log := w_log w @ [e]\<rparr>)"

text \<open>A program run alone to its end: its value, or \<^const>\<open>None\<close> for a panic, and the new state.\<close>

primrec run :: "'l Ledger \<Rightarrow> environment \<Rightarrow> 'a prog \<Rightarrow> 'l world \<Rightarrow> 'a option \<times> 'l world" where
  "run ops env (Return x) w = (Some x, w)"
| "run ops env Panic w = (None, w)"
| "run ops env (Now k) w = run ops env (k (env_now env (w_tick w))) (w_advance w)"
| "run ops env (AwaitRisk d k) w = run ops env (k (env_ctx env (w_tick w))) (w_advance w)"
| "run ops env (CacheLoad i k) w = run ops env (k (cache_Load i (w_cache w))) w"
| "run ops env (CacheStore i m k) w =
     (case cache_Store i m (w_cache w) of
        None \<Rightarrow> run ops env (k False) w
      | Some c \<Rightarrow> run ops env (k True) (w\<lparr>w_cache := c\<rparr>))"
| "run ops env (BeginCall t k) w =
     (case observed_begin t (w_observed w) of
        (i, l, ms) \<Rightarrow> run ops env (k i) (w\<lparr>w_observed := l, w_metrics := w_metrics w @ ms\<rparr>))"
| "run ops env (EndCall i t b k) w =
     (case observed_done (env_order env) i t b (w_observed w) of
        (l, ms) \<Rightarrow> run ops env k (w\<lparr>w_observed := l, w_metrics := w_metrics w @ ms\<rparr>))"
| "run ops env (CallCreateAccount a k) w =
     (case Ledger_CreateAccount ops a (w_ledger w) of
        (r, l) \<Rightarrow> run ops env (k r) (w\<lparr>w_ledger := l\<rparr>))"
| "run ops env (CallCreateTransfer t k) w =
     (case Ledger_CreateTransfer ops t (w_ledger w) of
        (r, l) \<Rightarrow> run ops env (k r) (w\<lparr>w_ledger := l\<rparr>))"
| "run ops env (CallLookupAccount i k) w =
     (case Ledger_LookupAccount ops i (w_ledger w) of
        (r, l) \<Rightarrow> run ops env (k r) (w\<lparr>w_ledger := l\<rparr>))"
| "run ops env (CallLookupTransfer i k) w =
     (case Ledger_LookupTransfer ops i (w_ledger w) of
        (r, l) \<Rightarrow> run ops env (k r) (w\<lparr>w_ledger := l\<rparr>))"
| "run ops env (ReadHealth k) w = run ops env (k (w_observed w)) w"
| "run ops env (AcquireSlot k) w =
     (if w_slots w < env_slots env then run ops env (k True) (w\<lparr>w_slots := w_slots w + 1\<rparr>)
      else run ops env (k False) w)"
| "run ops env (ReleaseSlot k) w = run ops env k (w\<lparr>w_slots := w_slots w - 1\<rparr>)"
| "run ops env (EmitMetric m k) w = run ops env k (w\<lparr>w_metrics := w_metrics w @ [m]\<rparr>)"
| "run ops env (EmitLog e k) w = run ops env k (w\<lparr>w_log := w_log w @ [e]\<rparr>)"

section \<open>Lemmas\<close>

text \<open>Induction along the actions a program performs.\<close>

lemma prog_act_induct [case_names Return Panic Act]:
  assumes ret: "\<And>x w. P (Return x) w" and pan: "\<And>w. P Panic w"
    and step: "\<And>p w p' w'. act ops env p w = (p', w') \<Longrightarrow> \<forall>x. p \<noteq> Return x \<Longrightarrow> p \<noteq> Panic \<Longrightarrow>
      P p' w' \<Longrightarrow> P p w"
  shows "P p w"
proof -
  have step': "P p w" if "P (fst (act ops env p w)) (snd (act ops env p w))"
      "\<forall>x. p \<noteq> Return x" "p \<noteq> Panic" for p w
    using step [OF surjective_pairing] that by blast
  show ?thesis
    by (induction p arbitrary: w)
      (simp_all add: ret pan, (rule step'; simp split: prod.splits option.splits)+)
qed

lemma run_act:
  "act ops env p w = (p', w') \<Longrightarrow> run ops env p w = run ops env p' w'"
  by (cases p) (auto split: prod.splits option.splits if_splits)

lemma run_upon_exit [prog_simps]:
  "run ops env (upon_exit p f) w = (case run ops env p w of (r, w') \<Rightarrow> run ops env (f r) w')"
  by (induction p arbitrary: w) (auto split: prod.splits option.splits)

lemma run_seq [prog_simps]:
  "run ops env (seq p f) w =
     (case run ops env p w of (None, w') \<Rightarrow> (None, w') | (Some x, w') \<Rightarrow> run ops env (f x) w')"
  by (induction p arbitrary: w) (auto split: prod.splits option.splits)

end
