(* ===== verification/Ledger_Contract.thy ===== *)
theory Ledger_Contract
  imports Effects
begin

text \<open>
  What the service relies on of TigerBeetle, and the logic that uses it.  TigerBeetle is not part
  of the repository; the behaviour the repository documents (\<open>docs/ledger-model.md\<close>, "TigerBeetle-
  native idempotency", and the table of the README) is the locale \<open>ledger_contract\<close>: immutable
  accounts and transfers, one economic event per transfer ID, and IDs that stay failed.  A call
  that ends in an error may or may not have taken effect.

  \<open>wp\<close> is a rely-guarantee precondition for programs: whatever the other requests do between two
  actions of the program, so long as the ledger only grows, the program submits only transfers
  and caches only metadata that the guarantee allows, never panics, and ends with a value that
  satisfies the postcondition.
\<close>

section \<open>Views of a ledger\<close>

record ledger_view =
  view_accounts :: "uint128 \<Rightarrow> Account option"
  view_transfers :: "uint128 \<Rightarrow> Transfer option"
  view_failed :: "uint128 set"

text \<open>The immutable part of an account, and equality up to what the ledger assigns.\<close>

definition account_meta :: "Account \<Rightarrow> Account" where
  "account_meta a = a\<lparr>Account_DebitsPending := 0, Account_DebitsPosted := 0,
     Account_CreditsPending := 0, Account_CreditsPosted := 0\<rparr>"

definition same_account :: "Account \<Rightarrow> Account \<Rightarrow> bool" where
  "same_account a b \<longleftrightarrow> (account_meta a)\<lparr>Account_Timestamp := 0\<rparr> = (account_meta b)\<lparr>Account_Timestamp := 0\<rparr>"

definition same_payload :: "Transfer \<Rightarrow> Transfer \<Rightarrow> bool" where
  "same_payload t u \<longleftrightarrow> t\<lparr>Transfer_Timestamp := 0\<rparr> = u\<lparr>Transfer_Timestamp := 0\<rparr>"

definition add_account :: "Account \<Rightarrow> uint64 \<Rightarrow> ledger_view \<Rightarrow> ledger_view" where
  "add_account a ts K = K\<lparr>view_accounts := (view_accounts K)
     (Account_ID a \<mapsto> (account_meta a)\<lparr>Account_Timestamp := ts\<rparr>)\<rparr>"

definition add_transfer :: "Transfer \<Rightarrow> uint64 \<Rightarrow> ledger_view \<Rightarrow> ledger_view" where
  "add_transfer t ts K = K\<lparr>view_transfers := (view_transfers K)
     (Transfer_ID t \<mapsto> t\<lparr>Transfer_Timestamp := ts\<rparr>)\<rparr>"

definition add_failed :: "uint128 \<Rightarrow> ledger_view \<Rightarrow> ledger_view" where
  "add_failed i K = K\<lparr>view_failed := insert i (view_failed K)\<rparr>"

definition view_ok :: "ledger_view \<Rightarrow> bool" where
  "view_ok K \<longleftrightarrow>
     (\<forall>i a. view_accounts K i = Some a \<longrightarrow> Account_ID a = i \<and> account_meta a = a) \<and>
     (\<forall>i t. view_transfers K i = Some t \<longrightarrow> Transfer_ID t = i) \<and>
     (\<forall>i. i \<in> view_failed K \<longrightarrow> view_transfers K i = None)"

text \<open>A ledger only grows: nothing that exists is changed or removed, failed IDs stay failed.\<close>

definition grows :: "ledger_view \<Rightarrow> ledger_view \<Rightarrow> bool" where
  "grows K K' \<longleftrightarrow> view_ok K' \<and> view_accounts K \<subseteq>\<^sub>m view_accounts K' \<and>
     view_transfers K \<subseteq>\<^sub>m view_transfers K' \<and> view_failed K \<subseteq> view_failed K'"

section \<open>The documented behaviour of each call\<close>

text \<open>An error that comes from the client, not from this service or from a request's context.\<close>

definition foreign_error :: "Error \<Rightarrow> bool" where
  "foreign_error e \<longleftrightarrow> \<not> errors_Is e ErrInvalidRequest \<and> \<not> errors_Is e ErrAccountNotFound \<and>
     \<not> errors_Is e ErrAuthorizationNotFound \<and> \<not> errors_Is e ErrIdempotencyConflict \<and>
     \<not> errors_Is e ContextCanceled \<and> \<not> errors_Is e ContextDeadlineExceeded"

text \<open>The statuses \<open>exists_with_different_*\<close>.\<close>

fun transfer_differs :: "CreateTransferStatus \<Rightarrow> bool" where
  "transfer_differs TransferCreated = False"
| "transfer_differs TransferExists = False"
| "transfer_differs TransferExceedsCredits = False"
| "transfer_differs TransferExceedsDebits = False"
| "transfer_differs TransferDebitAccountNotFound = False"
| "transfer_differs TransferCreditAccountNotFound = False"
| "transfer_differs TransferIDAlreadyFailed = False"
| "transfer_differs TransferOverflowsDebits = False"
| "transfer_differs (TransferStatusOther n) = False"
| "transfer_differs _ = True"

text \<open>What each of them says: the field in which the existing transfer differs.\<close>

fun transfer_mismatch :: "CreateTransferStatus \<Rightarrow> Transfer \<Rightarrow> Transfer \<Rightarrow> bool" where
  "transfer_mismatch TransferExistsWithDifferentFlags t u \<longleftrightarrow> Transfer_Flags t \<noteq> Transfer_Flags u"
| "transfer_mismatch TransferExistsWithDifferentPendingID t u \<longleftrightarrow>
     Transfer_PendingID t \<noteq> Transfer_PendingID u"
| "transfer_mismatch TransferExistsWithDifferentTimeout t u \<longleftrightarrow>
     Transfer_Timeout t \<noteq> Transfer_Timeout u"
| "transfer_mismatch TransferExistsWithDifferentDebitAccountID t u \<longleftrightarrow>
     Transfer_DebitAccountID t \<noteq> Transfer_DebitAccountID u"
| "transfer_mismatch TransferExistsWithDifferentCreditAccountID t u \<longleftrightarrow>
     Transfer_CreditAccountID t \<noteq> Transfer_CreditAccountID u"
| "transfer_mismatch TransferExistsWithDifferentAmount t u \<longleftrightarrow>
     Transfer_Amount t \<noteq> Transfer_Amount u"
| "transfer_mismatch TransferExistsWithDifferentUserData128 t u \<longleftrightarrow>
     Transfer_UserData128 t \<noteq> Transfer_UserData128 u"
| "transfer_mismatch TransferExistsWithDifferentUserData64 t u \<longleftrightarrow>
     Transfer_UserData64 t \<noteq> Transfer_UserData64 u"
| "transfer_mismatch TransferExistsWithDifferentUserData32 t u \<longleftrightarrow>
     Transfer_UserData32 t \<noteq> Transfer_UserData32 u"
| "transfer_mismatch TransferExistsWithDifferentLedger t u \<longleftrightarrow>
     Transfer_Ledger t \<noteq> Transfer_Ledger u"
| "transfer_mismatch TransferExistsWithDifferentCode t u \<longleftrightarrow> Transfer_Code t \<noteq> Transfer_Code u"
| "transfer_mismatch _ t u \<longleftrightarrow> False"

fun account_differs :: "CreateAccountStatus \<Rightarrow> bool" where
  "account_differs AccountCreated = False"
| "account_differs AccountExists = False"
| "account_differs (AccountStatusOther n) = False"
| "account_differs _ = True"

text \<open>Rejections that depend on the state and therefore mark the ID as failed.\<close>

definition transient_failure :: "CreateTransferStatus \<Rightarrow> bool" where
  "transient_failure s \<longleftrightarrow> s = TransferExceedsCredits \<or> s = TransferExceedsDebits \<or>
     s = TransferDebitAccountNotFound \<or> s = TransferCreditAccountNotFound"

definition account_law ::
  "Account \<Rightarrow> Error + CreateAccountResult \<Rightarrow> ledger_view \<Rightarrow> ledger_view \<Rightarrow> bool" where
  "account_law a r K K' \<longleftrightarrow>
     (case view_accounts K (Account_ID a) of
        Some a0 \<Rightarrow> K' = K \<and>
          (case r of
             Inl e \<Rightarrow> foreign_error e
           | Inr res \<Rightarrow>
               if same_account a0 a
               then res = \<lparr>AccountResult_Status = AccountExists,
                           AccountResult_Timestamp = Account_Timestamp a0\<rparr>
               else account_differs (AccountResult_Status res))
      | None \<Rightarrow>
          (case r of
             Inl e \<Rightarrow> foreign_error e \<and> (K' = K \<or> (\<exists>ts. K' = add_account a ts K))
           | Inr res \<Rightarrow>
               if AccountResult_Status res = AccountCreated
               then K' = add_account a (AccountResult_Timestamp res) K
               else K' = K \<and> AccountResult_Status res \<noteq> AccountExists \<and>
                    \<not> account_differs (AccountResult_Status res)))"

definition transfer_law ::
  "Transfer \<Rightarrow> Error + CreateTransferResult \<Rightarrow> ledger_view \<Rightarrow> ledger_view \<Rightarrow> bool" where
  "transfer_law t r K K' \<longleftrightarrow>
     (case view_transfers K (Transfer_ID t) of
        Some t0 \<Rightarrow> K' = K \<and>
          (case r of
             Inl e \<Rightarrow> foreign_error e
           | Inr res \<Rightarrow>
               if same_payload t0 t
               then res = \<lparr>TransferResult_Status = TransferExists,
                           TransferResult_Timestamp = Transfer_Timestamp t0\<rparr>
               else transfer_mismatch (TransferResult_Status res) t0 t)
      | None \<Rightarrow>
          if Transfer_ID t \<in> view_failed K
          then K' = K \<and>
            (case r of
               Inl e \<Rightarrow> foreign_error e
             | Inr res \<Rightarrow> TransferResult_Status res = TransferIDAlreadyFailed)
          else
            (case r of
               Inl e \<Rightarrow> foreign_error e \<and>
                 (K' = K \<or> (\<exists>ts. K' = add_transfer t ts K) \<or> K' = add_failed (Transfer_ID t) K)
             | Inr res \<Rightarrow>
                 if TransferResult_Status res = TransferCreated
                 then K' = add_transfer t (TransferResult_Timestamp res) K
                 else if transient_failure (TransferResult_Status res)
                 then K' = add_failed (Transfer_ID t) K
                 else (K' = K \<or> K' = add_failed (Transfer_ID t) K) \<and>
                      TransferResult_Status res \<noteq> TransferExists \<and>
                      TransferResult_Status res \<noteq> TransferIDAlreadyFailed \<and>
                      \<not> transfer_differs (TransferResult_Status res)))"

definition account_lookup_law :: "uint128 \<Rightarrow> Error + Account \<times> bool \<Rightarrow> ledger_view \<Rightarrow> bool" where
  "account_lookup_law i r K \<longleftrightarrow>
     (case r of
        Inl e \<Rightarrow> foreign_error e
      | Inr (a, found) \<Rightarrow>
          (case view_accounts K i of
             None \<Rightarrow> \<not> found \<and> a = zeroAccount
           | Some m \<Rightarrow> found \<and> account_meta a = m))"

definition transfer_lookup_law :: "uint128 \<Rightarrow> Error + Transfer \<times> bool \<Rightarrow> ledger_view \<Rightarrow> bool" where
  "transfer_lookup_law i r K \<longleftrightarrow>
     (case r of
        Inl e \<Rightarrow> foreign_error e
      | Inr (t, found) \<Rightarrow>
          (case view_transfers K i of None \<Rightarrow> \<not> found | Some u \<Rightarrow> found \<and> t = u))"

text \<open>What the answer of a creation says about every later ledger.\<close>

definition account_outcome :: "Account \<Rightarrow> Error + CreateAccountResult \<Rightarrow> ledger_view \<Rightarrow> bool" where
  "account_outcome a r K \<longleftrightarrow>
     (case r of
        Inl e \<Rightarrow> foreign_error e
      | Inr res \<Rightarrow>
          if AccountResult_Status res = AccountCreated \<or> AccountResult_Status res = AccountExists
          then view_accounts K (Account_ID a) =
                 Some ((account_meta a)\<lparr>Account_Timestamp := AccountResult_Timestamp res\<rparr>)
          else account_differs (AccountResult_Status res) \<longrightarrow>
                 (\<exists>a0. view_accounts K (Account_ID a) = Some a0 \<and> \<not> same_account a0 a))"

definition transfer_outcome :: "Transfer \<Rightarrow> Error + CreateTransferResult \<Rightarrow> ledger_view \<Rightarrow> bool" where
  "transfer_outcome t r K \<longleftrightarrow>
     (case r of
        Inl e \<Rightarrow> foreign_error e
      | Inr res \<Rightarrow>
          if TransferResult_Status res = TransferCreated \<or> TransferResult_Status res = TransferExists
          then view_transfers K (Transfer_ID t) =
                 Some (t\<lparr>Transfer_Timestamp := TransferResult_Timestamp res\<rparr>)
          else if transfer_differs (TransferResult_Status res)
          then \<exists>t0. view_transfers K (Transfer_ID t) = Some t0 \<and>
                 transfer_mismatch (TransferResult_Status res) t0 t
          else transient_failure (TransferResult_Status res) \<or>
               TransferResult_Status res = TransferIDAlreadyFailed \<longrightarrow>
                 Transfer_ID t \<in> view_failed K)"

text \<open>What it says when the transfer ID already existed before the call.\<close>

definition transfer_known :: "ledger_view \<Rightarrow> Transfer \<Rightarrow> Error + CreateTransferResult \<Rightarrow> bool" where
  "transfer_known K t r \<longleftrightarrow>
     (\<forall>res. r = Inr res \<longrightarrow> view_transfers K (Transfer_ID t) \<noteq> None \<longrightarrow>
        TransferResult_Status res = TransferExists \<or> transfer_differs (TransferResult_Status res))"

section \<open>Guarantees and preconditions\<close>

record guarantee =
  guar_account :: "ledger_view \<Rightarrow> Account \<Rightarrow> bool"
  guar_transfer :: "ledger_view \<Rightarrow> Transfer \<Rightarrow> bool"
  guar_cache :: "ledger_view \<Rightarrow> uint128 \<Rightarrow> accountMetadata \<Rightarrow> bool"

text \<open>
  Growth of the ledger never invalidates a guarantee, and a guarantee does not constrain what the
  ledger assigns.
\<close>

definition stable_guar :: "guarantee \<Rightarrow> bool" where
  "stable_guar G \<longleftrightarrow> (\<forall>K K'. view_ok K \<longrightarrow> grows K K' \<longrightarrow>
     (\<forall>a. guar_account G K a \<longrightarrow> guar_account G K' a) \<and>
     (\<forall>t. guar_transfer G K t \<longrightarrow> guar_transfer G K' t) \<and>
     (\<forall>i m. guar_cache G K i m \<longrightarrow> guar_cache G K' i m)) \<and>
   (\<forall>K t ts. guar_transfer G K t \<longrightarrow> guar_transfer G K (t\<lparr>Transfer_Timestamp := ts\<rparr>)) \<and>
   (\<forall>K a ts. guar_account G K a \<longrightarrow> guar_account G K ((account_meta a)\<lparr>Account_Timestamp := ts\<rparr>))"

text \<open>Everything that was added to a ledger after \<open>K0\<close> is within the guarantee.\<close>

definition journal_ok :: "guarantee \<Rightarrow> ledger_view \<Rightarrow> ledger_view \<Rightarrow> bool" where
  "journal_ok G K0 K \<longleftrightarrow>
     (\<forall>i t. view_transfers K i = Some t \<longrightarrow> view_transfers K0 i = Some t \<or> guar_transfer G K t) \<and>
     (\<forall>i a. view_accounts K i = Some a \<longrightarrow> view_accounts K0 i = Some a \<or> guar_account G K a)"

text \<open>
  The shared state of a running service: a ledger that has grown from \<open>K0\<close>, and a cache that
  holds only what the guarantee allows.
\<close>

definition world_inv ::
  "('l \<Rightarrow> bool) \<Rightarrow> ('l \<Rightarrow> ledger_view) \<Rightarrow> guarantee \<Rightarrow> ledger_view \<Rightarrow> 'l world \<Rightarrow> bool" where
  "world_inv linv view G K0 w \<longleftrightarrow> linv (w_ledger w) \<and> cache_inv (w_cache w) \<and>
     mc.holds_only (guar_cache G (view (w_ledger w))) (w_cache w) \<and>
     grows K0 (view (w_ledger w))"

text \<open>
  Other clients of the cluster keep the ledger growing; when they are instances of the same
  service, what they add is within the guarantee as well.
\<close>

definition outside_ok ::
  "('l \<Rightarrow> bool) \<Rightarrow> ('l \<Rightarrow> ledger_view) \<Rightarrow> ('l \<Rightarrow> 'l \<Rightarrow> bool) \<Rightarrow> bool" where
  "outside_ok linv view outside \<longleftrightarrow>
     (\<forall>l l'. linv l \<longrightarrow> outside l l' \<longrightarrow> linv l' \<and> grows (view l) (view l'))"

definition outside_journal ::
  "('l \<Rightarrow> bool) \<Rightarrow> ('l \<Rightarrow> ledger_view) \<Rightarrow> guarantee \<Rightarrow> ('l \<Rightarrow> 'l \<Rightarrow> bool) \<Rightarrow> bool" where
  "outside_journal linv view G outside \<longleftrightarrow>
     (\<forall>l l'. linv l \<longrightarrow> outside l l' \<longrightarrow> journal_ok G (view l) (view l'))"

primrec wp :: "guarantee \<Rightarrow> 'a prog \<Rightarrow> ('a \<Rightarrow> ledger_view \<Rightarrow> bool) \<Rightarrow> ledger_view \<Rightarrow> bool" where
  "wp G (Return x) Q K \<longleftrightarrow> Q x K"
| "wp G Panic Q K \<longleftrightarrow> False"
| "wp G (Now k) Q K \<longleftrightarrow> (\<forall>K' t. grows K K' \<longrightarrow> wp G (k t) Q K')"
| "wp G (AwaitRisk d k) Q K \<longleftrightarrow> (\<forall>K' c. grows K K' \<longrightarrow> wp G (k c) Q K')"
| "wp G (CacheLoad i k) Q K \<longleftrightarrow> (\<forall>K' m. grows K K' \<longrightarrow>
     (\<forall>x. m = Some x \<longrightarrow> guar_cache G K' i x) \<longrightarrow> wp G (k m) Q K')"
| "wp G (CacheStore i m k) Q K \<longleftrightarrow> guar_cache G K i m \<and>
     (\<forall>K'. grows K K' \<longrightarrow> wp G (k True) Q K')"
| "wp G (BeginCall t k) Q K \<longleftrightarrow> (\<forall>K' i. grows K K' \<longrightarrow> wp G (k i) Q K')"
| "wp G (EndCall i t b k) Q K \<longleftrightarrow> (\<forall>K'. grows K K' \<longrightarrow> wp G k Q K')"
| "wp G (CallCreateAccount a k) Q K \<longleftrightarrow> guar_account G K a \<and>
     (\<forall>K0 K' r. grows K K0 \<longrightarrow> grows K0 K' \<longrightarrow> account_law a r K0 K' \<longrightarrow> wp G (k r) Q K')"
| "wp G (CallCreateTransfer t k) Q K \<longleftrightarrow> guar_transfer G K t \<and>
     (\<forall>K0 K' r. grows K K0 \<longrightarrow> grows K0 K' \<longrightarrow> transfer_law t r K0 K' \<longrightarrow> wp G (k r) Q K')"
| "wp G (CallLookupAccount i k) Q K \<longleftrightarrow>
     (\<forall>K' r. grows K K' \<longrightarrow> account_lookup_law i r K' \<longrightarrow> wp G (k r) Q K')"
| "wp G (CallLookupTransfer i k) Q K \<longleftrightarrow>
     (\<forall>K' r. grows K K' \<longrightarrow> transfer_lookup_law i r K' \<longrightarrow> wp G (k r) Q K')"
| "wp G (ReadHealth k) Q K \<longleftrightarrow> (\<forall>K' h. grows K K' \<longrightarrow> wp G (k h) Q K')"
| "wp G (AcquireSlot k) Q K \<longleftrightarrow> (\<forall>K' b. grows K K' \<longrightarrow> wp G (k b) Q K')"
| "wp G (ReleaseSlot k) Q K \<longleftrightarrow> (\<forall>K'. grows K K' \<longrightarrow> wp G k Q K')"
| "wp G (EmitMetric m k) Q K \<longleftrightarrow> (\<forall>K'. grows K K' \<longrightarrow> wp G k Q K')"
| "wp G (EmitLog e k) Q K \<longleftrightarrow> (\<forall>K'. grows K K' \<longrightarrow> wp G k Q K')"

text \<open>A postcondition that growth of the ledger never invalidates.\<close>

definition stable_post :: "('a \<Rightarrow> ledger_view \<Rightarrow> bool) \<Rightarrow> bool" where
  "stable_post Q \<longleftrightarrow> (\<forall>x K K'. view_ok K \<longrightarrow> grows K K' \<longrightarrow> Q x K \<longrightarrow> Q x K')"

section \<open>The system of all requests\<close>

text \<open>
  Any number of requests, each with the program its handler runs.  A request can arrive, one
  program can perform one action, and other clients of the same cluster can change the ledger.
\<close>

inductive sys_step ::
  "'l Ledger \<Rightarrow> environment \<Rightarrow> ('l \<Rightarrow> 'l \<Rightarrow> bool) \<Rightarrow> ('r \<Rightarrow> 'a prog) \<Rightarrow>
   ('r \<times> 'a prog) list \<times> 'l world \<Rightarrow> ('r \<times> 'a prog) list \<times> 'l world \<Rightarrow> bool"
  for ops env outside handler where
  arrives: "sys_step ops env outside handler (ps, w) (ps @ [(r, handler r)], w)"
| acts: "i < length ps \<Longrightarrow> ps ! i = (r, p) \<Longrightarrow> act ops env p w = (p', w') \<Longrightarrow>
     sys_step ops env outside handler (ps, w) (ps[i := (r, p')], w')"
| outside: "outside (w_ledger w) l \<Longrightarrow>
     sys_step ops env outside handler (ps, w) (ps, w\<lparr>w_ledger := l\<rparr>)"

inductive_cases sys_stepE [case_names arrives acts outside, consumes 1]:
  "sys_step ops env outside handler (ps, w) (ps', w')"

abbreviation sys_steps where
  "sys_steps ops env outside handler \<equiv> (sys_step ops env outside handler)\<^sup>*\<^sup>*"

text \<open>Every request satisfies the postcondition of its position.\<close>

definition all_correct :: "guarantee \<Rightarrow> (nat \<Rightarrow> 'r \<Rightarrow> 'a \<Rightarrow> ledger_view \<Rightarrow> bool) \<Rightarrow> ('r \<times> 'a prog) list \<Rightarrow>
    ledger_view \<Rightarrow> bool" where
  "all_correct G Q ps K \<longleftrightarrow> (\<forall>i < length ps. wp G (snd (ps ! i)) (Q i (fst (ps ! i))) K)"

text \<open>A request that runs alone from its arrival to its end is one way the system can go.\<close>

lemma sys_steps_acts:
  "run ops env p w = (Some x, w') \<Longrightarrow>
   sys_steps ops env outside handler (ps @ [(r, p)], w) (ps @ [(r, Return x)], w')"
proof (induction p w rule: prog_act_induct [where ops = ops and env = env])
  case (Act p w p' w2)
  have "sys_step ops env outside handler (ps @ [(r, p)], w) ((ps @ [(r, p)])[length ps := (r, p')], w2)"
    by (rule sys_step.acts [of _ _ r p]) (simp_all add: Act.hyps(1))
  moreover have "run ops env p' w2 = (Some x, w')"
    using Act.prems run_act [OF Act.hyps(1)] by simp
  ultimately show ?case
    using Act.IH by (simp add: converse_rtranclp_into_rtranclp)
qed auto

lemma sys_steps_run:
  assumes "run ops env (handler r) w = (Some x, w')"
  shows "sys_steps ops env outside handler (ps, w) (ps @ [(r, Return x)], w')"
  using sys_step.arrives sys_steps_acts [OF assms] by (rule converse_rtranclp_into_rtranclp)

section \<open>Growth\<close>

lemma grows_refl [simp, intro]: "view_ok K \<Longrightarrow> grows K K"
  by (simp add: grows_def)

lemma grows_trans [trans]: "grows K K' \<Longrightarrow> grows K' K'' \<Longrightarrow> grows K K''"
  by (auto simp: grows_def intro: map_le_trans)

lemma grows_ok [dest]: "grows K K' \<Longrightarrow> view_ok K'"
  by (simp add: grows_def)

lemma grows_account: "grows K K' \<Longrightarrow> view_accounts K i = Some a \<Longrightarrow> view_accounts K' i = Some a"
  by (metis domI grows_def map_le_def)

lemma grows_transfer: "grows K K' \<Longrightarrow> view_transfers K i = Some t \<Longrightarrow> view_transfers K' i = Some t"
  by (metis domI grows_def map_le_def)

lemma grows_failed: "grows K K' \<Longrightarrow> i \<in> view_failed K \<Longrightarrow> i \<in> view_failed K'"
  by (auto simp: grows_def)

lemma account_meta_simps [simp]:
  "Account_ID (account_meta a) = Account_ID a"
  "Account_UserData128 (account_meta a) = Account_UserData128 a"
  "Account_UserData64 (account_meta a) = Account_UserData64 a"
  "Account_UserData32 (account_meta a) = Account_UserData32 a"
  "Account_Ledger (account_meta a) = Account_Ledger a"
  "Account_Code (account_meta a) = Account_Code a"
  "Account_Flags (account_meta a) = Account_Flags a"
  "Account_Timestamp (account_meta a) = Account_Timestamp a"
  "account_meta (account_meta a) = account_meta a"
  "account_meta ((account_meta a)\<lparr>Account_Timestamp := ts\<rparr>) =
     (account_meta a)\<lparr>Account_Timestamp := ts\<rparr>"
  by (simp_all add: account_meta_def)

lemma account_law_grows:
  "view_ok K \<Longrightarrow> account_law a r K K' \<Longrightarrow> grows K K'"
  by (auto simp: account_law_def grows_def view_ok_def add_account_def map_le_def
      split: option.splits sum.splits if_splits)

lemma transfer_law_grows:
  "view_ok K \<Longrightarrow> transfer_law t r K K' \<Longrightarrow> grows K K'"
  by (auto simp: transfer_law_def grows_def view_ok_def add_transfer_def add_failed_def map_le_def
      split: option.splits sum.splits if_splits)

text \<open>Outcomes hold in the ledger after the call and in every later one.\<close>

lemma same_payload_iff: "same_payload t u \<longleftrightarrow> t = u\<lparr>Transfer_Timestamp := Transfer_Timestamp t\<rparr>"
  by (cases t; cases u) (auto simp: same_payload_def)

lemma same_payload_refl [simp]: "same_payload t t"
  "same_payload (t\<lparr>Transfer_Timestamp := ts\<rparr>) t"
  by (simp_all add: same_payload_def)

lemma same_account_iff: "same_account a b \<longleftrightarrow>
    account_meta a = (account_meta b)\<lparr>Account_Timestamp := Account_Timestamp a\<rparr>"
  by (cases a; cases b) (auto simp: same_account_def account_meta_def)

lemma transfer_mismatch_differs:
  "transfer_mismatch st t u \<Longrightarrow> transfer_differs st \<and> \<not> same_payload t u"
  by (cases st; cases t; cases u) (auto simp: same_payload_def)

lemma transfer_outcome_law:
  "view_ok K \<Longrightarrow> transfer_law t r K K' \<Longrightarrow> transfer_outcome t r K'"
  by (auto dest: transfer_mismatch_differs simp: transfer_law_def transfer_outcome_def add_transfer_def add_failed_def
      same_payload_iff transient_failure_def split: option.splits sum.splits if_splits)

lemma transfer_known_law: "grows K K1 \<Longrightarrow> transfer_law t r K1 K2 \<Longrightarrow> transfer_known K t r"
  by (auto simp: transfer_known_def transfer_law_def dest: grows_transfer transfer_mismatch_differs
      split: if_splits option.splits)

lemma account_meta_view_ok: "view_ok K \<Longrightarrow> view_accounts K i = Some a \<Longrightarrow> account_meta a = a"
  by (simp add: view_ok_def)

lemma account_outcome_law:
  "view_ok K \<Longrightarrow> account_law a r K K' \<Longrightarrow> account_outcome a r K'"
  by (auto simp: account_law_def account_outcome_def add_account_def same_account_iff
      account_meta_view_ok split: option.splits sum.splits if_splits)

lemma transfer_outcome_grows: "grows K K' \<Longrightarrow> transfer_outcome t r K \<Longrightarrow> transfer_outcome t r K'"
  by (auto simp: transfer_outcome_def grows_transfer grows_failed split: sum.splits;
      meson grows_transfer grows_failed)

lemma account_outcome_grows: "grows K K' \<Longrightarrow> account_outcome a r K \<Longrightarrow> account_outcome a r K'"
  by (auto simp: account_outcome_def grows_account split: sum.splits; meson grows_account)

section \<open>Calculating preconditions\<close>

lemma wp_post_mono:
  "wp G p Q K \<Longrightarrow> (\<And>x K'. Q x K' \<Longrightarrow> R x K') \<Longrightarrow> wp G p R K"
  by (induction p arbitrary: K) auto

lemma wp_seq [wp_rules]: "wp G (seq p f) Q K \<longleftrightarrow> wp G p (\<lambda>x. wp G (f x) Q) K"
  by (induction p arbitrary: K) auto

lemma stable_guar_mono:
  assumes "stable_guar G" "view_ok K" "grows K K'"
  shows "guar_account G K a \<Longrightarrow> guar_account G K' a"
    and "guar_transfer G K t \<Longrightarrow> guar_transfer G K' t"
    and "guar_cache G K i m \<Longrightarrow> guar_cache G K' i m"
  using assms unfolding stable_guar_def by blast+

lemma journal_ok_trans:
  assumes "stable_guar G" "view_ok K" "grows K K'" "journal_ok G K0 K" "journal_ok G K K'"
  shows "journal_ok G K0 K'"
  using assms(4,5) stable_guar_mono [OF assms(1-3)] unfolding journal_ok_def by blast

lemma journal_ok_refl [simp]: "journal_ok G K K"
  by (simp add: journal_ok_def)

lemma transfer_law_journal:
  assumes "stable_guar G" "view_ok K" "grows K K'" "transfer_law t r K K'" "guar_transfer G K t"
  shows "journal_ok G K K'"
proof -
  have "guar_transfer G K' (t\<lparr>Transfer_Timestamp := ts\<rparr>)" for ts
    using stable_guar_mono(2) [OF assms(1-3)] assms(1,5) unfolding stable_guar_def by blast
  with assms(4) show ?thesis
    by (auto simp: transfer_law_def journal_ok_def add_transfer_def add_failed_def
        split: option.splits sum.splits if_splits)
qed

lemma account_law_journal:
  assumes "stable_guar G" "view_ok K" "grows K K'" "account_law a r K K'" "guar_account G K a"
  shows "journal_ok G K K'"
proof -
  have "guar_account G K' ((account_meta a)\<lparr>Account_Timestamp := ts\<rparr>)" for ts
    using stable_guar_mono(1) [OF assms(1-3)] assms(1,5) unfolding stable_guar_def by blast
  with assms(4) show ?thesis
    by (auto simp: account_law_def journal_ok_def add_account_def
        split: option.splits sum.splits if_splits)
qed

lemma wp_grows:
  assumes "wp G p Q K" "stable_guar G" "stable_post Q" "view_ok K" "grows K K'"
  shows "wp G p Q K'"
proof -
  have trans: "grows K' L \<Longrightarrow> grows K L" for L
    using assms(5) by (rule grows_trans)
  have G: "guar_account G K a \<Longrightarrow> guar_account G K' a"
      "guar_transfer G K t \<Longrightarrow> guar_transfer G K' t"
      "guar_cache G K i m \<Longrightarrow> guar_cache G K' i m" for a t i m
    using stable_guar_mono [OF assms(2,4,5)] by blast+
  have Q: "Q x K \<Longrightarrow> Q x K'" for x
    using assms(3-5) unfolding stable_post_def by blast
  show ?thesis
    using assms(1) by (cases p) (auto simp: G Q intro: trans)
qed

lemma wp_fail [wp_rules]: "wp G (fail e) Q K \<longleftrightarrow> Q (Inl e) K"
  by (simp add: fail_def)

lemma wp_attempt [wp_rules]:
  "wp G (attempt p f) Q K \<longleftrightarrow>
     wp G p (\<lambda>r K'. case r of Inl e \<Rightarrow> Q (Inl e) K' | Inr x \<Rightarrow> wp G (f x) Q K') K"
  by (auto simp: attempt_def wp_seq wp_fail elim!: wp_post_mono split: sum.splits)

lemma wp_check [wp_rules]:
  "wp G (check r f) Q K \<longleftrightarrow> (case r of Inl e \<Rightarrow> Q (Inl e) K | Inr x \<Rightarrow> wp G (f x) Q K)"
  by (simp add: check_def wp_fail split: sum.splits)

text \<open>
  Sequential composition.  The ledgers a program leaves behind have grown from the one it started
  with.
\<close>

lemma wp_record_grows:
  "wp G p Q K \<Longrightarrow> grows B K \<Longrightarrow> wp G p (\<lambda>x K'. Q x K' \<and> grows B K') K"
proof (induction p arbitrary: K)
  case (CallCreateAccount a k)
  then show ?case by simp (meson grows_trans rangeI)
next
  case (CallCreateTransfer t k)
  then show ?case by simp (meson grows_trans rangeI)
qed (auto intro: grows_trans)

lemma wp_bind:
  assumes "wp G p R K" "view_ok K" "\<And>x K'. R x K' \<Longrightarrow> grows K K' \<Longrightarrow> wp G (f x) Q K'"
  shows "wp G (seq p f) Q K"
proof -
  have "wp G p (\<lambda>x K'. R x K' \<and> grows K K') K"
    using assms(1) grows_refl [OF assms(2)] by (rule wp_record_grows)
  then show ?thesis
    unfolding wp_seq by (rule wp_post_mono) (use assms(3) in blast)
qed

lemma wp_upon_exit:
  assumes "wp G p R K" "view_ok K" "\<And>x K'. R x K' \<Longrightarrow> grows K K' \<Longrightarrow> wp G (f (Some x)) Q K'"
  shows "wp G (upon_exit p f) Q K"
proof -
  have exits: "wp G (upon_exit p f) Q K" if "wp G p (\<lambda>x K'. wp G (f (Some x)) Q K') K" for K
    using that by (induction p arbitrary: K) auto
  show ?thesis
    by (rule exits, rule wp_post_mono [OF wp_record_grows [OF assms(1) grows_refl [OF assms(2)]]])
      (use assms(3) in blast)
qed

lemma wp_attempt_bind:
  assumes "wp G p R K" "view_ok K"
    and "\<And>e K'. R (Inl e) K' \<Longrightarrow> grows K K' \<Longrightarrow> Q (Inl e) K'"
    and "\<And>x K'. R (Inr x) K' \<Longrightarrow> grows K K' \<Longrightarrow> wp G (f x) Q K'"
  shows "wp G (attempt p f) Q K"
  unfolding attempt_def
  using assms(1,2) by (rule wp_bind) (auto simp: wp_fail assms(3,4) split: sum.splits)

lemma wp_consequence:
  assumes "wp G p R K" "view_ok K" "\<And>x K'. R x K' \<Longrightarrow> grows K K' \<Longrightarrow> Q x K'"
  shows "wp G p Q K"
  using wp_record_grows [OF assms(1) grows_refl [OF assms(2)]] assms(3) by (rule wp_post_mono) auto

section \<open>The contract\<close>

locale ledger_contract =
  fixes ops :: "'l Ledger"
    and view :: "'l \<Rightarrow> ledger_view"
    and linv :: "'l \<Rightarrow> bool"
  assumes view_ok: "linv l \<Longrightarrow> view_ok (view l)"
    and CreateAccount: "linv l \<Longrightarrow> Ledger_CreateAccount ops a l = (ra, l') \<Longrightarrow>
           linv l' \<and> account_law a ra (view l) (view l')"
    and CreateTransfer: "linv l \<Longrightarrow> Ledger_CreateTransfer ops t l = (rt, l') \<Longrightarrow>
           linv l' \<and> transfer_law t rt (view l) (view l')"
    and LookupAccount: "linv l \<Longrightarrow> Ledger_LookupAccount ops i l = (rla, l') \<Longrightarrow>
           linv l' \<and> view l' = view l \<and> account_lookup_law i rla (view l)"
    and LookupTransfer: "linv l \<Longrightarrow> Ledger_LookupTransfer ops i l = (rlt, l') \<Longrightarrow>
           linv l' \<and> view l' = view l \<and> transfer_lookup_law i rlt (view l)"
begin

lemma ledger_step:
  assumes G: "stable_guar G" and inv: "world_inv linv view G K0 w" and "linv l"
    "grows (view (w_ledger w)) (view l)"
  shows "world_inv linv view G K0 (w\<lparr>w_ledger := l\<rparr>)"
proof -
  let ?K = "view (w_ledger w)"
  have K: "view_ok ?K" "grows K0 ?K" "linv (w_ledger w)"
    and c: "cache_inv (w_cache w)" "mc.holds_only (guar_cache G ?K) (w_cache w)"
    using inv view_ok by (auto simp: world_inv_def)
  have "mc.holds_only (guar_cache G (view l)) (w_cache w)"
    using c(2) stable_guar_mono(3) [OF G K(1) assms(4)] by (rule mc.holds_only_mono)
  then show ?thesis
    using c assms(3) grows_trans [OF K(2) assms(4)] by (simp add: world_inv_def)
qed

lemma act_sound:
  assumes G: "stable_guar G" and inv: "world_inv linv view G K0 w"
    and pre: "wp G p Q (view (w_ledger w))" and step: "act ops env p w = (p', w')"
  shows "world_inv linv view G K0 w' \<and> wp G p' Q (view (w_ledger w')) \<and>
    grows (view (w_ledger w)) (view (w_ledger w')) \<and>
    journal_ok G (view (w_ledger w)) (view (w_ledger w'))"
proof -
  let ?K = "view (w_ledger w)"
  have vok: "view_ok ?K" and linv: "linv (w_ledger w)" and cinv: "cache_inv (w_cache w)"
    and holds: "mc.holds_only (guar_cache G ?K) (w_cache w)" and rest: "grows K0 ?K"
    using inv view_ok by (auto simp: world_inv_def)
  have ok: "grows ?K ?K"
    using vok by simp
  have cached: "cache_Load i (w_cache w) = Some x \<Longrightarrow> guar_cache G ?K i x" for i x
    using holds by (simp add: mc.holds_only_def)
  show ?thesis
  proof (cases p)
    case (CacheStore i m k)
    with cinv obtain c where c: "cache_Store i m (w_cache w) = Some c" "cache_inv c"
      using mc.store_cases by metis
    then have "mc.holds_only (guar_cache G ?K) c"
      using mc.holds_only_store [OF cinv holds _ c(1)] pre CacheStore by simp
    with c show ?thesis
      using CacheStore pre step ok linv rest by (auto simp: world_inv_def)
  next
    case (CallCreateAccount a k)
    obtain r l where c: "Ledger_CreateAccount ops a (w_ledger w) = (r, l)"
      by fastforce
    from CreateAccount [OF linv c] have l: "linv l" and law: "account_law a r ?K (view l)"
      by auto
    have g: "grows ?K (view l)"
      using vok law by (rule account_law_grows)
    moreover have "journal_ok G ?K (view l)"
      using account_law_journal [OF G vok g law] pre CallCreateAccount by simp
    ultimately show ?thesis
      using CallCreateAccount c pre step ok ledger_step [OF G inv l] law by auto
  next
    case (CallCreateTransfer t k)
    obtain r l where c: "Ledger_CreateTransfer ops t (w_ledger w) = (r, l)"
      by fastforce
    from CreateTransfer [OF linv c] have l: "linv l" and law: "transfer_law t r ?K (view l)"
      by auto
    have g: "grows ?K (view l)"
      using vok law by (rule transfer_law_grows)
    moreover have "journal_ok G ?K (view l)"
      using transfer_law_journal [OF G vok g law] pre CallCreateTransfer by simp
    ultimately show ?thesis
      using CallCreateTransfer c pre step ok ledger_step [OF G inv l] law by auto
  next
    case (CallLookupAccount i k)
    obtain r l where c: "Ledger_LookupAccount ops i (w_ledger w) = (r, l)"
      by fastforce
    from LookupAccount [OF linv c] show ?thesis
      using CallLookupAccount c pre step ok ledger_step [OF G inv, of l] by auto
  next
    case (CallLookupTransfer i k)
    obtain r l where c: "Ledger_LookupTransfer ops i (w_ledger w) = (r, l)"
      by fastforce
    from LookupTransfer [OF linv c] show ?thesis
      using CallLookupTransfer c pre step ok ledger_step [OF G inv, of l] by auto
  qed (use pre step inv ok cached in
      \<open>auto simp: w_advance_def world_inv_def split: prod.splits if_splits\<close>)
qed

lemma run_sound:
  assumes G: "stable_guar G" and inv: "world_inv linv view G K0 w"
    and pre: "wp G p Q (view (w_ledger w))"
  shows "\<exists>x w'. run ops env p w = (Some x, w') \<and> Q x (view (w_ledger w')) \<and>
    world_inv linv view G K0 w' \<and> grows (view (w_ledger w)) (view (w_ledger w'))"
  using inv pre
proof (induction p w rule: prog_act_induct [where ops = ops and env = env])
  case (Return x w)
  then show ?case
    using view_ok by (auto simp: world_inv_def)
next
  case (Panic w)
  then show ?case by simp
next
  case (Act p w p' w')
  from act_sound [OF G Act.prems Act.hyps(1)] Act.IH obtain x u where
    "run ops env p' w' = (Some x, u)" "Q x (view (w_ledger u))" "world_inv linv view G K0 u"
    "grows (view (w_ledger w)) (view (w_ledger w'))"
    "grows (view (w_ledger w')) (view (w_ledger u))"
    by blast
  then show ?case
    using run_act [OF Act.hyps(1)] grows_trans by metis
qed

text \<open>
  The whole system.  When every request in flight is correct and the handler of every request that
  arrives is correct from the ledger it finds, all stay correct whatever the others do.  What is
  asked of a request may depend on its position in the order of arrival.
\<close>

lemma sys_step_sound:
  assumes G: "stable_guar G" and out: "outside_ok linv view outside"
    and handler: "\<And>r K. grows K1 K \<Longrightarrow> wp G (handler r) (Q (length ps) r) K"
    and post: "\<And>i r. stable_post (Q i r)"
    and step: "sys_step ops env outside handler (ps, w) (ps', w')"
    and inv: "world_inv linv view G K0 w" and K1: "grows K1 (view (w_ledger w))"
    and all: "all_correct G Q ps (view (w_ledger w))"
  shows "world_inv linv view G K0 w' \<and> grows (view (w_ledger w)) (view (w_ledger w')) \<and>
    length ps \<le> length ps' \<and> all_correct G Q ps' (view (w_ledger w')) \<and>
    (outside_journal linv view G outside \<longrightarrow>
       journal_ok G (view (w_ledger w)) (view (w_ledger w')))"
proof -
  let ?K = "view (w_ledger w)"
  have vok: "view_ok ?K" and linv: "linv (w_ledger w)"
    using inv view_ok by (auto simp: world_inv_def)
  have keep: "all_correct G Q ps K'" if "grows ?K K'" for K'
    using wp_grows [OF _ G post vok that] all unfolding all_correct_def by blast
  from step show ?thesis
  proof (cases rule: sys_stepE)
    case (arrives r)
    then show ?thesis
      using inv all vok handler [OF K1] by (auto simp: all_correct_def nth_append less_Suc_eq)
  next
    case (acts i r p p')
    have "wp G p (Q i r) ?K"
      using all acts by (auto simp: all_correct_def)
    from act_sound [OF G inv this acts(4)]
    have new: "world_inv linv view G K0 w'" "wp G p' (Q i r) (view (w_ledger w'))"
      "grows ?K (view (w_ledger w'))" "journal_ok G ?K (view (w_ledger w'))"
      by blast+
    with keep [OF new(3)] show ?thesis
      using acts(1,2) by (auto simp: all_correct_def nth_list_update)
  next
    case (outside l)
    with out linv have "linv l" "grows ?K (view l)"
      by (auto simp: outside_ok_def)
    then show ?thesis
      using outside ledger_step [OF G inv] keep linv by (auto simp: outside_journal_def)
  qed
qed

lemma sys_sound:
  assumes G: "stable_guar G" and out: "outside_ok linv view outside"
    and handler: "\<And>i r K. length ps0 \<le> i \<Longrightarrow> grows (view (w_ledger w)) K \<Longrightarrow> wp G (handler r) (Q i r) K"
    and post: "\<And>i r. stable_post (Q i r)"
    and steps: "sys_steps ops env outside handler (ps0, w) (ps, w')"
    and inv: "world_inv linv view G K0 w" and all: "all_correct G Q ps0 (view (w_ledger w))"
  shows "world_inv linv view G K0 w' \<and> grows (view (w_ledger w)) (view (w_ledger w')) \<and>
    length ps0 \<le> length ps \<and> all_correct G Q ps (view (w_ledger w')) \<and>
    (outside_journal linv view G outside \<longrightarrow>
       journal_ok G (view (w_ledger w)) (view (w_ledger w')))"
  using steps
proof (induction ps w' rule: rtranclp_induct2)
  case refl
  then show ?case
    using inv all view_ok by (auto simp: world_inv_def)
next
  case (step ps w1 ps' w2)
  have "linv (w_ledger w1)" using step.IH by (simp add: world_inv_def)
  with sys_step_sound [where Q = Q and ?K1.0 = "view (w_ledger w)", OF G out handler post step(2)]
    step.IH view_ok
  show ?case
    using grows_trans journal_ok_trans [OF G] by (meson le_trans)
qed

end

end
