(* ===== verification/Service_Core.thy ===== *)
theory Service_Core
  imports Ledger_Contract
begin

text \<open>
  \<open>internal/service/service.go\<close>: construction of the service, the accounts it provisions and
  looks up, the identifiers it accepts and the translation of ledger statuses.  Every ledger call
  of the service goes through \<open>observedLedger\<close> of \<open>health.go\<close>: the functions
  \<open>observed_CreateAccount\<close> to \<open>observed_LookupTransfer\<close> are its methods.  A Go result
  \<open>(response, status, err)\<close> is a value of type \<^typ>\<open>Error + 'r \<times> int\<close>.
\<close>

section \<open>The service\<close>

record Service =
  Service_ledgerID :: uint32
  Service_authorizationTimeout :: Duration
  Service_riskDelay :: Duration
  Service_riskLimitCents :: uint64
  Service_metrics :: bool

text \<open>
  \<open>New\<close> builds the service, its cache and its health record.  The timeout is rounded up to whole
  seconds, in 64-bit arithmetic.
\<close>

definition roundUpToSeconds :: "Duration \<Rightarrow> Duration" where
  "roundUpToSeconds d = wrap_int64 ((wrap_int64 (wrap_int64 (d + second) - 1) sdiv second) * second)"

definition service_New ::
  "uint32 \<Rightarrow> Duration \<Rightarrow> Duration \<Rightarrow> uint64 \<Rightarrow> Duration \<Rightarrow> int \<Rightarrow> bool \<Rightarrow>
   Service \<times> metadataCache \<times> observedLedger" where
  "service_New ledgerID authorizationTimeout riskDelay riskLimitCents ledgerStallThreshold
     accountMetadataCacheSize metrics =
     (\<lparr>Service_ledgerID = ledgerID,
       Service_authorizationTimeout = roundUpToSeconds authorizationTimeout,
       Service_riskDelay = riskDelay, Service_riskLimitCents = riskLimitCents,
       Service_metrics = metrics\<rparr>,
      newMetadataCache accountMetadataCacheSize, newObservedLedger ledgerStallThreshold metrics)"

section \<open>Observed ledger calls\<close>

text \<open>
  The wrapper each method of \<open>observedLedger\<close> puts around the call: \<open>begin\<close> before it and the
  function \<open>begin\<close> returned after it.  \<open>New\<close> hands the same \<open>metrics\<close> to the wrapper and to the
  service.
\<close>

definition observed_call ::
  "Service \<Rightarrow> string \<Rightarrow> ((Error + 'b \<Rightarrow> (Error + 'b) prog) \<Rightarrow> (Error + 'b) prog) \<Rightarrow>
   (Error + 'b) prog" where
  "observed_call s kind call =
     Now (\<lambda>started. BeginCall started (\<lambda>ident. call (\<lambda>r.
       Now (\<lambda>completed. EndCall ident completed (isl r)
         (if Service_metrics s
          then EmitMetric (ObserveLedgerCall kind (if isl r then ''error'' else ''success'')
                 (Time_Sub completed started)) (Return r)
          else Return r)))))"

definition observed_CreateAccount :: "Service \<Rightarrow> Account \<Rightarrow> (Error + CreateAccountResult) prog" where
  "observed_CreateAccount s account = observed_call s ''create_account'' (CallCreateAccount account)"

definition observed_CreateTransfer ::
  "Service \<Rightarrow> Transfer \<Rightarrow> (Error + CreateTransferResult) prog" where
  "observed_CreateTransfer s transfer =
     observed_call s ''create_transfer'' (CallCreateTransfer transfer)"

definition observed_LookupAccount :: "Service \<Rightarrow> uint128 \<Rightarrow> (Error + Account \<times> bool) prog" where
  "observed_LookupAccount s ident = observed_call s ''lookup_account'' (CallLookupAccount ident)"

definition observed_LookupTransfer :: "Service \<Rightarrow> uint128 \<Rightarrow> (Error + Transfer \<times> bool) prog" where
  "observed_LookupTransfer s ident = observed_call s ''lookup_transfer'' (CallLookupTransfer ident)"

section \<open>Identifiers\<close>

definition isUint128Max :: "SDK \<Rightarrow> uint128 \<Rightarrow> bool" where
  "isUint128Max sdk ident \<longleftrightarrow> (\<forall>v \<in> set (Uint128_Bytes sdk ident). v = 0xff)"

definition parsePublicTigerBeetleID :: "SDK \<Rightarrow> string \<Rightarrow> Error + uint128" where
  "parsePublicTigerBeetleID sdk v =
     (case HexStringToUint128 sdk v of
        Inl e \<Rightarrow> Inl (NewError ''invalid TigerBeetle ID'')
      | Inr ident \<Rightarrow>
          if ident = 0 \<or> isUint128Max sdk ident
          then Inl (NewError ''invalid TigerBeetle ID'') else Inr ident)"

definition validateExternalID :: "string \<Rightarrow> string \<Rightarrow> Error + unit" where
  "validateExternalID field v =
     (if TrimSpace v = [] then Inl (invalid (field @ '' is required''))
      else if v \<noteq> TrimSpace v then Inl (invalid (field @ '' must not have surrounding whitespace''))
      else if length v > 200 then Inl (invalid (field @ '' must not exceed 200 bytes''))
      else Inr ())"

definition requestID :: "SDK \<Rightarrow> string \<Rightarrow> Error + uint128" where
  "requestID sdk v =
     (case validateExternalID ''request_id'' v of
        Inl e \<Rightarrow> Inl e
      | Inr _ \<Rightarrow>
          (case parsePublicTigerBeetleID sdk v of
             Inl e \<Rightarrow> Inl (invalid
               ''request_id must be a non-zero 128-bit hexadecimal TigerBeetle ID'')
           | Inr ident \<Rightarrow> Inr ident))"

definition accountID :: "SDK \<Rightarrow> string \<Rightarrow> string \<Rightarrow> Error + uint128" where
  "accountID sdk field v =
     (let rejected = Inl (invalid (field @
            '' must be a non-zero 128-bit hexadecimal TigerBeetle ID outside the reserved system range''))
      in case validateExternalID field v of
           Inl e \<Rightarrow> Inl e
         | Inr _ \<Rightarrow>
             (case parsePublicTigerBeetleID sdk v of
                Inl e \<Rightarrow> rejected
              | Inr ident \<Rightarrow> if IsSystemAccountID sdk ident then rejected else Inr ident))"

definition publicID :: "SDK \<Rightarrow> uint128 \<Rightarrow> string" where
  "publicID sdk ident = (if ident = 0 then [] else Uint128_String sdk ident)"

section \<open>Account metadata\<close>

definition accountKind :: "Account \<Rightarrow> AccountKind option" where
  "accountKind account =
     (if Account_Code account = AccountCodeSafeguardedCash then Some AccountSafeguardedCash
      else if Account_Code account = AccountCodeCorporateWallet then Some AccountCorporateWallet
      else if Account_Code account = AccountCodeCardWallet then Some AccountCardWallet
      else if Account_Code account = AccountCodeCardSettlementPayable
      then Some AccountCardSettlementPayable
      else None)"

definition metadataForAccount :: "SDK \<Rightarrow> Service \<Rightarrow> Account \<Rightarrow> accountMetadata option" where
  "metadataForAccount sdk s account =
     (case accountKind account of
        None \<Rightarrow> None
      | Some kind \<Rightarrow>
          if Account_Ledger account \<noteq> Service_ledgerID s then None
          else if kind = AccountSafeguardedCash \<and> Account_ID account \<noteq> SafeguardedCashAccountID sdk \<or>
             kind = AccountCardSettlementPayable \<and>
               Account_ID account \<noteq> CardSettlementPayableAccountID sdk \<or>
             (kind = AccountCorporateWallet \<or> kind = AccountCardWallet) \<and>
               IsSystemAccountID sdk (Account_ID account)
          then None
          else
            (case ledger_Account sdk kind (Account_ID account) (Account_UserData128 account)
                    (Service_ledgerID s) of
               Inl e \<Rightarrow> None
             | Inr expected \<Rightarrow>
                 if Account_Flags account \<noteq> Account_Flags expected \<or>
                    Account_UserData64 account \<noteq> 0 \<or> Account_UserData32 account \<noteq> 0
                 then None
                 else Some \<lparr>meta_kind = kind,
                            meta_corporateAccountID = Account_UserData128 account\<rparr>))"

text \<open>\<open>accountMetadata.Store\<close>, with the panic of an index out of range.\<close>

definition storeMetadata :: "uint128 \<Rightarrow> accountMetadata \<Rightarrow> unit prog" where
  "storeMetadata ident m = CacheStore ident m (\<lambda>stored. if stored then Return () else Panic)"

definition rememberAccount :: "SDK \<Rightarrow> Service \<Rightarrow> Account \<Rightarrow> unit prog" where
  "rememberAccount sdk s account =
     (case metadataForAccount sdk s account of
        None \<Rightarrow> Return ()
      | Some metadata \<Rightarrow> storeMetadata (Account_ID account) metadata)"

definition requireAccountKind ::
  "SDK \<Rightarrow> Service \<Rightarrow> uint128 \<Rightarrow> AccountKind \<Rightarrow> (Error + accountMetadata) prog" where
  "requireAccountKind sdk s ident expected =
     CacheLoad ident (\<lambda>cached. case cached of
       Some metadata \<Rightarrow>
         if meta_kind metadata = expected then Return (Inr metadata) else fail ErrAccountNotFound
     | None \<Rightarrow>
         attempt (observed_LookupAccount s ident) (\<lambda>(account, found).
           (case metadataForAccount sdk s account of
              None \<Rightarrow> fail ErrAccountNotFound
            | Some metadata \<Rightarrow>
                if \<not> found \<or> meta_kind metadata \<noteq> expected then fail ErrAccountNotFound
                else seq (storeMetadata ident metadata) (\<lambda>_. Return (Inr metadata)))))"

section \<open>Accounts\<close>

fun ensureAccounts :: "SDK \<Rightarrow> Service \<Rightarrow> (AccountKind \<times> uint128) list \<Rightarrow> (Error + unit) prog" where
  "ensureAccounts sdk s [] = Return (Inr ())"
| "ensureAccounts sdk s ((kind, ident) # rest) =
     check (ledger_Account sdk kind ident 0 (Service_ledgerID s)) (\<lambda>account.
     attempt (observed_CreateAccount s account) (\<lambda>result.
       if AccountResult_Status result \<noteq> AccountCreated \<and> AccountResult_Status result \<noteq> AccountExists
       then fail (NewError (''provision '' @ kind @ '' account: '' @
                  CreateAccountStatus_String sdk (AccountResult_Status result)))
       else seq (rememberAccount sdk s account) (\<lambda>_. ensureAccounts sdk s rest)))"

definition EnsureSystemAccounts :: "SDK \<Rightarrow> Service \<Rightarrow> (Error + unit) prog" where
  "EnsureSystemAccounts sdk s =
     ensureAccounts sdk s
       [(AccountSafeguardedCash, SafeguardedCashAccountID sdk),
        (AccountCardSettlementPayable, CardSettlementPayableAccountID sdk)]"

definition isAccountIdempotencyConflict :: "CreateAccountStatus \<Rightarrow> bool" where
  "isAccountIdempotencyConflict status \<longleftrightarrow> status \<in>
     {AccountExistsWithDifferentFlags, AccountExistsWithDifferentUserData128,
      AccountExistsWithDifferentUserData64, AccountExistsWithDifferentUserData32,
      AccountExistsWithDifferentLedger, AccountExistsWithDifferentCode}"

text \<open>
  \<open>CreateAccount\<close> in two steps: the part that decides the corporate parent, with its lookups, and
  the part that submits the account.
\<close>

definition CreateAccount_parent ::
  "SDK \<Rightarrow> Service \<Rightarrow> CreateAccountRequest \<Rightarrow> uint128 \<Rightarrow> (Error + uint128) prog" where
  "CreateAccount_parent sdk s request ident =
     (if CreateAccount_Kind request = AccountCardWallet then
        check (accountID sdk ''corporate_account_id'' (CreateAccount_CorporateAccountID request))
          (\<lambda>corporateAccountID.
            if corporateAccountID = ident
            then fail (invalid ''card account cannot be its own corporate account'')
            else attempt (requireAccountKind sdk s corporateAccountID AccountCorporateWallet)
              (\<lambda>_. Return (Inr corporateAccountID)))
      else if CreateAccount_CorporateAccountID request \<noteq> [] then
        fail (invalid ''corporate_account_id is only valid for card_wallet'')
      else Return (Inr 0))"

definition CreateAccount_submit ::
  "SDK \<Rightarrow> Service \<Rightarrow> CreateAccountRequest \<Rightarrow> uint128 \<Rightarrow> uint128 \<Rightarrow>
   (Error + AccountResponse \<times> int) prog" where
  "CreateAccount_submit sdk s request ident corporateAccountID =
     check (ledger_Account sdk (CreateAccount_Kind request) ident corporateAccountID
              (Service_ledgerID s)) (\<lambda>account.
     attempt (observed_CreateAccount s account) (\<lambda>result.
       let response = \<lparr>AccountResp_AccountID = Uint128_String sdk (Account_ID account),
             AccountResp_Kind = CreateAccount_Kind request,
             AccountResp_CorporateAccountID = publicID sdk corporateAccountID,
             AccountResp_Status = [], AccountResp_Timestamp = AccountResult_Timestamp result\<rparr>
       in if AccountResult_Status result = AccountCreated then
            seq (rememberAccount sdk s account) (\<lambda>_.
              Return (Inr (response\<lparr>AccountResp_Status := ''created''\<rparr>, 201)))
          else if AccountResult_Status result = AccountExists then
            seq (rememberAccount sdk s account) (\<lambda>_.
              Return (Inr (response\<lparr>AccountResp_Status := ''exists''\<rparr>, 200)))
          else if isAccountIdempotencyConflict (AccountResult_Status result)
          then fail ErrIdempotencyConflict
          else fail (NewError (''create account rejected: '' @
                 CreateAccountStatus_String sdk (AccountResult_Status result)))))"

definition CreateAccount ::
  "SDK \<Rightarrow> Service \<Rightarrow> CreateAccountRequest \<Rightarrow> (Error + AccountResponse \<times> int) prog" where
  "CreateAccount sdk s request =
     check (accountID sdk ''account_id'' (CreateAccount_AccountID request)) (\<lambda>ident.
       if CreateAccount_Kind request \<noteq> AccountCorporateWallet \<and>
          CreateAccount_Kind request \<noteq> AccountCardWallet
       then fail (invalid ''kind must be corporate_wallet or card_wallet'')
       else attempt (CreateAccount_parent sdk s request ident)
              (\<lambda>corporateAccountID. CreateAccount_submit sdk s request ident corporateAccountID))"

text \<open>The posted and the available balance; \<open>big.Int\<close> is unbounded.\<close>

definition balances :: "SDK \<Rightarrow> Account \<Rightarrow> AccountKind \<Rightarrow> int \<times> int" where
  "balances sdk account kind =
     (let debitsPosted = Uint128_BigInt sdk (Account_DebitsPosted account);
          creditsPosted = Uint128_BigInt sdk (Account_CreditsPosted account);
          debitsPending = Uint128_BigInt sdk (Account_DebitsPending account);
          creditsPending = Uint128_BigInt sdk (Account_CreditsPending account)
      in if kind = AccountSafeguardedCash then
           let posted = debitsPosted - creditsPosted in (posted, posted - creditsPending)
         else
           let posted = creditsPosted - debitsPosted in (posted, posted - debitsPending))"

definition balance_response :: "SDK \<Rightarrow> Account \<Rightarrow> accountMetadata \<Rightarrow> BalanceResponse" where
  "balance_response sdk account metadata =
     (let (posted, available) = balances sdk account (meta_kind metadata);
          amount = (\<lambda>v. show_int (Uint128_BigInt sdk v))
      in \<lparr>BalanceResp_AccountID = Uint128_String sdk (Account_ID account),
          BalanceResp_Kind = meta_kind metadata,
          BalanceResp_CorporateAccountID = publicID sdk (Account_UserData128 account),
          BalanceResp_DebitsPending = amount (Account_DebitsPending account),
          BalanceResp_DebitsPosted = amount (Account_DebitsPosted account),
          BalanceResp_CreditsPending = amount (Account_CreditsPending account),
          BalanceResp_CreditsPosted = amount (Account_CreditsPosted account),
          BalanceResp_PostedBalance = show_int posted,
          BalanceResp_AvailableBalance = show_int available,
          BalanceResp_Timestamp = Account_Timestamp account\<rparr>)"

definition Balance :: "SDK \<Rightarrow> Service \<Rightarrow> string \<Rightarrow> (Error + BalanceResponse) prog" where
  "Balance sdk s accountIDValue =
     check (validateExternalID ''account_id'' accountIDValue) (\<lambda>_.
       case parsePublicTigerBeetleID sdk accountIDValue of
         Inl e \<Rightarrow>
           fail (invalid ''account_id must be a non-zero 128-bit hexadecimal TigerBeetle ID'')
       | Inr ident \<Rightarrow>
           attempt (observed_LookupAccount s ident) (\<lambda>(account, found).
             if \<not> found then fail ErrAccountNotFound
             else case metadataForAccount sdk s account of
               None \<Rightarrow> fail ErrAccountNotFound
             | Some metadata \<Rightarrow>
                 seq (rememberAccount sdk s account) (\<lambda>_.
                   Return (Inr (balance_response sdk account metadata)))))"

text \<open>\<open>LedgerHealth\<close>: a clock reading, then the locked read of the record.\<close>

definition LedgerHealth_read :: "LedgerHealth prog" where
  "LedgerHealth_read = Now (\<lambda>now. ReadHealth (\<lambda>l. Return (observed_Health now l)))"

section \<open>Ledger statuses\<close>

definition isIdempotencyConflict :: "CreateTransferStatus \<Rightarrow> bool" where
  "isIdempotencyConflict status \<longleftrightarrow> status \<in>
     {TransferExistsWithDifferentFlags, TransferExistsWithDifferentPendingID,
      TransferExistsWithDifferentTimeout, TransferExistsWithDifferentDebitAccountID,
      TransferExistsWithDifferentCreditAccountID, TransferExistsWithDifferentAmount,
      TransferExistsWithDifferentUserData128, TransferExistsWithDifferentUserData64,
      TransferExistsWithDifferentUserData32, TransferExistsWithDifferentLedger,
      TransferExistsWithDifferentCode}"

definition errorCode :: "CreateTransferStatus \<Rightarrow> string \<times> string \<times> int" where
  "errorCode status =
     (case status of
        TransferExceedsCredits \<Rightarrow>
          (''insufficient_funds'', ''the debit account has insufficient available funds'', 422)
      | TransferExceedsDebits \<Rightarrow>
          (''insufficient_funds'', ''the debit account has insufficient available funds'', 422)
      | TransferDebitAccountNotFound \<Rightarrow>
          (''account_not_found'', ''one or more ledger accounts do not exist'', 404)
      | TransferCreditAccountNotFound \<Rightarrow>
          (''account_not_found'', ''one or more ledger accounts do not exist'', 404)
      | TransferIDAlreadyFailed \<Rightarrow>
          (''previous_attempt_failed'',
           ''this transfer ID was previously rejected and cannot produce a different outcome'', 409)
      | _ \<Rightarrow>
          (''ledger_invariant_violation'', ''the transfer violated an internal ledger recipe'', 500))"

section \<open>What the service guarantees\<close>

text \<open>
  The role of an account is the metadata of the account that exists under an ID.  The service
  caches only roles, creates only recognised accounts whose parent is a corporate wallet, and
  submits only transfers that are entries of the journal table in \<open>docs/ledger-model.md\<close>.
\<close>

definition account_role :: "SDK \<Rightarrow> Service \<Rightarrow> ledger_view \<Rightarrow> uint128 \<Rightarrow> accountMetadata option" where
  "account_role sdk s K i = Option.bind (view_accounts K i) (metadataForAccount sdk s)"

definition has_role :: "SDK \<Rightarrow> Service \<Rightarrow> ledger_view \<Rightarrow> uint128 \<Rightarrow> AccountKind \<Rightarrow> bool" where
  "has_role sdk s K i kind \<longleftrightarrow> (\<exists>m. account_role sdk s K i = Some m \<and> meta_kind m = kind)"

definition linked_card :: "SDK \<Rightarrow> Service \<Rightarrow> ledger_view \<Rightarrow> uint128 \<Rightarrow> uint128 \<Rightarrow> bool" where
  "linked_card sdk s K cardAccount corporate \<longleftrightarrow>
     account_role sdk s K cardAccount =
       Some \<lparr>meta_kind = AccountCardWallet, meta_corporateAccountID = corporate\<rparr> \<and>
     has_role sdk s K corporate AccountCorporateWallet"

definition account_allowed :: "SDK \<Rightarrow> Service \<Rightarrow> ledger_view \<Rightarrow> Account \<Rightarrow> bool" where
  "account_allowed sdk s K a \<longleftrightarrow>
     (\<exists>m. metadataForAccount sdk s a = Some m \<and>
        (meta_kind m = AccountCardWallet \<longrightarrow>
           has_role sdk s K (meta_corporateAccountID m) AccountCorporateWallet))"

text \<open>A posted transfer carries no hold data; a hold is pending and within the risk limit.\<close>

definition posted_entry :: "Transfer \<Rightarrow> bool" where
  "posted_entry t \<longleftrightarrow> Transfer_Flags t = 0 \<and> Transfer_Timeout t = 0 \<and> Transfer_UserData128 t = 0 \<and>
     Transfer_UserData64 t = 0 \<and> Transfer_UserData32 t = 0"

definition hold_entry :: "SDK \<Rightarrow> Service \<Rightarrow> ledger_view \<Rightarrow> Transfer \<Rightarrow> bool" where
  "hold_entry sdk s K t \<longleftrightarrow>
     Transfer_Flags t = TransferFlags_ToUint16 sdk \<lparr>Pending = True\<rparr> \<and>
     has_role sdk s K (Transfer_DebitAccountID t) AccountCardWallet \<and>
     Transfer_CreditAccountID t = CardSettlementPayableAccountID sdk \<and>
     uint (Transfer_Amount t) \<le> uint (Service_riskLimitCents s)"

definition journal_entry :: "SDK \<Rightarrow> Service \<Rightarrow> ledger_view \<Rightarrow> Transfer \<Rightarrow> bool" where
  "journal_entry sdk s K t \<longleftrightarrow>
     Transfer_ID t \<noteq> 0 \<and> Transfer_ID t \<noteq> - 1 \<and> Transfer_Ledger t = Service_ledgerID s \<and>
     Transfer_PendingID t = 0 \<and> 0 < uint (Transfer_Amount t) \<and> uint (Transfer_Amount t) < 2 ^ 64 \<and>
     (Transfer_Code t = 1001 \<and> posted_entry t \<and>
        Transfer_DebitAccountID t = SafeguardedCashAccountID sdk \<and>
        has_role sdk s K (Transfer_CreditAccountID t) AccountCorporateWallet
    \<or> Transfer_Code t = 1002 \<and> posted_entry t \<and>
        has_role sdk s K (Transfer_DebitAccountID t) AccountCorporateWallet \<and>
        Transfer_CreditAccountID t = SafeguardedCashAccountID sdk
    \<or> Transfer_Code t = 1201 \<and> posted_entry t \<and>
        linked_card sdk s K (Transfer_CreditAccountID t) (Transfer_DebitAccountID t)
    \<or> Transfer_Code t = 1202 \<and> posted_entry t \<and>
        linked_card sdk s K (Transfer_DebitAccountID t) (Transfer_CreditAccountID t)
    \<or> Transfer_Code t = 1101 \<and> hold_entry sdk s K t \<and> Transfer_UserData128 t = Transfer_ID t \<and>
        Transfer_Timeout t = word_of_int (Service_authorizationTimeout s sdiv second)
    \<or> Transfer_Code t = 1102 \<and> hold_entry sdk s K t \<and>
        Transfer_UserData128 t \<noteq> Transfer_ID t \<and>
        (\<exists>original. view_transfers K (Transfer_UserData128 t) = Some original \<and>
           Transfer_Code original = 1101 \<and> Transfer_Flags original = Transfer_Flags t \<and>
           Transfer_DebitAccountID original = Transfer_DebitAccountID t \<and>
           Transfer_CreditAccountID original = Transfer_CreditAccountID t \<and>
           Transfer_UserData64 original = Transfer_UserData64 t \<and>
           Transfer_UserData32 original = Transfer_UserData32 t \<and>
           Transfer_Timeout t \<le> Transfer_Timeout original))"

definition service_guar :: "SDK \<Rightarrow> Service \<Rightarrow> guarantee" where
  "service_guar sdk s =
     \<lparr>guar_account = account_allowed sdk s, guar_transfer = journal_entry sdk s,
      guar_cache = (\<lambda>K i m. account_role sdk s K i = Some m)\<rparr>"

text \<open>What a successful or conflicting answer of each account operation says of the ledger.\<close>

definition CreateAccount_post ::
  "SDK \<Rightarrow> Service \<Rightarrow> CreateAccountRequest \<Rightarrow> Error + AccountResponse \<times> int \<Rightarrow> ledger_view \<Rightarrow> bool" where
  "CreateAccount_post sdk s request r K \<longleftrightarrow>
     (case r of
        Inl e \<Rightarrow> errors_Is e ErrIdempotencyConflict \<longrightarrow>
          (\<exists>i a. accountID sdk ''account_id'' (CreateAccount_AccountID request) = Inr i \<and>
             view_accounts K i = Some a \<and>
             (\<forall>m. metadataForAccount sdk s a = Some m \<longrightarrow> meta_kind m \<noteq> CreateAccount_Kind request \<or>
                (meta_kind m = AccountCardWallet \<and>
                 accountID sdk ''corporate_account_id'' (CreateAccount_CorporateAccountID request)
                   \<noteq> Inr (meta_corporateAccountID m))))
      | Inr (resp, status) \<Rightarrow>
          (\<exists>i a m. accountID sdk ''account_id'' (CreateAccount_AccountID request) = Inr i \<and>
             AccountResp_AccountID resp = Uint128_String sdk i \<and>
             view_accounts K i = Some a \<and> Account_Timestamp a = AccountResp_Timestamp resp \<and>
             metadataForAccount sdk s a = Some m \<and> meta_kind m = CreateAccount_Kind request \<and>
             AccountResp_Kind resp = meta_kind m \<and>
             AccountResp_CorporateAccountID resp = publicID sdk (meta_corporateAccountID m) \<and>
             (if meta_kind m = AccountCardWallet
              then accountID sdk ''corporate_account_id'' (CreateAccount_CorporateAccountID request) =
                     Inr (meta_corporateAccountID m) \<and> linked_card sdk s K i (meta_corporateAccountID m)
              else meta_kind m = AccountCorporateWallet \<and> meta_corporateAccountID m = 0)) \<and>
          (AccountResp_Status resp = ''created'' \<and> status = 201 \<or>
           AccountResp_Status resp = ''exists'' \<and> status = 200))"

definition EnsureSystemAccounts_post ::
  "SDK \<Rightarrow> Service \<Rightarrow> Error + unit \<Rightarrow> ledger_view \<Rightarrow> bool" where
  "EnsureSystemAccounts_post sdk s r K \<longleftrightarrow>
     (r = Inr () \<longrightarrow>
        has_role sdk s K (SafeguardedCashAccountID sdk) AccountSafeguardedCash \<and>
        has_role sdk s K (CardSettlementPayableAccountID sdk) AccountCardSettlementPayable)"

lemma service_guar_simps [simp]:
  "guar_account (service_guar sdk s) = account_allowed sdk s"
  "guar_transfer (service_guar sdk s) = journal_entry sdk s"
  "guar_cache (service_guar sdk s) K i m \<longleftrightarrow> account_role sdk s K i = Some m"
  by (simp_all add: service_guar_def)

section \<open>Roles\<close>

lemma account_role_grows:
  "grows K K' \<Longrightarrow> account_role sdk s K i = Some m \<Longrightarrow> account_role sdk s K' i = Some m"
  by (auto simp: account_role_def bind_eq_Some_conv dest: grows_account)

lemma has_role_grows: "grows K K' \<Longrightarrow> has_role sdk s K i k \<Longrightarrow> has_role sdk s K' i k"
  unfolding has_role_def using account_role_grows by blast

lemma linked_card_grows: "grows K K' \<Longrightarrow> linked_card sdk s K i j \<Longrightarrow> linked_card sdk s K' i j"
  by (simp add: linked_card_def account_role_grows has_role_grows)

lemma journal_entry_grows:
  "grows K K' \<Longrightarrow> journal_entry sdk s K t \<Longrightarrow> journal_entry sdk s K' t"
  unfolding journal_entry_def hold_entry_def
  by (elim conjE disjE exE; simp add: has_role_grows linked_card_grows; blast dest: grows_transfer)

lemma metadataForAccount_cong:
  assumes "Account_ID a = Account_ID b" "Account_UserData128 a = Account_UserData128 b"
    "Account_UserData64 a = Account_UserData64 b" "Account_UserData32 a = Account_UserData32 b"
    "Account_Ledger a = Account_Ledger b" "Account_Code a = Account_Code b"
    "Account_Flags a = Account_Flags b"
  shows "metadataForAccount sdk s a = metadataForAccount sdk s b"
  by (simp only: metadataForAccount_def accountKind_def assms)

lemma metadataForAccount_meta [simp]:
  "metadataForAccount sdk s (account_meta a) = metadataForAccount sdk s a"
  "metadataForAccount sdk s (a\<lparr>Account_Timestamp := ts\<rparr>) = metadataForAccount sdk s a"
  by (rule metadataForAccount_cong; simp)+

lemma journal_entry_timestamp [simp]:
  "journal_entry sdk s K (t\<lparr>Transfer_Timestamp := ts\<rparr>) = journal_entry sdk s K t"
  by (simp add: journal_entry_def hold_entry_def posted_entry_def)

lemma account_allowed_grows:
  "grows K K' \<Longrightarrow> account_allowed sdk s K a \<Longrightarrow> account_allowed sdk s K' a"
  unfolding account_allowed_def using has_role_grows by blast

lemma account_allowed_meta [simp]:
  "account_allowed sdk s K ((account_meta a)\<lparr>Account_Timestamp := ts\<rparr>) = account_allowed sdk s K a"
  by (simp add: account_allowed_def)

lemma stable_service_guar [simp, intro]: "stable_guar (service_guar sdk s)"
  unfolding stable_guar_def service_guar_simps journal_entry_timestamp account_allowed_meta
  using journal_entry_grows account_allowed_grows account_role_grows by blast

section \<open>Observed calls\<close>

lemma observed_LookupAccount_wp:
  "wp G (observed_LookupAccount s i)
     (\<lambda>r K'. \<exists>K1. grows K K1 \<and> grows K1 K' \<and> account_lookup_law i r K1) K"
  by (simp add: observed_LookupAccount_def observed_call_def) (meson grows_trans)

lemma observed_LookupTransfer_wp:
  "wp G (observed_LookupTransfer s i)
     (\<lambda>r K'. \<exists>K1. grows K K1 \<and> grows K1 K' \<and> transfer_lookup_law i r K1) K"
  by (simp add: observed_LookupTransfer_def observed_call_def) (meson grows_trans)

lemma observed_CreateAccount_wp:
  assumes "view_ok K" "stable_guar G" "guar_account G K a"
  shows "wp G (observed_CreateAccount s a) (account_outcome a) K"
proof -
  have "account_outcome a r K3"
    if "grows K K0" "grows K0 K1" "account_law a r K0 K1" "grows K1 K2" "grows K2 K3" for K0 K1 K2 K3 r
    using that by (meson account_outcome_grows account_outcome_law grows_ok)
  moreover have "guar_account G K' a" if "grows K K'" for K'
    using that assms stable_guar_mono(1) by blast
  ultimately show ?thesis
    by (simp add: observed_CreateAccount_def observed_call_def) (meson grows_trans)
qed

lemma observed_CreateTransfer_wp:
  assumes "view_ok K" "stable_guar G" "guar_transfer G K t"
  shows "wp G (observed_CreateTransfer s t) (\<lambda>r K'. transfer_outcome t r K' \<and> transfer_known K t r) K"
proof -
  have "transfer_outcome t r K3 \<and> transfer_known K t r"
    if "grows K K0" "grows K0 K1" "transfer_law t r K0 K1" "grows K1 K2" "grows K2 K3" for K0 K1 K2 K3 r
    using that by (meson transfer_outcome_grows transfer_outcome_law transfer_known_law grows_ok)
  moreover have "guar_transfer G K' t" if "grows K K'" for K'
    using that assms stable_guar_mono(2) by blast
  ultimately show ?thesis
    by (simp add: observed_CreateTransfer_def observed_call_def) (meson grows_trans)
qed

lemma rememberAccount_wp:
  "(\<And>m. metadataForAccount sdk s a = Some m \<Longrightarrow> account_role sdk s K (Account_ID a) = Some m) \<Longrightarrow>
   wp (service_guar sdk s) (rememberAccount sdk s a) (\<lambda>_ _. True) K"
  by (auto simp: rememberAccount_def storeMetadata_def split: option.splits)

text \<open>
  \<open>requireAccountKind\<close>, from the cache or from the ledger: a role is granted only if the account
  has it, and refused as not found only if the account did not have it.
\<close>

lemma requireAccountKind_wp:
  assumes ok: "view_ok K"
  shows "wp (service_guar sdk s) (requireAccountKind sdk s i kind)
    (\<lambda>r K'. case r of
       Inl e \<Rightarrow> foreign_error e \<or>
         e = ErrAccountNotFound \<and> (\<exists>K1. grows K K1 \<and> grows K1 K' \<and> \<not> has_role sdk s K1 i kind)
     | Inr m \<Rightarrow> account_role sdk s K' i = Some m \<and> meta_kind m = kind) K"
    (is "wp _ _ ?Q K")
proof -
  have "wp (service_guar sdk s) (attempt (observed_LookupAccount s i) (\<lambda>(account, found).
      (case metadataForAccount sdk s account of
         None \<Rightarrow> fail ErrAccountNotFound
       | Some metadata \<Rightarrow>
           if \<not> found \<or> meta_kind metadata \<noteq> kind then fail ErrAccountNotFound
           else seq (storeMetadata i metadata) (\<lambda>_. Return (Inr metadata))))) ?Q K'"
    if g: "grows K K'" for K'
  proof (rule wp_attempt_bind [OF observed_LookupAccount_wp grows_ok [OF g]])
    fix r :: "Account \<times> bool" and L
    assume "\<exists>K1. grows K' K1 \<and> grows K1 L \<and> account_lookup_law i (Inr r) K1"
    then obtain K1 where K1: "grows K K1" "grows K1 L" "account_lookup_law i (Inr r) K1"
      using g grows_trans by blast
    obtain account found where r: "r = (account, found)" by fastforce
    have role: "account_role sdk s K1 i =
        (if found then metadataForAccount sdk s account else None)"
      using K1(3) r metadataForAccount_meta(1) [of sdk s account]
      by (auto simp: account_lookup_law_def account_role_def split: option.splits)
    have grant: "account_role sdk s L i = Some m" if "account_role sdk s K1 i = Some m" for m
      using K1(2) that by (rule account_role_grows)
    show "wp (service_guar sdk s) (case r of (account, found) \<Rightarrow>
        (case metadataForAccount sdk s account of
           None \<Rightarrow> fail ErrAccountNotFound
         | Some metadata \<Rightarrow>
             if \<not> found \<or> meta_kind metadata \<noteq> kind then fail ErrAccountNotFound
             else seq (storeMetadata i metadata) (\<lambda>_. Return (Inr metadata)))) ?Q L"
      using K1(1,2) role grant account_role_grows
      by (auto simp: r wp_fail has_role_def storeMetadata_def split: option.splits if_splits)
  qed (auto simp: account_lookup_law_def)
  moreover have "(\<exists>K1. grows K K1 \<and> grows K1 K' \<and> \<not> has_role sdk s K1 i kind)"
    if "grows K K'" "account_role sdk s K' i = Some m" "meta_kind m \<noteq> kind" for K' m
    using that by (intro exI [of _ K']) (auto simp: has_role_def)
  ultimately show ?thesis
    by (auto simp: requireAccountKind_def wp_fail split: option.splits)
qed

section \<open>Identifiers and accounts under the laws of the client library\<close>

context tb_sdk
begin

lemma system_IDs [simp]:
  "SafeguardedCashAccountID sdk = 1" "CardSettlementPayableAccountID sdk = 2"
  by (simp_all add: SafeguardedCashAccountID_def CardSettlementPayableAccountID_def ToUint128_ucast)

lemma IsSystemAccountID_iff [simp]: "IsSystemAccountID sdk i \<longleftrightarrow> i = 1 \<or> i = 2"
  by (simp add: IsSystemAccountID_def)

lemma isUint128Max_iff [simp]: "isUint128Max sdk v \<longleftrightarrow> v = - 1"
proof
  assume "isUint128Max sdk v"
  then have byte: "(ucast (drop_bit (8 * i) v) :: byte) = - 1" if "i < 16" for i
    using that by (simp add: isUint128Max_def Bytes_little_endian)
  show "v = - 1"
  proof (rule bit_word_eqI)
    fix n assume "n < LENGTH(128)"
    then have "n div 8 < 16" by (simp add: less_mult_imp_div_less)
    then have "bit (ucast (drop_bit (8 * (n div 8)) v) :: byte) (n mod 8)"
      using byte by simp
    then show "bit v n \<longleftrightarrow> bit (- 1 :: uint128) n"
      using \<open>n < LENGTH(128)\<close> by (simp add: bit_simps)
  qed
next
  assume "v = - 1"
  moreover have "(ucast (drop_bit (8 * i) (- 1 :: uint128)) :: byte) = - 1" if "i < 16" for i
    using that by (auto intro!: bit_word_eqI simp: bit_simps)
  ultimately show "isUint128Max sdk v"
    by (simp add: isUint128Max_def Bytes_little_endian)
qed

lemma parse_Inr: "parsePublicTigerBeetleID sdk v = Inr i \<longleftrightarrow>
    HexStringToUint128 sdk v = Inr i \<and> i \<noteq> 0 \<and> i \<noteq> - 1"
  by (auto simp: parsePublicTigerBeetleID_def split: sum.splits)

lemma requestID_Inr: "requestID sdk v = Inr i \<longleftrightarrow>
    validateExternalID ''request_id'' v = Inr () \<and> HexStringToUint128 sdk v = Inr i \<and>
    i \<noteq> 0 \<and> i \<noteq> - 1"
  by (auto simp: requestID_def parsePublicTigerBeetleID_def split: sum.splits if_splits)

lemma accountID_Inr: "accountID sdk f v = Inr i \<longleftrightarrow>
    validateExternalID f v = Inr () \<and> HexStringToUint128 sdk v = Inr i \<and>
    i \<noteq> 0 \<and> i \<noteq> - 1 \<and> i \<noteq> 1 \<and> i \<noteq> 2"
  by (auto simp: accountID_def parsePublicTigerBeetleID_def Let_def split: sum.splits if_splits)

lemma accountID_Inl [dest]: "accountID sdk f v = Inl e \<Longrightarrow> \<exists>m. e = invalid m"
  by (auto simp: accountID_def validateExternalID_def Let_def split: sum.splits if_splits)

lemma requestID_Inl [dest]: "requestID sdk v = Inl e \<Longrightarrow> \<exists>m. e = invalid m"
  by (auto simp: requestID_def validateExternalID_def split: sum.splits if_splits)

lemma accountID_no_system [dest]:
  "accountID sdk f v = Inr i \<Longrightarrow> i \<noteq> 0 \<and> i \<noteq> - 1 \<and> i \<noteq> 1 \<and> i \<noteq> 2"
  by (simp add: accountID_Inr)

text \<open>
  An account is recognised exactly when it is, up to its balances and timestamp, the account the
  recipe gives for the kind, under the ID reserved for the kind.
\<close>

lemma metadataForAccount_iff:
  "metadataForAccount sdk s a = Some m \<longleftrightarrow>
     ledger_Account sdk (meta_kind m) (Account_ID a) (Account_UserData128 a) (Service_ledgerID s) =
       Inr ((account_meta a)\<lparr>Account_Timestamp := 0\<rparr>) \<and>
     meta_corporateAccountID m = Account_UserData128 a \<and>
     (meta_kind m = AccountSafeguardedCash \<longleftrightarrow> Account_ID a = 1) \<and>
     (meta_kind m = AccountCardSettlementPayable \<longleftrightarrow> Account_ID a = 2)"
    (is "?l = ?r")
proof -
  have kind: "accountKind a = Some k \<longleftrightarrow> AccountKind_Valid k \<and> Account_Code a = chart_code k" for k
    by (auto simp: accountKind_def AccountKind_Valid_def chart_code_def account_code_defs)
  have shape: "(account_meta a)\<lparr>Account_Timestamp := 0\<rparr> =
      zeroAccount\<lparr>Account_ID := Account_ID a, Account_UserData128 := Account_UserData128 a,
        Account_Ledger := l, Account_Code := c, Account_Flags := f\<rparr> \<longleftrightarrow>
      Account_UserData64 a = 0 \<and> Account_UserData32 a = 0 \<and> Account_Ledger a = l \<and>
      Account_Code a = c \<and> Account_Flags a = f" for l c f
    by (cases a) (auto simp: account_meta_def zeroAccount_def)
  have place: "(kind = AccountSafeguardedCash \<and> Account_ID a \<noteq> 1 \<or>
      kind = AccountCardSettlementPayable \<and> Account_ID a \<noteq> 2 \<or>
      (kind = AccountCorporateWallet \<or> kind = AccountCardWallet) \<and> (Account_ID a = 1 \<or> Account_ID a = 2))
      \<longleftrightarrow> \<not> ((kind = AccountSafeguardedCash \<longleftrightarrow> Account_ID a = 1) \<and>
        (kind = AccountCardSettlementPayable \<longleftrightarrow> Account_ID a = 2))" if "AccountKind_Valid kind" for kind
    using that by (auto simp: AccountKind_Valid_def)
  have "?l \<longleftrightarrow> accountKind a = Some (meta_kind m) \<and> Account_Ledger a = Service_ledgerID s \<and>
      ((meta_kind m = AccountSafeguardedCash \<longleftrightarrow> Account_ID a = 1) \<and>
       (meta_kind m = AccountCardSettlementPayable \<longleftrightarrow> Account_ID a = 2)) \<and>
      (\<exists>expected. ledger_Account sdk (meta_kind m) (Account_ID a) (Account_UserData128 a)
         (Service_ledgerID s) = Inr expected \<and> Account_Flags a = Account_Flags expected) \<and>
      Account_UserData64 a = 0 \<and> Account_UserData32 a = 0 \<and>
      meta_corporateAccountID m = Account_UserData128 a"
  proof (cases "accountKind a")
    case None
    then show ?thesis by (simp add: metadataForAccount_def)
  next
    case (Some k)
    define placed where "placed \<longleftrightarrow> (k = AccountSafeguardedCash \<longleftrightarrow> Account_ID a = 1) \<and>
        (k = AccountCardSettlementPayable \<longleftrightarrow> Account_ID a = 2)"
    have "AccountKind_Valid k" using Some kind by blast
    then have "?l \<longleftrightarrow> Account_Ledger a = Service_ledgerID s \<and> placed \<and>
        (\<exists>expected. ledger_Account sdk k (Account_ID a) (Account_UserData128 a)
           (Service_ledgerID s) = Inr expected \<and> Account_Flags a = Account_Flags expected) \<and>
        Account_UserData64 a = 0 \<and> Account_UserData32 a = 0 \<and>
        m = \<lparr>meta_kind = k, meta_corporateAccountID = Account_UserData128 a\<rparr>"
      unfolding metadataForAccount_def system_IDs IsSystemAccountID_iff Some option.case
        place [OF \<open>AccountKind_Valid k\<close>, folded placed_def]
      by (auto split: sum.splits)
    then show ?thesis
      unfolding Some placed_def by (cases m) auto
  qed
  also have "\<dots> \<longleftrightarrow> ?r"
    unfolding kind ledger_Account_Inr shape by (simp add: zeroAccount_def) blast
  finally show ?thesis .
qed

lemma recipe_recognised:
  assumes "ledger_Account sdk k i c (Service_ledgerID s) = Inr a"
    "k = AccountSafeguardedCash \<longleftrightarrow> i = 1" "k = AccountCardSettlementPayable \<longleftrightarrow> i = 2"
  shows "metadataForAccount sdk s a = Some \<lparr>meta_kind = k, meta_corporateAccountID = c\<rparr>"
    and "Account_ID a = i" and "account_meta a = a" and "Account_Timestamp a = 0"
proof -
  from assms(1) have a: "Account_ID a = i" "Account_UserData128 a = c"
    "(account_meta a)\<lparr>Account_Timestamp := 0\<rparr> = a" "account_meta a = a" "Account_Timestamp a = 0"
    by (auto simp: ledger_Account_Inr zeroAccount_def account_meta_def)
  with assms show "metadataForAccount sdk s a = Some \<lparr>meta_kind = k, meta_corporateAccountID = c\<rparr>"
    by (simp add: metadataForAccount_iff)
  show "Account_ID a = i" "account_meta a = a" "Account_Timestamp a = 0"
    using a by auto
qed

lemma outcome_role:
  assumes a: "metadataForAccount sdk s a = Some m"
    and "account_outcome a (Inr res) K"
    and "AccountResult_Status res = AccountCreated \<or> AccountResult_Status res = AccountExists"
  shows "account_role sdk s K (Account_ID a) = Some m"
  using assms by (auto simp: account_outcome_def account_role_def)

lemma rememberAccount_created_wp:
  assumes "metadataForAccount sdk s a = Some m" "account_outcome a (Inr res) K"
    "AccountResult_Status res = AccountCreated \<or> AccountResult_Status res = AccountExists"
    and "\<And>K'. grows K K' \<Longrightarrow> wp (service_guar sdk s) p Q K'" "view_ok K"
  shows "wp (service_guar sdk s) (seq (rememberAccount sdk s a) (\<lambda>_. p)) Q K"
  by (rule wp_bind [OF rememberAccount_wp]) (use assms outcome_role in auto)

lemma ensureAccounts_wp:
  assumes "view_ok K" "\<And>k i. (k, i) \<in> set xs \<Longrightarrow>
    (k = AccountSafeguardedCash \<longleftrightarrow> i = 1) \<and> (k = AccountCardSettlementPayable \<longleftrightarrow> i = 2) \<and>
    k \<noteq> AccountCardWallet"
  shows "wp (service_guar sdk s) (ensureAccounts sdk s xs)
    (\<lambda>r K'. r = Inr () \<longrightarrow> (\<forall>(k, i) \<in> set xs. has_role sdk s K' i k)) K"
  using assms
proof (induction xs arbitrary: K)
  case Nil
  then show ?case by simp
next
  case (Cons x xs)
  obtain k i where x: "x = (k, i)" by fastforce
  let ?G = "service_guar sdk s"
  let ?Q = "\<lambda>r K'. r = Inr () \<longrightarrow> (\<forall>(k, i) \<in> set (x # xs). has_role sdk s K' i k)"
  show ?case
  proof (cases "ledger_Account sdk k i 0 (Service_ledgerID s)")
    case (Inl e)
    then show ?thesis by (simp add: x wp_check)
  next
    case (Inr a)
    note a = recipe_recognised [OF Inr]
    have meta: "metadataForAccount sdk s a = Some \<lparr>meta_kind = k, meta_corporateAccountID = 0\<rparr>"
      using a(1) Cons.prems(2) [of k i] x by simp
    have ID: "Account_ID a = i"
      using Inr by (auto simp: ledger_Account_Inr)
    have allowed: "account_allowed sdk s K a"
      using meta Cons.prems(2) [of k i] x by (auto simp: account_allowed_def)
    have "wp ?G (if AccountResult_Status r \<noteq> AccountCreated \<and> AccountResult_Status r \<noteq> AccountExists
        then fail (NewError (''provision '' @ k @ '' account: '' @
          CreateAccountStatus_String sdk (AccountResult_Status r)))
        else seq (rememberAccount sdk s a) (\<lambda>_. ensureAccounts sdk s xs)) ?Q K1"
      if "account_outcome a (Inr r) K1" "grows K K1" for r K1
    proof (cases "AccountResult_Status r = AccountCreated \<or> AccountResult_Status r = AccountExists")
      case True
      have role: "has_role sdk s K1 i k"
        using outcome_role [OF meta that(1) True] ID by (simp add: has_role_def)
      have "wp ?G (ensureAccounts sdk s xs) ?Q K2" if g: "grows K1 K2" for K2
      proof (rule wp_consequence [OF Cons.IH])
        show "view_ok K2" "view_ok K2" using g by auto
        show "?Q r K3" if "r = Inr () \<longrightarrow> (\<forall>(k, i) \<in> set xs. has_role sdk s K3 i k)" "grows K2 K3"
          for r K3
          using that has_role_grows [OF grows_trans [OF g that(2)] role] x by simp
      qed (rule Cons.prems(2), simp)
      then show ?thesis
        using rememberAccount_created_wp [OF meta that(1) True] that(2) True by auto
    qed (simp add: wp_fail)
    then show ?thesis
      unfolding x ensureAccounts.simps Inr wp_check sum.case
      by (intro wp_attempt_bind [OF observed_CreateAccount_wp])
        (use Cons.prems(1) allowed x in auto)
  qed
qed

lemma EnsureSystemAccounts_wp:
  assumes "view_ok K"
  shows "wp (service_guar sdk s) (EnsureSystemAccounts sdk s) (EnsureSystemAccounts_post sdk s) K"
  unfolding EnsureSystemAccounts_def
  by (rule wp_consequence [OF ensureAccounts_wp])
    (use assms in \<open>auto simp: EnsureSystemAccounts_post_def\<close>)

lemma CreateAccount_parent_wp:
  assumes "view_ok K" "CreateAccount_Kind request \<in> {AccountCorporateWallet, AccountCardWallet}"
  shows "wp (service_guar sdk s) (CreateAccount_parent sdk s request i)
    (\<lambda>r K'. case r of
       Inl e \<Rightarrow> \<not> errors_Is e ErrIdempotencyConflict
     | Inr c \<Rightarrow>
         if CreateAccount_Kind request = AccountCardWallet
         then accountID sdk ''corporate_account_id'' (CreateAccount_CorporateAccountID request) = Inr c \<and>
              has_role sdk s K' c AccountCorporateWallet
         else c = 0) K"
    (is "wp _ _ ?Q K")
proof (cases "CreateAccount_Kind request = AccountCardWallet")
  case True
  have "wp (service_guar sdk s) (attempt (requireAccountKind sdk s c AccountCorporateWallet)
      (\<lambda>_. Return (Inr c))) ?Q K"
    if "accountID sdk ''corporate_account_id'' (CreateAccount_CorporateAccountID request) = Inr c" for c
    by (rule wp_attempt_bind [OF requireAccountKind_wp])
      (use assms True that in \<open>auto simp: foreign_error_def has_role_def\<close>)
  with True show ?thesis
    by (auto simp: CreateAccount_parent_def wp_check wp_fail split: sum.splits)
qed (auto simp: CreateAccount_parent_def wp_fail)

text \<open>
  The two answers of \<open>CreateAccount_submit\<close>, for the account \<open>a\<close> the recipe built: another account under
  the ID is a genuine conflict, and an accepted account is there to stay.
\<close>

lemma CreateAccount_conflict:
  assumes recipe: "ledger_Account sdk (CreateAccount_Kind request) i c (Service_ledgerID s) = Inr a"
    and i: "accountID sdk ''account_id'' (CreateAccount_AccountID request) = Inr i"
    and c: "if CreateAccount_Kind request = AccountCardWallet
         then accountID sdk ''corporate_account_id'' (CreateAccount_CorporateAccountID request) = Inr c
         else c = 0"
    and out: "account_outcome a (Inr r) K" "account_differs (AccountResult_Status r)" and K: "view_ok K"
  shows "CreateAccount_post sdk s request (Inl ErrIdempotencyConflict) K"
proof -
  have a: "Account_ID a = i" "account_meta a = a"
    using recipe by (auto simp: ledger_Account_Inr zeroAccount_def account_meta_def)
  from out obtain a0 where a0: "view_accounts K i = Some a0" "\<not> same_account a0 a"
    by (auto simp: account_outcome_def a(1) split: if_splits)
  have "meta_kind m \<noteq> CreateAccount_Kind request \<or> meta_kind m = AccountCardWallet \<and>
      accountID sdk ''corporate_account_id'' (CreateAccount_CorporateAccountID request)
        \<noteq> Inr (meta_corporateAccountID m)" if m: "metadataForAccount sdk s a0 = Some m" for m
  proof (rule ccontr)
    assume neg: "\<not> ?thesis"
    have "Account_ID a0 = i" using a0(1) K by (simp add: view_ok_def)
    moreover have "meta_corporateAccountID m = c"
      using neg m c by (auto simp: metadataForAccount_iff ledger_Account_Inr split: if_splits)
    ultimately show False
      using m neg a0(2) recipe a(2) by (auto simp: metadataForAccount_iff same_account_def)
  qed
  with a0(1) i show ?thesis
    by (auto simp: CreateAccount_post_def)
qed

lemma CreateAccount_success:
  assumes a: "metadataForAccount sdk s a = Some \<lparr>meta_kind = CreateAccount_Kind request, meta_corporateAccountID = c\<rparr>"
      "Account_ID a = i" "account_meta a = a"
    and kind: "CreateAccount_Kind request \<in> {AccountCorporateWallet, AccountCardWallet}"
    and i: "accountID sdk ''account_id'' (CreateAccount_AccountID request) = Inr i"
    and c: "if CreateAccount_Kind request = AccountCardWallet
         then accountID sdk ''corporate_account_id'' (CreateAccount_CorporateAccountID request) = Inr c \<and>
              has_role sdk s K c AccountCorporateWallet
         else c = 0"
    and out: "account_outcome a (Inr r) K'" and g: "grows K K'" "grows K' K''"
    and st: "st = ''created'' \<and> n = 201 \<or> st = ''exists'' \<and> n = 200"
      "AccountResult_Status r = AccountCreated \<or> AccountResult_Status r = AccountExists"
  shows "CreateAccount_post sdk s request (Inr (\<lparr>AccountResp_AccountID = Uint128_String sdk (Account_ID a),
      AccountResp_Kind = CreateAccount_Kind request, AccountResp_CorporateAccountID = publicID sdk c,
      AccountResp_Status = st, AccountResp_Timestamp = AccountResult_Timestamp r\<rparr>, n)) K''"
proof -
  have view: "view_accounts K'' i = Some (a\<lparr>Account_Timestamp := AccountResult_Timestamp r\<rparr>)"
    using account_outcome_grows [OF g(2) out] st a by (auto simp: account_outcome_def)
  have "has_role sdk s K'' c AccountCorporateWallet" if "CreateAccount_Kind request = AccountCardWallet"
    using c that has_role_grows [OF grows_trans [OF g]] by simp
  with view i c st(1) a kind show ?thesis
    by (auto simp: CreateAccount_post_def linked_card_def account_role_def)
qed

lemma CreateAccount_submit_wp:
  assumes ok: "view_ok K" and kind: "CreateAccount_Kind request \<in> {AccountCorporateWallet, AccountCardWallet}"
    and i: "accountID sdk ''account_id'' (CreateAccount_AccountID request) = Inr i"
    and c: "if CreateAccount_Kind request = AccountCardWallet
         then accountID sdk ''corporate_account_id'' (CreateAccount_CorporateAccountID request) = Inr c \<and>
              has_role sdk s K c AccountCorporateWallet
         else c = 0"
  shows "wp (service_guar sdk s) (CreateAccount_submit sdk s request i c) (CreateAccount_post sdk s request) K"
proof (cases "ledger_Account sdk (CreateAccount_Kind request) i c (Service_ledgerID s)")
  case (Inl e)
  then have "\<not> errors_Is e ErrIdempotencyConflict"
    by (auto simp: ledger_Account_def Let_def split: if_splits)
  with Inl show ?thesis
    by (simp add: CreateAccount_submit_def wp_check CreateAccount_post_def)
next
  case (Inr a)
  have a: "metadataForAccount sdk s a = Some \<lparr>meta_kind = CreateAccount_Kind request, meta_corporateAccountID = c\<rparr>"
      "Account_ID a = i" "account_meta a = a"
    using recipe_recognised [OF Inr] accountID_no_system [OF i] kind by auto
  have allowed: "account_allowed sdk s K a"
    using a(1) c by (auto simp: account_allowed_def)
  have conflict: "CreateAccount_post sdk s request (Inl ErrIdempotencyConflict) K'"
    if "account_outcome a (Inr r) K'" "isAccountIdempotencyConflict (AccountResult_Status r)" "view_ok K'" for r K'
    using that c by (intro CreateAccount_conflict [OF Inr i]) (auto simp: isAccountIdempotencyConflict_def split: if_splits)
  have done_wp: "wp (service_guar sdk s) (seq (rememberAccount sdk s a) (\<lambda>_.
      Return (Inr (\<lparr>AccountResp_AccountID = Uint128_String sdk (Account_ID a),
        AccountResp_Kind = CreateAccount_Kind request, AccountResp_CorporateAccountID = publicID sdk c,
        AccountResp_Status = st, AccountResp_Timestamp = AccountResult_Timestamp r\<rparr>, n))))
      (CreateAccount_post sdk s request) K'"
    if "account_outcome a (Inr r) K'" "grows K K'"
      "st = ''created'' \<and> n = 201 \<or> st = ''exists'' \<and> n = 200"
      "AccountResult_Status r = AccountCreated \<or> AccountResult_Status r = AccountExists" for r st n K'
    by (rule rememberAccount_created_wp [OF a(1) that(1) that(4)])
      (use that CreateAccount_success [OF a kind i c] in auto)
  have other: "CreateAccount_post sdk s request (Inl (NewError m)) K'" for m K'
    by (simp add: CreateAccount_post_def)
  show ?thesis
    unfolding CreateAccount_submit_def Inr wp_check sum.case
  proof (rule wp_attempt_bind [OF observed_CreateAccount_wp])
    show "CreateAccount_post sdk s request (Inl e) K'" if "account_outcome a (Inl e) K'" for e K'
      using that by (auto simp: account_outcome_def CreateAccount_post_def foreign_error_def)
  qed (use ok allowed done_wp conflict other in \<open>auto simp: Let_def wp_fail\<close>)
qed

lemma CreateAccount_wp:
  assumes "view_ok K"
  shows "wp (service_guar sdk s) (CreateAccount sdk s request) (CreateAccount_post sdk s request) K"
proof -
  have "wp (service_guar sdk s) (attempt (CreateAccount_parent sdk s request i)
      (\<lambda>c. CreateAccount_submit sdk s request i c)) (CreateAccount_post sdk s request) K"
    if "accountID sdk ''account_id'' (CreateAccount_AccountID request) = Inr i"
      "CreateAccount_Kind request \<in> {AccountCorporateWallet, AccountCardWallet}" for i
  proof (rule wp_attempt_bind [OF CreateAccount_parent_wp [OF assms that(2)] assms])
    fix c K'
    assume "case Inr c of Inl e \<Rightarrow> \<not> errors_Is e ErrIdempotencyConflict
      | Inr c \<Rightarrow> if CreateAccount_Kind request = AccountCardWallet
         then accountID sdk ''corporate_account_id'' (CreateAccount_CorporateAccountID request) = Inr c \<and>
              has_role sdk s K' c AccountCorporateWallet
         else c = 0" "grows K K'"
    then show "wp (service_guar sdk s) (CreateAccount_submit sdk s request i c)
        (CreateAccount_post sdk s request) K'"
      using CreateAccount_submit_wp [OF _ that(2,1)] by (simp add: grows_ok)
  qed (simp add: CreateAccount_post_def)
  moreover have "CreateAccount_post sdk s request (Inl (invalid m)) K" for m
    by (simp add: CreateAccount_post_def)
  ultimately show ?thesis
    by (auto simp: CreateAccount_def wp_check wp_fail split: sum.splits)
qed

end

end
