(* ===== verification/Sha256.thy ===== *)
theory Sha256
  imports Go_Base
begin

text \<open>
  The part of Go's \<open>crypto/sha256\<close> and \<open>encoding/binary\<close> behind \<open>merchantFingerprint\<close>: SHA-256 as
  FIPS 180-4 defines it, on bytes, and the little-endian readers.
\<close>

unbundle bit_operations_syntax

definition rotr :: "nat \<Rightarrow> uint32 \<Rightarrow> uint32" where
  "rotr n x = drop_bit n x OR push_bit (32 - n) x"

text \<open>
  The constants are defined by the rule the standard gives for them: the first 32 bits of the
  fractional parts of the cube roots of the first 64 primes, and of the square roots of the first
  eight.  \<open>root_bits k n b r\<close> decides the lowest \<open>b\<close> bits of the \<open>k\<close>-th root of \<open>n\<close>, from the top.
\<close>

fun root_bits :: "nat \<Rightarrow> int \<Rightarrow> nat \<Rightarrow> int \<Rightarrow> int" where
  "root_bits k n 0 r = r"
| "root_bits k n (Suc b) r = root_bits k n b (if (r + 2 ^ b) ^ k \<le> n then r + 2 ^ b else r)"

definition root_fraction :: "nat \<Rightarrow> int \<Rightarrow> uint32" where
  "root_fraction k p = word_of_int (root_bits k (p * 2 ^ (32 * k)) 36 0)"

definition sha_primes :: "int list" where
  "sha_primes = filter (\<lambda>p. \<forall>d \<in> set [2..p - 1]. \<not> d dvd p) [2..311]"

definition sha_K :: "uint32 list" where
  "sha_K = map (root_fraction 3) sha_primes"

type_synonym sha_state =
  "uint32 \<times> uint32 \<times> uint32 \<times> uint32 \<times> uint32 \<times> uint32 \<times> uint32 \<times> uint32"

definition sha_init :: sha_state where
  "sha_init =
     (let h = root_fraction 2 in (h 2, h 3, h 5, h 7, h 11, h 13, h 17, h 19))"

text \<open>The message: a one bit, zeros, and the length in bits, to a multiple of 64 bytes.\<close>

definition be_bytes :: "uint64 \<Rightarrow> byte list" where
  "be_bytes n = map (\<lambda>i. ucast (drop_bit (56 - 8 * i) n)) [0..<8]"

definition sha_pad :: "byte list \<Rightarrow> byte list" where
  "sha_pad m = m @ 0x80 # replicate ((119 - length m mod 64) mod 64) 0 @ be_bytes (8 * of_nat (length m))"

fun be_words :: "byte list \<Rightarrow> uint32 list" where
  "be_words (a # b # c # d # rest) =
     (push_bit 24 (ucast a) OR push_bit 16 (ucast b) OR push_bit 8 (ucast c) OR ucast d) #
     be_words rest"
| "be_words _ = []"

text \<open>The message schedule, as the list of its last sixteen words, oldest first.\<close>

definition schedule_next :: "uint32 list \<Rightarrow> uint32" where
  "schedule_next ws =
     (let w15 = ws ! 1; w2 = ws ! 14 in
      (rotr 17 w2 XOR rotr 19 w2 XOR drop_bit 10 w2) + ws ! 9 +
      (rotr 7 w15 XOR rotr 18 w15 XOR drop_bit 3 w15) + ws ! 0)"

definition sha_round :: "uint32 \<Rightarrow> uint32 \<Rightarrow> sha_state \<Rightarrow> sha_state" where
  "sha_round k w st =
     (case st of (a, b, c, d, e, f, g, h) \<Rightarrow>
        let t1 = h + (rotr 6 e XOR rotr 11 e XOR rotr 25 e) + ((e AND f) XOR (NOT e AND g)) + k + w;
            t2 = (rotr 2 a XOR rotr 13 a XOR rotr 22 a) + ((a AND b) XOR (a AND c) XOR (b AND c))
        in (t1 + t2, a, b, c, d + t1, e, f, g))"

fun sha_rounds :: "uint32 list \<Rightarrow> uint32 list \<Rightarrow> sha_state \<Rightarrow> sha_state" where
  "sha_rounds [] ws st = st"
| "sha_rounds (k # ks) ws st =
     sha_rounds ks (tl ws @ [schedule_next ws]) (sha_round k (hd ws) st)"

definition sha_add :: "sha_state \<Rightarrow> sha_state \<Rightarrow> sha_state" where
  "sha_add x y =
     (case x of (a, b, c, d, e, f, g, h) \<Rightarrow> case y of (a', b', c', d', e', f', g', h') \<Rightarrow>
        (a + a', b + b', c + c', d + d', e + e', f + f', g + g', h + h'))"

text \<open>One block after the other; the fuel is the number of blocks.\<close>

primrec sha_blocks :: "nat \<Rightarrow> uint32 list \<Rightarrow> sha_state \<Rightarrow> sha_state" where
  "sha_blocks 0 ws st = st"
| "sha_blocks (Suc n) ws st =
     sha_blocks n (drop 16 ws) (sha_add st (sha_rounds sha_K (take 16 ws) st))"

definition word_bytes :: "uint32 \<Rightarrow> byte list" where
  "word_bytes w = [ucast (drop_bit 24 w), ucast (drop_bit 16 w), ucast (drop_bit 8 w), ucast w]"

definition sha256_Sum256 :: "byte list \<Rightarrow> byte list" where
  "sha256_Sum256 m =
     (let p = sha_pad m in
      case sha_blocks (length p div 64) (be_words p) sha_init of (a, b, c, d, e, f, g, h) \<Rightarrow>
        concat (map word_bytes [a, b, c, d, e, f, g, h]))"

text \<open>\<open>binary.LittleEndian.Uint64\<close> and \<open>Uint32\<close> on the first bytes, and \<open>[]byte(s)\<close>.\<close>

definition LittleEndian_Uint64 :: "byte list \<Rightarrow> uint64" where
  "LittleEndian_Uint64 bs = foldr (\<lambda>b acc. push_bit 8 acc OR ucast b) (take 8 bs) 0"

definition LittleEndian_Uint32 :: "byte list \<Rightarrow> uint32" where
  "LittleEndian_Uint32 bs = foldr (\<lambda>b acc. push_bit 8 acc OR ucast b) (take 4 bs) 0"

definition string_bytes :: "string \<Rightarrow> byte list" where
  "string_bytes s = map (\<lambda>c. of_nat (of_char c)) s"

section \<open>Lemmas\<close>

text \<open>The first and the last round constant and the first word of the initial state.\<close>

lemma sha_constants:
  "root_fraction 3 2 = 0x428a2f98" "root_fraction 3 311 = 0xc67178f2" "root_fraction 2 2 = 0x6a09e667"
  by code_simp+

lemma sha_pad_blocks: "64 dvd length (sha_pad m)"
proof -
  define q r where "q = length m div 64" and "r = length m mod 64"
  have m: "length m = 64 * q + r" "r < 64" by (simp_all add: q_def r_def)
  have "9 + r + (119 - r) mod 64 \<in> {64, 128}"
    using m(2) by (cases "r \<le> 55") (auto simp: mod_if)
  then have "64 dvd 9 + r + (119 - r) mod 64"
    by (elim insertE emptyE) (simp_all only:, simp_all)
  then have "64 dvd 64 * q + (9 + r + (119 - r) mod 64)"
    using dvd_add [OF dvd_triv_left] by blast
  then show ?thesis
    by (simp add: sha_pad_def be_bytes_def m ac_simps)
qed

lemma length_Sum256 [simp]: "length (sha256_Sum256 m) = 32"
  by (simp add: sha256_Sum256_def Let_def word_bytes_def split: prod.splits)

end
