(* ===== verification/Service_Operations.thy ===== *)
theory Service_Operations
  imports Service_Core Sha256
begin

text \<open>
  \<open>internal/service/operations.go\<close>: the money movements, authorizations and increments.  Each
  operation is the whole Go method: validation, account lookups, the risk check, the one transfer
  it submits, the translation of the answer, and the metrics and the log line of its completion.
\<close>

section \<open>Completion\<close>

text \<open>\<open>observeCompletion\<close>: one metric and one log line, with the caller's attributes at the end.\<close>

definition observeCompletion ::
  "Service \<Rightarrow> OperationKind \<Rightarrow> string \<Rightarrow> string \<Rightarrow> uint64 \<Rightarrow> Time \<Rightarrow> string \<Rightarrow>
   (string \<times> LogValue) list \<Rightarrow> unit prog" where
  "observeCompletion s kind reqID status amountCents started ledgerStatus attributes =
     Now (\<lambda>now.
       let elapsed = Time_Sub now started;
           entry = EmitLog \<lparr>log_message = ''ledger operation completed'',
             log_fields =
               [(''kind'', LogString kind), (''request_id'', LogString reqID),
                (''transaction_id'', LogString reqID), (''status'', LogString status),
                (''ledger_status'', LogString ledgerStatus),
                (''amount_cents'', LogInt (uint amountCents)),
                (''duration_ms'', LogInt (Milliseconds elapsed))] @ attributes\<rparr> (Return ())
       in if Service_metrics s then EmitMetric (ObserveOperation kind status elapsed) entry
          else entry)"

section \<open>Posted transfers\<close>

definition executeTransaction ::
  "SDK \<Rightarrow> Service \<Rightarrow> OperationKind \<Rightarrow> string \<Rightarrow> Transfer \<Rightarrow> string \<Rightarrow>
   (Error + TransactionResponse \<times> int) prog" where
  "executeTransaction sdk s kind reqID transfer successStatus =
     Now (\<lambda>started. seq (observed_CreateTransfer s transfer) (\<lambda>r.
       let amount = fst (Uint128_Uint64 sdk (Transfer_Amount transfer));
           accounts = [(''debit_account_id'',
                        LogString (Uint128_String sdk (Transfer_DebitAccountID transfer))),
                       (''credit_account_id'',
                        LogString (Uint128_String sdk (Transfer_CreditAccountID transfer)))]
       in case r of
            Inl err \<Rightarrow>
              seq (observeCompletion s kind reqID ''unknown'' amount started ''request_error''
                     ((''error'', LogError err) # accounts)) (\<lambda>_. fail err)
          | Inr result \<Rightarrow>
              let ledgerStatus = CreateTransferStatus_String sdk (TransferResult_Status result) in
              if isIdempotencyConflict (TransferResult_Status result) then
                seq (observeCompletion s kind reqID ''conflict'' amount started ledgerStatus accounts)
                  (\<lambda>_. fail ErrIdempotencyConflict)
              else
                let response0 = zeroTransactionResponse\<lparr>TxResp_RequestID := reqID,
                      TxResp_TransactionID := reqID, TxResp_LedgerStatus := ledgerStatus,
                      TxResp_Timestamp := TransferResult_Timestamp result\<rparr>;
                    (response, httpStatus) =
                      (if TransferResult_Status result = TransferCreated \<or>
                          TransferResult_Status result = TransferExists
                       then (response0\<lparr>TxResp_Status := successStatus\<rparr>, 200)
                       else case errorCode (TransferResult_Status result) of (code, message, status) \<Rightarrow>
                         (response0\<lparr>TxResp_Status := ''failed'', TxResp_ErrorCode := code,
                                    TxResp_Message := message\<rparr>, status))
                in seq (observeCompletion s kind reqID (TxResp_Status response) amount started
                          ledgerStatus accounts)
                     (\<lambda>_. Return (Inr (response, httpStatus)))))"

definition TopUp :: "SDK \<Rightarrow> Service \<Rightarrow> TopUpRequest \<Rightarrow> (Error + TransactionResponse \<times> int) prog" where
  "TopUp sdk s request =
     check (accountID sdk ''account_id'' (TopUp_AccountID request)) (\<lambda>account.
       if TopUp_AmountCents request = 0 then fail (invalid ''amount_cents must be positive'')
       else
         check (requestID sdk (TopUp_RequestID request)) (\<lambda>ident.
         attempt (requireAccountKind sdk s account AccountCorporateWallet) (\<lambda>_.
           executeTransaction sdk s OperationTopUp (TopUp_RequestID request)
             (zeroTransfer\<lparr>Transfer_ID := ident,
               Transfer_DebitAccountID := SafeguardedCashAccountID sdk,
               Transfer_CreditAccountID := account,
               Transfer_Amount := ToUint128 sdk (TopUp_AmountCents request),
               Transfer_Ledger := Service_ledgerID s,
               Transfer_Code := TransferCodeTopUp\<rparr>) ''posted'')))"

definition Withdraw ::
  "SDK \<Rightarrow> Service \<Rightarrow> WithdrawalRequest \<Rightarrow> (Error + TransactionResponse \<times> int) prog" where
  "Withdraw sdk s request =
     check (accountID sdk ''account_id'' (Withdrawal_AccountID request)) (\<lambda>account.
       if Withdrawal_AmountCents request = 0 then fail (invalid ''amount_cents must be positive'')
       else
         check (requestID sdk (Withdrawal_RequestID request)) (\<lambda>ident.
         attempt (requireAccountKind sdk s account AccountCorporateWallet) (\<lambda>_.
           executeTransaction sdk s OperationWithdrawal (Withdrawal_RequestID request)
             (zeroTransfer\<lparr>Transfer_ID := ident,
               Transfer_DebitAccountID := account,
               Transfer_CreditAccountID := SafeguardedCashAccountID sdk,
               Transfer_Amount := ToUint128 sdk (Withdrawal_AmountCents request),
               Transfer_Ledger := Service_ledgerID s,
               Transfer_Code := TransferCodeWithdrawal\<rparr>) ''posted'')))"

definition moveCardFunds ::
  "SDK \<Rightarrow> Service \<Rightarrow> OperationKind \<Rightarrow> string \<Rightarrow> string \<Rightarrow> string \<Rightarrow> uint64 \<Rightarrow> bool \<Rightarrow>
   (Error + TransactionResponse \<times> int) prog" where
  "moveCardFunds sdk s kind requestIDValue accountIDValue cardIDValue amountCents returnToCorporate =
     check (accountID sdk ''account_id'' accountIDValue) (\<lambda>corporateAccountID.
     check (accountID sdk ''card_id'' cardIDValue) (\<lambda>cardAccountID.
       if amountCents = 0 then fail (invalid ''amount_cents must be positive'')
       else
         check (requestID sdk requestIDValue) (\<lambda>ident.
         attempt (requireAccountKind sdk s corporateAccountID AccountCorporateWallet) (\<lambda>_.
         attempt (requireAccountKind sdk s cardAccountID AccountCardWallet) (\<lambda>cardAccount.
           if meta_corporateAccountID cardAccount \<noteq> corporateAccountID
           then fail (invalid ''card_id is not linked to account_id'')
           else
             let (debitAccountID, creditAccountID, code) =
                   (if returnToCorporate
                    then (cardAccountID, corporateAccountID, TransferCodeCardReturn)
                    else (corporateAccountID, cardAccountID, TransferCodeCardAllocation))
             in executeTransaction sdk s kind requestIDValue
                  (zeroTransfer\<lparr>Transfer_ID := ident,
                    Transfer_DebitAccountID := debitAccountID,
                    Transfer_CreditAccountID := creditAccountID,
                    Transfer_Amount := ToUint128 sdk amountCents,
                    Transfer_Ledger := Service_ledgerID s,
                    Transfer_Code := code\<rparr>) ''posted'')))))"

definition AllocateToCard ::
  "SDK \<Rightarrow> Service \<Rightarrow> CardAllocationRequest \<Rightarrow> (Error + TransactionResponse \<times> int) prog" where
  "AllocateToCard sdk s request =
     moveCardFunds sdk s OperationCardAllocation (CardAllocation_RequestID request)
       (CardAllocation_AccountID request) (CardAllocation_CardID request)
       (CardAllocation_AmountCents request) False"

definition ReturnFromCard ::
  "SDK \<Rightarrow> Service \<Rightarrow> CardReturnRequest \<Rightarrow> (Error + TransactionResponse \<times> int) prog" where
  "ReturnFromCard sdk s request =
     moveCardFunds sdk s OperationCardReturn (CardReturn_RequestID request)
       (CardReturn_AccountID request) (CardReturn_CardID request)
       (CardReturn_AmountCents request) True"

section \<open>Authorizations\<close>

definition merchantFingerprint :: "string \<Rightarrow> uint64 \<times> uint32" where
  "merchantFingerprint merchantID =
     (let sum = sha256_Sum256 (string_bytes (''ledger-service:v1:merchant:'' @ merchantID))
      in (LittleEndian_Uint64 (take 8 sum), LittleEndian_Uint32 (drop 8 (take 12 sum))))"

text \<open>
  \<open>evaluateRisk\<close>: with a positive delay the \<open>select\<close> waits for the timer or the end of the
  request's context, whichever the environment reports.
\<close>

definition evaluateRisk :: "Service \<Rightarrow> uint64 \<Rightarrow> (Error + bool) prog" where
  "evaluateRisk s amountCents =
     (let verdict = Return (Inr (amountCents \<le> Service_riskLimitCents s)) in
      if 0 < Service_riskDelay s then
        AwaitRisk (Service_riskDelay s) (\<lambda>ended.
          case ended of Some c \<Rightarrow> fail (ctx_Err c) | None \<Rightarrow> verdict)
      else verdict)"

definition sameTransferExceptTimeout :: "Transfer \<Rightarrow> Transfer \<Rightarrow> bool" where
  "sameTransferExceptTimeout left right \<longleftrightarrow>
     Transfer_ID left = Transfer_ID right \<and>
     Transfer_DebitAccountID left = Transfer_DebitAccountID right \<and>
     Transfer_CreditAccountID left = Transfer_CreditAccountID right \<and>
     Transfer_Amount left = Transfer_Amount right \<and>
     Transfer_PendingID left = Transfer_PendingID right \<and>
     Transfer_UserData128 left = Transfer_UserData128 right \<and>
     Transfer_UserData64 left = Transfer_UserData64 right \<and>
     Transfer_UserData32 left = Transfer_UserData32 right \<and>
     Transfer_Ledger left = Transfer_Ledger right \<and>
     Transfer_Code left = Transfer_Code right \<and>
     Transfer_Flags left = Transfer_Flags right"

definition sameTransfer :: "Transfer \<Rightarrow> Transfer \<Rightarrow> bool" where
  "sameTransfer left right \<longleftrightarrow>
     Transfer_Timeout left = Transfer_Timeout right \<and> sameTransferExceptTimeout left right"

text \<open>The pending transfer of an authorization.\<close>

definition authorization_transfer ::
  "SDK \<Rightarrow> Service \<Rightarrow> AuthorizationRequest \<Rightarrow> uint128 \<Rightarrow> uint128 \<Rightarrow> Transfer" where
  "authorization_transfer sdk s request ident cardAccountID =
     (let (merchant64, merchant32) = merchantFingerprint (Authorization_MerchantID request)
      in zeroTransfer\<lparr>Transfer_ID := ident,
           Transfer_DebitAccountID := cardAccountID,
           Transfer_CreditAccountID := CardSettlementPayableAccountID sdk,
           Transfer_Amount := ToUint128 sdk (Authorization_AmountCents request),
           Transfer_UserData128 := ident,
           Transfer_UserData64 := merchant64,
           Transfer_UserData32 := merchant32,
           Transfer_Timeout := word_of_int (Service_authorizationTimeout s sdiv second),
           Transfer_Ledger := Service_ledgerID s,
           Transfer_Code := TransferCodeAuthorization,
           Transfer_Flags := TransferFlags_ToUint16 sdk \<lparr>Pending = True\<rparr>\<rparr>)"

text \<open>\<open>time.Unix(0, int64(ts)).Add(d)\<close>.\<close>

definition ledgerTime :: "uint64 \<Rightarrow> Duration \<Rightarrow> Time" where
  "ledgerTime ts d = Time_Add (time_Unix_nsec (sint ts)) d"

text \<open>The branch of \<open>Authorize\<close> the risk policy declines: replay an existing hold or decline.\<close>

definition Authorize_declined ::
  "SDK \<Rightarrow> Service \<Rightarrow> AuthorizationRequest \<Rightarrow> Transfer \<Rightarrow> Time \<Rightarrow> int \<Rightarrow>
   (Error + AuthorizationResponse \<times> int) prog" where
  "Authorize_declined sdk s request transfer started evaluationMS =
     (let attributes = [(''card_id'', LogString (Authorization_CardID request)),
                        (''merchant_id'', LogString (Authorization_MerchantID request))];
          complete = (\<lambda>status ledgerStatus. observeCompletion s OperationAuthorization
            (Authorization_RequestID request) status (Authorization_AmountCents request) started
            ledgerStatus attributes)
      in attempt (observed_LookupTransfer s (Transfer_ID transfer)) (\<lambda>(existing, found).
        if found then
          if \<not> sameTransfer existing transfer then
            seq (complete ''conflict'' ''existing_transfer_payload_conflict'')
              (\<lambda>_. fail ErrIdempotencyConflict)
          else
            let response = zeroAuthorizationResponse\<lparr>
                  AuthResp_RequestID := Authorization_RequestID request,
                  AuthResp_AuthorizationID := Authorization_RequestID request,
                  AuthResp_HoldTransferID := Authorization_RequestID request,
                  AuthResp_Status := ''approved'',
                  AuthResp_LedgerStatus := CreateTransferStatus_String sdk TransferExists,
                  AuthResp_EvaluationTimeMS := evaluationMS,
                  AuthResp_ExpiresAt :=
                    Some (ledgerTime (Transfer_Timestamp existing) (Service_authorizationTimeout s)),
                  AuthResp_Timestamp := Transfer_Timestamp existing\<rparr>
            in seq (complete (AuthResp_Status response) (AuthResp_LedgerStatus response))
                 (\<lambda>_. Return (Inr (response, 200)))
        else
          let response = zeroAuthorizationResponse\<lparr>
                AuthResp_RequestID := Authorization_RequestID request,
                AuthResp_AuthorizationID := Authorization_RequestID request,
                AuthResp_Status := ''declined'',
                AuthResp_LedgerStatus := ''not_submitted'',
                AuthResp_EvaluationTimeMS := evaluationMS,
                AuthResp_ErrorCode := ''risk_limit_exceeded'',
                AuthResp_Message := ''authorization amount exceeds the automatic approval limit''\<rparr>
          in seq (complete (AuthResp_Status response) (AuthResp_LedgerStatus response))
               (\<lambda>_. Return (Inr (response, 200)))))"

text \<open>The response to a submitted hold, with its HTTP status.\<close>

definition Authorize_answer ::
  "SDK \<Rightarrow> Service \<Rightarrow> AuthorizationRequest \<Rightarrow> int \<Rightarrow> CreateTransferResult \<Rightarrow>
   AuthorizationResponse \<times> int" where
  "Authorize_answer sdk s request evaluationMS result =
     (let response = zeroAuthorizationResponse\<lparr>
            AuthResp_RequestID := Authorization_RequestID request,
            AuthResp_AuthorizationID := Authorization_RequestID request,
            AuthResp_HoldTransferID := Authorization_RequestID request,
            AuthResp_LedgerStatus :=
              CreateTransferStatus_String sdk (TransferResult_Status result),
            AuthResp_EvaluationTimeMS := evaluationMS,
            AuthResp_Timestamp := TransferResult_Timestamp result\<rparr>
      in if TransferResult_Status result = TransferCreated \<or>
            TransferResult_Status result = TransferExists
         then (response\<lparr>AuthResp_Status := ''approved'',
                 AuthResp_ExpiresAt := Some (ledgerTime (TransferResult_Timestamp result)
                   (Service_authorizationTimeout s))\<rparr>, 200)
         else case errorCode (TransferResult_Status result) of (code, message, status) \<Rightarrow>
           if code = ''insufficient_funds''
           then (response\<lparr>AuthResp_ErrorCode := code, AuthResp_Message := message,
                   AuthResp_Status := ''declined''\<rparr>, 200)
           else (response\<lparr>AuthResp_ErrorCode := code, AuthResp_Message := message,
                   AuthResp_Status := ''failed''\<rparr>, status))"

text \<open>The branch that submits the hold.\<close>

definition Authorize_submit ::
  "SDK \<Rightarrow> Service \<Rightarrow> AuthorizationRequest \<Rightarrow> Transfer \<Rightarrow> Time \<Rightarrow> int \<Rightarrow>
   (Error + AuthorizationResponse \<times> int) prog" where
  "Authorize_submit sdk s request transfer started evaluationMS =
     (let attributes = [(''card_id'', LogString (Authorization_CardID request)),
                        (''merchant_id'', LogString (Authorization_MerchantID request))];
          complete = (\<lambda>status ledgerStatus extra. observeCompletion s OperationAuthorization
            (Authorization_RequestID request) status (Authorization_AmountCents request) started
            ledgerStatus (extra @ attributes))
      in seq (observed_CreateTransfer s transfer) (\<lambda>r. case r of
        Inl err \<Rightarrow>
          seq (complete ''unknown'' ''request_error'' [(''error'', LogError err)]) (\<lambda>_. fail err)
      | Inr result \<Rightarrow>
          let ledgerStatus = CreateTransferStatus_String sdk (TransferResult_Status result) in
          if isIdempotencyConflict (TransferResult_Status result) then
            seq (complete ''conflict'' ledgerStatus []) (\<lambda>_. fail ErrIdempotencyConflict)
          else
            let answer = Authorize_answer sdk s request evaluationMS result
            in seq (complete (AuthResp_Status (fst answer)) ledgerStatus [])
                 (\<lambda>_. Return (Inr answer))))"

definition Authorize ::
  "SDK \<Rightarrow> Service \<Rightarrow> AuthorizationRequest \<Rightarrow> (Error + AuthorizationResponse \<times> int) prog" where
  "Authorize sdk s request =
     check (accountID sdk ''card_id'' (Authorization_CardID request)) (\<lambda>cardAccountID.
     check (validateExternalID ''merchant_id'' (Authorization_MerchantID request)) (\<lambda>_.
       if Authorization_AmountCents request = 0
       then fail (invalid ''amount_cents must be positive'')
       else
         check (requestID sdk (Authorization_RequestID request)) (\<lambda>ident.
         Now (\<lambda>started.
         attempt (requireAccountKind sdk s cardAccountID AccountCardWallet) (\<lambda>_.
           let transfer = authorization_transfer sdk s request ident cardAccountID in
           Now (\<lambda>riskStarted. seq (evaluateRisk s (Authorization_AmountCents request)) (\<lambda>risk.
             case risk of
               Inl err \<Rightarrow> fail (Errorf ''evaluate risk: '' err [])
             | Inr approved \<Rightarrow>
                 Now (\<lambda>evaluated.
                   let evaluationMS = Milliseconds (Time_Sub evaluated riskStarted) in
                   if \<not> approved
                   then Authorize_declined sdk s request transfer started evaluationMS
                   else Authorize_submit sdk s request transfer started evaluationMS))))))))"

section \<open>Increments\<close>

definition incrementFailure ::
  "IncrementAuthorizationRequest \<Rightarrow> string \<Rightarrow> string \<Rightarrow> int \<Rightarrow> int \<Rightarrow>
   Error + IncrementAuthorizationResponse \<times> int" where
  "incrementFailure request code message status evaluationMS =
     Inr (zeroIncrementAuthorizationResponse\<lparr>
            IncResp_RequestID := Increment_RequestID request,
            IncResp_AuthorizationID := Increment_AuthorizationID request,
            IncResp_Status := ''declined'',
            IncResp_LedgerStatus := ''not_submitted'',
            IncResp_IncrementCents := Increment_IncrementCents request,
            IncResp_EvaluationTimeMS := evaluationMS,
            IncResp_ErrorCode := code,
            IncResp_Message := message\<rparr>, status)"

text \<open>The pending transfer of an increment, for a given timeout.\<close>

definition increment_transfer ::
  "SDK \<Rightarrow> Service \<Rightarrow> IncrementAuthorizationRequest \<Rightarrow> Transfer \<Rightarrow> uint128 \<Rightarrow> uint128 \<Rightarrow> uint32 \<Rightarrow>
   Transfer" where
  "increment_transfer sdk s request original incrementID authorizationID timeout =
     zeroTransfer\<lparr>Transfer_ID := incrementID,
       Transfer_DebitAccountID := Transfer_DebitAccountID original,
       Transfer_CreditAccountID := Transfer_CreditAccountID original,
       Transfer_Amount := ToUint128 sdk (Increment_IncrementCents request),
       Transfer_UserData128 := authorizationID,
       Transfer_UserData64 := Transfer_UserData64 original,
       Transfer_UserData32 := Transfer_UserData32 original,
       Transfer_Timeout := timeout,
       Transfer_Ledger := Service_ledgerID s,
       Transfer_Code := TransferCodeAuthorizationIncrement,
       Transfer_Flags := TransferFlags_ToUint16 sdk \<lparr>Pending = True\<rparr>\<rparr>"

definition increment_complete ::
  "SDK \<Rightarrow> Service \<Rightarrow> IncrementAuthorizationRequest \<Rightarrow> Transfer \<Rightarrow> Time \<Rightarrow> string \<Rightarrow> string \<Rightarrow>
   (string \<times> LogValue) list \<Rightarrow> unit prog" where
  "increment_complete sdk s request original started status ledgerStatus extra =
     observeCompletion s OperationAuthorizationIncrement (Increment_RequestID request) status
       (Increment_IncrementCents request) started ledgerStatus
       (extra @ [(''authorization_id'', LogString (Increment_AuthorizationID request)),
                 (''card_id'', LogString (Uint128_String sdk (Transfer_DebitAccountID original)))])"

text \<open>
  \<open>lookupExistingIncrement\<close>: a found increment gives the answer, \<^const>\<open>None\<close> means that there is
  none.
\<close>

definition lookupExistingIncrement ::
  "SDK \<Rightarrow> Service \<Rightarrow> IncrementAuthorizationRequest \<Rightarrow> Transfer \<Rightarrow> uint128 \<Rightarrow> uint128 \<Rightarrow> Time \<Rightarrow> int \<Rightarrow>
   (Error + (IncrementAuthorizationResponse \<times> int) option) prog" where
  "lookupExistingIncrement sdk s request original incrementID authorizationID started evaluationMS =
     attempt (observed_LookupTransfer s incrementID) (\<lambda>(existing, found).
       if \<not> found then Return (Inr None)
       else
         let expected = increment_transfer sdk s request original incrementID authorizationID 0 in
         if \<not> sameTransferExceptTimeout existing expected then
           seq (increment_complete sdk s request original started ''conflict''
                  ''existing_increment_payload_conflict'' [])
             (\<lambda>_. fail ErrIdempotencyConflict)
         else
           let response = zeroIncrementAuthorizationResponse\<lparr>
                 IncResp_RequestID := Increment_RequestID request,
                 IncResp_AuthorizationID := Increment_AuthorizationID request,
                 IncResp_HoldTransferID := Increment_RequestID request,
                 IncResp_Status := ''approved'',
                 IncResp_LedgerStatus := CreateTransferStatus_String sdk TransferExists,
                 IncResp_IncrementCents := Increment_IncrementCents request,
                 IncResp_EvaluationTimeMS := evaluationMS,
                 IncResp_Timestamp := Transfer_Timestamp existing\<rparr>
           in seq (increment_complete sdk s request original started (IncResp_Status response)
                     (IncResp_LedgerStatus response) [])
                (\<lambda>_. Return (Inr (Some (response, 200)))))"

text \<open>The seconds left of the original hold, rounded up and never more than its timeout.\<close>

definition remainingSeconds :: "Transfer \<Rightarrow> Duration \<Rightarrow> uint32" where
  "remainingSeconds original remaining =
     min (word_of_int (wrap_int64 (wrap_int64 (remaining + second) - 1) sdiv second))
       (Transfer_Timeout original)"

text \<open>The response to a submitted increment, with its HTTP status.\<close>

definition Increment_answer ::
  "SDK \<Rightarrow> IncrementAuthorizationRequest \<Rightarrow> int \<Rightarrow> CreateTransferResult \<Rightarrow>
   IncrementAuthorizationResponse \<times> int" where
  "Increment_answer sdk request evaluationMS result =
     (let response = zeroIncrementAuthorizationResponse\<lparr>
            IncResp_RequestID := Increment_RequestID request,
            IncResp_AuthorizationID := Increment_AuthorizationID request,
            IncResp_HoldTransferID := Increment_RequestID request,
            IncResp_LedgerStatus :=
              CreateTransferStatus_String sdk (TransferResult_Status result),
            IncResp_IncrementCents := Increment_IncrementCents request,
            IncResp_EvaluationTimeMS := evaluationMS,
            IncResp_Timestamp := TransferResult_Timestamp result\<rparr>
      in if TransferResult_Status result = TransferCreated \<or>
            TransferResult_Status result = TransferExists
         then (response\<lparr>IncResp_Status := ''approved''\<rparr>, 200)
         else case errorCode (TransferResult_Status result) of (code, message, status) \<Rightarrow>
           if code = ''insufficient_funds''
           then (response\<lparr>IncResp_ErrorCode := code, IncResp_Message := message,
                   IncResp_Status := ''declined''\<rparr>, 200)
           else (response\<lparr>IncResp_ErrorCode := code, IncResp_Message := message,
                   IncResp_Status := ''failed''\<rparr>, status))"

text \<open>An existing increment that differs only in its timeout counts as the same one.\<close>

definition Increment_resolve ::
  "Service \<Rightarrow> Transfer \<Rightarrow> CreateTransferResult \<Rightarrow> (Error + CreateTransferResult) prog" where
  "Increment_resolve s transfer result =
     (if TransferResult_Status result = TransferExistsWithDifferentTimeout then
        attempt (observed_LookupTransfer s (Transfer_ID transfer)) (\<lambda>(existing, found).
          if found \<and> sameTransferExceptTimeout existing transfer
          then Return (Inr \<lparr>TransferResult_Status = TransferExists,
                            TransferResult_Timestamp = Transfer_Timestamp existing\<rparr>)
          else Return (Inr result))
      else Return (Inr result))"

text \<open>The part of \<open>IncrementAuthorization\<close> after the expiry check: the increment is submitted.\<close>

definition Increment_submit ::
  "SDK \<Rightarrow> Service \<Rightarrow> IncrementAuthorizationRequest \<Rightarrow> Transfer \<Rightarrow> Transfer \<Rightarrow> Time \<Rightarrow> int \<Rightarrow>
   (Error + IncrementAuthorizationResponse \<times> int) prog" where
  "Increment_submit sdk s request original transfer started evaluationMS =
     (let complete = increment_complete sdk s request original started in
      seq (observed_CreateTransfer s transfer) (\<lambda>r. case r of
        Inl err \<Rightarrow>
          seq (complete ''unknown'' ''request_error'' [(''error'', LogError err)]) (\<lambda>_. fail err)
      | Inr created \<Rightarrow>
          attempt (Increment_resolve s transfer created) (\<lambda>result.
          let ledgerStatus = CreateTransferStatus_String sdk (TransferResult_Status result) in
          if isIdempotencyConflict (TransferResult_Status result) then
            seq (complete ''conflict'' ledgerStatus []) (\<lambda>_. fail ErrIdempotencyConflict)
          else
            let answer = Increment_answer sdk request evaluationMS result
            in seq (complete (IncResp_Status (fst answer)) ledgerStatus [])
                 (\<lambda>_. Return (Inr answer)))))"

text \<open>The condition under which a transfer is not an authorization of this service with a timeout; whether it
  has expired is checked later, against the clock, by \<open>Increment_evaluate\<close>.\<close>

definition notOpenAuthorization :: "SDK \<Rightarrow> Service \<Rightarrow> Transfer \<Rightarrow> bool" where
  "notOpenAuthorization sdk s original \<longleftrightarrow>
     Transfer_Flags original \<noteq> TransferFlags_ToUint16 sdk \<lparr>Pending = True\<rparr> \<or>
     Transfer_Code original \<noteq> TransferCodeAuthorization \<or>
     Transfer_Ledger original \<noteq> Service_ledgerID s \<or>
     Transfer_CreditAccountID original \<noteq> CardSettlementPayableAccountID sdk \<or>
     Transfer_UserData128 original \<noteq> Transfer_ID original \<or>
     Transfer_PendingID original \<noteq> 0 \<or>
     Transfer_Timeout original = 0"

text \<open>From the risk check on.\<close>

definition Increment_evaluate ::
  "SDK \<Rightarrow> Service \<Rightarrow> IncrementAuthorizationRequest \<Rightarrow> Transfer \<Rightarrow> uint128 \<Rightarrow> uint128 \<Rightarrow> Time \<Rightarrow>
   (Error + IncrementAuthorizationResponse \<times> int) prog" where
  "Increment_evaluate sdk s request original incrementID authorizationID started =
     Now (\<lambda>riskStarted. seq (evaluateRisk s (Increment_IncrementCents request)) (\<lambda>risk.
       case risk of
         Inl err \<Rightarrow> fail (Errorf ''evaluate risk: '' err [])
       | Inr approved \<Rightarrow>
           Now (\<lambda>evaluated.
             let evaluationMS = Milliseconds (Time_Sub evaluated riskStarted);
                 existing = lookupExistingIncrement sdk s request original incrementID
                   authorizationID started evaluationMS
             in if \<not> approved then
                  attempt existing (\<lambda>answer. case answer of
                    Some response \<Rightarrow> Return (Inr response)
                  | None \<Rightarrow>
                      let response = zeroIncrementAuthorizationResponse\<lparr>
                            IncResp_RequestID := Increment_RequestID request,
                            IncResp_AuthorizationID := Increment_AuthorizationID request,
                            IncResp_Status := ''declined'',
                            IncResp_LedgerStatus := ''not_submitted'',
                            IncResp_IncrementCents := Increment_IncrementCents request,
                            IncResp_EvaluationTimeMS := evaluationMS,
                            IncResp_ErrorCode := ''risk_limit_exceeded'',
                            IncResp_Message :=
                              ''authorization increment exceeds the automatic approval limit''\<rparr>
                      in seq (increment_complete sdk s request original started
                                (IncResp_Status response) (IncResp_LedgerStatus response) [])
                           (\<lambda>_. Return (Inr (response, 200))))
                else
                  Now (\<lambda>now.
                    let expiresAt = ledgerTime (Transfer_Timestamp original)
                          (uint (Transfer_Timeout original) * second);
                        remaining = Time_Sub expiresAt now
                    in if Transfer_Timeout original \<noteq> 0 \<and> remaining \<le> 0 then
                         attempt existing (\<lambda>answer. case answer of
                           Some response \<Rightarrow> Return (Inr response)
                         | None \<Rightarrow> Return (incrementFailure request ''authorization_not_open''
                             ''the authorization has expired'' 409 evaluationMS))
                       else
                         Increment_submit sdk s request original
                           (increment_transfer sdk s request original incrementID authorizationID
                              (remainingSeconds original remaining)) started evaluationMS))))"

definition IncrementAuthorization ::
  "SDK \<Rightarrow> Service \<Rightarrow> IncrementAuthorizationRequest \<Rightarrow>
   (Error + IncrementAuthorizationResponse \<times> int) prog" where
  "IncrementAuthorization sdk s request =
     check (validateExternalID ''authorization_id'' (Increment_AuthorizationID request)) (\<lambda>_.
       case parsePublicTigerBeetleID sdk (Increment_AuthorizationID request) of
         Inl e \<Rightarrow> fail (invalid ''authorization_id must be a TigerBeetle ID'')
       | Inr authorizationID \<Rightarrow>
           if Increment_IncrementCents request = 0
           then fail (invalid ''increment_cents must be positive'')
           else
             check (requestID sdk (Increment_RequestID request)) (\<lambda>incrementID.
               if incrementID = authorizationID
               then fail (invalid ''request_id must differ from authorization_id'')
               else
                 Now (\<lambda>started.
                 attempt (observed_LookupTransfer s authorizationID) (\<lambda>(original, found).
                   if \<not> found then fail ErrAuthorizationNotFound
                   else if notOpenAuthorization sdk s original then
                     Return (incrementFailure request ''authorization_not_open''
                       ''the transfer is not an open authorization'' 409 0)
                   else
                     seq (requireAccountKind sdk s (Transfer_DebitAccountID original)
                            AccountCardWallet) (\<lambda>required.
                       case required of
                         Inl err \<Rightarrow>
                           if errors_Is err ErrAccountNotFound then
                             Return (incrementFailure request ''authorization_not_open''
                               ''the transfer is not an open authorization'' 409 0)
                           else fail err
                       | Inr _ \<Rightarrow>
                           Increment_evaluate sdk s request original incrementID authorizationID
                             started)))))"

end
