(* ===== verification/Operation_Contracts.thy ===== *)
theory Operation_Contracts
  imports Service_Operations
begin

text \<open>
  What the operations of \<open>operations.go\<close> promise.  An \<open>intent\<close> is the transfer a valid request
  stands for; a postcondition relates the answer of an operation to the ledger, now and in every
  later state.  Each operation meets its postcondition whatever the other requests do meanwhile.
\<close>

section \<open>Intents and postconditions\<close>

definition posted_transfer ::
  "SDK \<Rightarrow> Service \<Rightarrow> uint128 \<Rightarrow> uint128 \<Rightarrow> uint128 \<Rightarrow> uint64 \<Rightarrow> uint16 \<Rightarrow> Transfer" where
  "posted_transfer sdk s i debit credit amount code =
     zeroTransfer\<lparr>Transfer_ID := i, Transfer_DebitAccountID := debit,
       Transfer_CreditAccountID := credit, Transfer_Amount := ToUint128 sdk amount,
       Transfer_Ledger := Service_ledgerID s, Transfer_Code := code\<rparr>"

fun both :: "Error + 'a \<Rightarrow> Error + 'b \<Rightarrow> ('a \<Rightarrow> 'b \<Rightarrow> 'c) \<Rightarrow> 'c option" where
  "both (Inr x) (Inr y) f = Some (f x y)"
| "both _ _ f = None"

definition TopUp_intent :: "SDK \<Rightarrow> Service \<Rightarrow> TopUpRequest \<Rightarrow> Transfer option" where
  "TopUp_intent sdk s request =
     both (requestID sdk (TopUp_RequestID request))
       (accountID sdk ''account_id'' (TopUp_AccountID request))
       (\<lambda>i account. posted_transfer sdk s i (SafeguardedCashAccountID sdk) account
          (TopUp_AmountCents request) 1001)"

definition Withdraw_intent :: "SDK \<Rightarrow> Service \<Rightarrow> WithdrawalRequest \<Rightarrow> Transfer option" where
  "Withdraw_intent sdk s request =
     both (requestID sdk (Withdrawal_RequestID request))
       (accountID sdk ''account_id'' (Withdrawal_AccountID request))
       (\<lambda>i account. posted_transfer sdk s i account (SafeguardedCashAccountID sdk)
          (Withdrawal_AmountCents request) 1002)"

definition card_intent ::
  "SDK \<Rightarrow> Service \<Rightarrow> string \<Rightarrow> string \<Rightarrow> string \<Rightarrow> uint64 \<Rightarrow> bool \<Rightarrow> Transfer option" where
  "card_intent sdk s requestIDValue accountIDValue cardIDValue amount toCorporate =
     Option.bind (both (accountID sdk ''account_id'' accountIDValue)
         (accountID sdk ''card_id'' cardIDValue) Pair) (\<lambda>(account, cardAccount).
       both (requestID sdk requestIDValue) (Inr ()) (\<lambda>i _.
         if toCorporate then posted_transfer sdk s i cardAccount account amount 1202
         else posted_transfer sdk s i account cardAccount amount 1201))"

definition AllocateToCard_intent :: "SDK \<Rightarrow> Service \<Rightarrow> CardAllocationRequest \<Rightarrow> Transfer option" where
  "AllocateToCard_intent sdk s request =
     card_intent sdk s (CardAllocation_RequestID request) (CardAllocation_AccountID request)
       (CardAllocation_CardID request) (CardAllocation_AmountCents request) False"

definition ReturnFromCard_intent :: "SDK \<Rightarrow> Service \<Rightarrow> CardReturnRequest \<Rightarrow> Transfer option" where
  "ReturnFromCard_intent sdk s request =
     card_intent sdk s (CardReturn_RequestID request) (CardReturn_AccountID request)
       (CardReturn_CardID request) (CardReturn_AmountCents request) True"

definition Authorize_intent :: "SDK \<Rightarrow> Service \<Rightarrow> AuthorizationRequest \<Rightarrow> Transfer option" where
  "Authorize_intent sdk s request =
     both (requestID sdk (Authorization_RequestID request))
       (accountID sdk ''card_id'' (Authorization_CardID request))
       (authorization_transfer sdk s request)"

text \<open>A transfer exists with exactly this payload and this timestamp.\<close>

definition committed :: "Transfer \<Rightarrow> uint64 \<Rightarrow> ledger_view \<Rightarrow> bool" where
  "committed t ts K \<longleftrightarrow> view_transfers K (Transfer_ID t) = Some (t\<lparr>Transfer_Timestamp := ts\<rparr>)"

text \<open>Another payload exists under the ID.\<close>

definition payload_conflict :: "Transfer \<Rightarrow> ledger_view \<Rightarrow> bool" where
  "payload_conflict t K \<longleftrightarrow>
     (\<exists>t0. view_transfers K (Transfer_ID t) = Some t0 \<and> \<not> same_payload t0 t)"

text \<open>
  A rejected transfer: its ID can never succeed, or the status was unexpected and the ID did not
  exist in the ledger \<open>K0\<close> the request found on its arrival.
\<close>

definition rejected :: "ledger_view \<Rightarrow> Transfer \<Rightarrow> string \<Rightarrow> int \<Rightarrow> ledger_view \<Rightarrow> bool" where
  "rejected K0 t code status K \<longleftrightarrow>
     (code, status) \<in> {(''insufficient_funds'', 422), (''account_not_found'', 404),
                       (''previous_attempt_failed'', 409)} \<and> Transfer_ID t \<in> view_failed K \<or>
     (code, status) = (''ledger_invariant_violation'', 500) \<and>
       view_transfers K0 (Transfer_ID t) = None"

definition transaction_post ::
  "ledger_view \<Rightarrow> Transfer option \<Rightarrow> Error + TransactionResponse \<times> int \<Rightarrow> ledger_view \<Rightarrow> bool" where
  "transaction_post K0 intent r K \<longleftrightarrow>
     (case r of
        Inl e \<Rightarrow> errors_Is e ErrIdempotencyConflict \<longrightarrow>
          (\<exists>t. intent = Some t \<and> payload_conflict t K)
      | Inr (resp, status) \<Rightarrow>
          (\<exists>t. intent = Some t \<and>
             (TxResp_Status resp = ''posted'' \<and> status = 200 \<and> TxResp_ErrorCode resp = [] \<and>
                committed t (TxResp_Timestamp resp) K
            \<or> TxResp_Status resp = ''failed'' \<and> rejected K0 t (TxResp_ErrorCode resp) status K)))"

definition authorization_post ::
  "ledger_view \<Rightarrow> Service \<Rightarrow> AuthorizationRequest \<Rightarrow> Transfer option \<Rightarrow>
   Error + AuthorizationResponse \<times> int \<Rightarrow> ledger_view \<Rightarrow> bool" where
  "authorization_post K0 s request intent r K \<longleftrightarrow>
     (case r of
        Inl e \<Rightarrow> errors_Is e ErrIdempotencyConflict \<longrightarrow>
          (\<exists>t. intent = Some t \<and> payload_conflict t K)
      | Inr (resp, status) \<Rightarrow>
          (\<exists>t. intent = Some t \<and>
             (AuthResp_Status resp = ''approved'' \<and> status = 200 \<and>
                AuthResp_HoldTransferID resp = Authorization_RequestID request \<and>
                AuthResp_ExpiresAt resp = Some (ledgerTime (AuthResp_Timestamp resp)
                  (Service_authorizationTimeout s)) \<and>
                committed t (AuthResp_Timestamp resp) K
            \<or> AuthResp_Status resp = ''declined'' \<and> status = 200 \<and>
                AuthResp_LedgerStatus resp = ''not_submitted'' \<and>
                AuthResp_ErrorCode resp = ''risk_limit_exceeded'' \<and>
                Service_riskLimitCents s < Authorization_AmountCents request \<and>
                view_transfers K0 (Transfer_ID t) = None
            \<or> AuthResp_Status resp = ''declined'' \<and> status = 200 \<and>
                AuthResp_ErrorCode resp = ''insufficient_funds'' \<and> Transfer_ID t \<in> view_failed K
            \<or> AuthResp_Status resp = ''failed'' \<and>
                AuthResp_ErrorCode resp \<noteq> ''insufficient_funds'' \<and>
                rejected K0 t (AuthResp_ErrorCode resp) status K)))"

text \<open>
  An increment refers to an authorization: an open hold of this service on a card wallet.  It is
  the transfer \<open>increment_transfer\<close> for some timeout, because a retry recomputes the timeout.
\<close>

definition increment_of ::
  "SDK \<Rightarrow> Service \<Rightarrow> IncrementAuthorizationRequest \<Rightarrow> Transfer \<Rightarrow> ledger_view \<Rightarrow>
   (uint32 \<Rightarrow> Transfer) \<Rightarrow> bool" where
  "increment_of sdk s request original K f \<longleftrightarrow>
     (\<exists>i auth. requestID sdk (Increment_RequestID request) = Inr i \<and>
        parsePublicTigerBeetleID sdk (Increment_AuthorizationID request) = Inr auth \<and> i \<noteq> auth \<and>
        view_transfers K auth = Some original \<and> \<not> notOpenAuthorization sdk s original \<and>
        has_role sdk s K (Transfer_DebitAccountID original) AccountCardWallet \<and>
        f = increment_transfer sdk s request original i auth)"

text \<open>The increment has been committed, for some timeout.\<close>

definition increment_exists :: "SDK \<Rightarrow> Service \<Rightarrow> IncrementAuthorizationRequest \<Rightarrow> ledger_view \<Rightarrow> bool" where
  "increment_exists sdk s request K \<longleftrightarrow>
     (\<exists>original f timeout ts. increment_of sdk s request original K f \<and> committed (f timeout) ts K)"

definition increment_post ::
  "ledger_view \<Rightarrow> SDK \<Rightarrow> Service \<Rightarrow> IncrementAuthorizationRequest \<Rightarrow> Error + IncrementAuthorizationResponse \<times> int \<Rightarrow>
   ledger_view \<Rightarrow> bool" where
  "increment_post K0 sdk s request r K \<longleftrightarrow>
     (case r of
        Inl e \<Rightarrow> errors_Is e ErrIdempotencyConflict \<longrightarrow>
          (\<exists>original f. increment_of sdk s request original K f \<and>
             (\<forall>timeout. payload_conflict (f timeout) K))
      | Inr (resp, status) \<Rightarrow>
          IncResp_Status resp = ''approved'' \<and> status = 200 \<and>
            IncResp_HoldTransferID resp = Increment_RequestID request \<and>
            (\<exists>original f timeout. increment_of sdk s request original K f \<and>
               committed (f timeout) (IncResp_Timestamp resp) K)
        \<or> IncResp_Status resp = ''declined'' \<and> status = 200 \<and>
            IncResp_LedgerStatus resp = ''not_submitted'' \<and>
            IncResp_ErrorCode resp = ''risk_limit_exceeded'' \<and>
            Service_riskLimitCents s < Increment_IncrementCents request \<and>
            \<not> increment_exists sdk s request K0
        \<or> IncResp_Status resp = ''declined'' \<and> status = 409 \<and>
            IncResp_LedgerStatus resp = ''not_submitted'' \<and>
            IncResp_ErrorCode resp = ''authorization_not_open'' \<and> \<not> increment_exists sdk s request K0
        \<or> (\<exists>original f timeout. increment_of sdk s request original K f \<and>
            (IncResp_Status resp = ''declined'' \<and> status = 200 \<and>
               IncResp_ErrorCode resp = ''insufficient_funds'' \<and>
               Transfer_ID (f timeout) \<in> view_failed K
           \<or> IncResp_Status resp = ''failed'' \<and>
               IncResp_ErrorCode resp \<noteq> ''insufficient_funds'' \<and>
               rejected K0 (f timeout) (IncResp_ErrorCode resp) status K)))"

section \<open>Stability\<close>

lemma committed_grows: "grows K K' \<Longrightarrow> committed t ts K \<Longrightarrow> committed t ts K'"
  by (simp add: committed_def grows_transfer)

lemma payload_conflict_grows: "grows K K' \<Longrightarrow> payload_conflict t K \<Longrightarrow> payload_conflict t K'"
  unfolding payload_conflict_def using grows_transfer by blast

lemma rejected_grows: "grows K K' \<Longrightarrow> rejected K0 t c st K \<Longrightarrow> rejected K0 t c st K'"
  by (simp only: rejected_def) (meson grows_failed)

lemma lookup_absent:
  assumes "grows K0 K" "transfer_lookup_law i (Inr (u, found)) K" "\<not> found"
  shows "view_transfers K0 i = None"
proof (cases "view_transfers K0 i")
  case (Some t)
  with grows_transfer [OF assms(1)] assms(2,3) show ?thesis
    by (simp add: transfer_lookup_law_def)
qed

lemma transaction_post_stable: "stable_post (transaction_post K0 intent)"
  unfolding stable_post_def
proof (intro allI impI)
  fix r K K'
  assume g: "grows K K'" and post: "transaction_post K0 intent r K"
  show "transaction_post K0 intent r K'"
  proof (cases r)
    case (Inl e)
    with post show ?thesis
      using payload_conflict_grows [OF g] by (auto simp: transaction_post_def)
  next
    case (Inr x)
    with post show ?thesis
      using committed_grows [OF g] rejected_grows [OF g]
      by (cases x) (simp add: transaction_post_def, blast)
  qed
qed

lemma authorization_post_stable: "stable_post (authorization_post K0 s request intent)"
  unfolding stable_post_def
proof (intro allI impI)
  fix r K K'
  assume g: "grows K K'" and post: "authorization_post K0 s request intent r K"
  show "authorization_post K0 s request intent r K'"
  proof (cases r)
    case (Inl e)
    with post show ?thesis
      using payload_conflict_grows [OF g] by (auto simp: authorization_post_def)
  next
    case (Inr x)
    with post show ?thesis
      using committed_grows [OF g] rejected_grows [OF g] grows_failed [OF g]
      by (cases x) (simp add: authorization_post_def, blast)
  qed
qed

section \<open>Posted transfers\<close>

lemma observeCompletion_wp:
  "(\<And>K'. grows K K' \<Longrightarrow> wp G p Q K') \<Longrightarrow>
   wp G (seq (observeCompletion s kind v st amount started ls attrs) (\<lambda>_. p)) Q K"
  by (simp add: observeCompletion_def Let_def) (meson grows_trans)

lemma complete_wp:
  "view_ok K \<Longrightarrow> stable_post Q \<Longrightarrow> Q x K \<Longrightarrow>
   wp G (seq (observeCompletion s kind v st amount started ls attrs) (\<lambda>_. Return x)) Q K"
  by (rule observeCompletion_wp) (auto simp: stable_post_def)

lemma isIdempotencyConflict_iff [simp]: "isIdempotencyConflict st \<longleftrightarrow> transfer_differs st"
  by (cases st) (simp_all add: isIdempotencyConflict_def)

lemma outcome_conflict:
  "transfer_outcome t (Inr res) K \<Longrightarrow> transfer_differs (TransferResult_Status res) \<Longrightarrow>
   payload_conflict t K"
  by (auto simp: transfer_outcome_def payload_conflict_def dest: transfer_mismatch_differs
      split: if_splits)

lemma outcome_committed:
  "transfer_outcome t (Inr res) K \<Longrightarrow>
   TransferResult_Status res = TransferCreated \<or> TransferResult_Status res = TransferExists \<Longrightarrow>
   committed t (TransferResult_Timestamp res) K"
  by (auto simp: transfer_outcome_def committed_def)

lemma outcome_rejected:
  assumes "transfer_outcome t (Inr res) K" "transfer_known K1 t (Inr res)" "grows K0 K1"
    "\<not> (TransferResult_Status res = TransferCreated \<or> TransferResult_Status res = TransferExists)"
    "\<not> transfer_differs (TransferResult_Status res)"
    "errorCode (TransferResult_Status res) = (code, message, status)"
  shows "rejected K0 t code status K"
proof -
  have "view_transfers K0 (Transfer_ID t) = None"
    using assms(2-5) grows_transfer [OF assms(3)] by (fastforce simp: transfer_known_def)
  then show ?thesis
    using assms by (cases "TransferResult_Status res")
      (auto simp: transfer_outcome_def rejected_def errorCode_def transient_failure_def)
qed

lemma rejected_insufficient:
  "rejected K0 t ''insufficient_funds'' status K \<Longrightarrow> Transfer_ID t \<in> view_failed K"
  by (simp add: rejected_def)

lemma executeTransaction_wp:
  assumes ok: "grows K0 K" and t: "journal_entry sdk s K t"
  shows "wp (service_guar sdk s) (executeTransaction sdk s kind v t ''posted'')
    (transaction_post K0 (Some t)) K"
proof -
  let ?Q = "transaction_post K0 (Some t)"
  have success: "?Q (Inr (resp, 200)) K'"
    if "transfer_outcome t (Inr res) K'"
      "TransferResult_Status res = TransferCreated \<or> TransferResult_Status res = TransferExists"
      "TxResp_Status resp = ''posted''" "TxResp_ErrorCode resp = []"
      "TxResp_Timestamp resp = TransferResult_Timestamp res" for res resp K'
    using outcome_committed [OF that(1,2)] that by (simp add: transaction_post_def)
  have failure: "?Q (Inr (resp, status)) K'"
    if "transfer_outcome t (Inr res) K'" "transfer_known K1 t (Inr res)" "grows K K1"
      "\<not> (TransferResult_Status res = TransferCreated \<or> TransferResult_Status res = TransferExists)"
      "\<not> transfer_differs (TransferResult_Status res)"
      "errorCode (TransferResult_Status res) = (code, message, status)"
      "TxResp_Status resp = ''failed''" "TxResp_ErrorCode resp = code"
    for res resp status code message K' K1
    using outcome_rejected [OF that(1,2) grows_trans [OF ok that(3)] that(4-6)] that by (simp add: transaction_post_def)
  have conflict: "?Q (Inl ErrIdempotencyConflict) K'"
    if "transfer_outcome t (Inr res) K'" "transfer_differs (TransferResult_Status res)" for res K'
    using outcome_conflict [OF that] by (simp add: transaction_post_def)
  have lost: "?Q (Inl e) K'" if "transfer_outcome t (Inl e) K'" for e K'
    using that by (simp add: transaction_post_def transfer_outcome_def foreign_error_def)
  have j: "journal_entry sdk s K1 t" if "grows K K1" for K1
    using t that journal_entry_grows by simp
  show ?thesis
    unfolding executeTransaction_def wp.simps
    by (intro allI impI, rule wp_bind [OF observed_CreateTransfer_wp])
      (auto simp: Let_def fail_def j grows_ok zeroTransactionResponse_def
        split: sum.splits prod.splits
        intro!: complete_wp transaction_post_stable success failure intro: conflict lost)
qed

section \<open>Authorizations\<close>

lemma sameTransfer_iff [simp]: "sameTransfer t u \<longleftrightarrow> same_payload t u"
  by (cases t; cases u) (auto simp: sameTransfer_def sameTransferExceptTimeout_def same_payload_def)

lemma evaluateRisk_wp:
  "view_ok K \<Longrightarrow> wp G (evaluateRisk s amount)
     (\<lambda>r K'. case r of Inl e \<Rightarrow> e = ContextCanceled \<or> e = ContextDeadlineExceeded
                   | Inr b \<Rightarrow> b = (amount \<le> Service_riskLimitCents s)) K"
  by (auto simp: evaluateRisk_def Let_def wp_fail split: option.splits) (metis ctx_Err.elims)

lemma validateExternalID_Inl [dest]: "validateExternalID f v = Inl e \<Longrightarrow> \<exists>m. e = invalid m"
  by (auto simp: validateExternalID_def split: if_splits)

text \<open>The risk check of both kinds of holds.\<close>

lemma risk_wp:
  assumes "view_ok K"
    and "\<And>e K'. \<not> errors_Is e ErrIdempotencyConflict \<Longrightarrow> Q (Inl e) K'"
    and "\<And>riskStarted K'. grows K K' \<Longrightarrow>
      wp G (f riskStarted (amount \<le> Service_riskLimitCents s)) Q K'"
  shows "wp G (Now (\<lambda>riskStarted. seq (evaluateRisk s amount) (\<lambda>risk. case risk of
      Inl err \<Rightarrow> fail (Errorf ''evaluate risk: '' err []) | Inr approved \<Rightarrow> f riskStarted approved))) Q K"
  unfolding wp.simps
  by (intro allI impI, rule wp_bind [OF evaluateRisk_wp])
    (auto simp: wp_fail grows_ok split: sum.splits intro!: assms(2,3) intro: grows_trans)

lemma transaction_post_error [simp]:
  "transaction_post K0 intent (Inl e) K" if "\<not> errors_Is e ErrIdempotencyConflict"
  using that by (simp add: transaction_post_def)

lemma authorization_post_error [simp]:
  "authorization_post K0 s request intent (Inl e) K" if "\<not> errors_Is e ErrIdempotencyConflict"
  using that by (simp add: authorization_post_def)

lemma foreign_no_conflict [simp]: "foreign_error e \<Longrightarrow> \<not> errors_Is e ErrIdempotencyConflict"
  by (simp add: foreign_error_def)

lemma Authorize_declined_wp:
  assumes g0: "grows K0 K" and limit: "Service_riskLimitCents s < Authorization_AmountCents request"
  shows "wp G (Authorize_declined sdk s request t started ms)
    (authorization_post K0 s request (Some t)) K"
proof -
  let ?Q = "authorization_post K0 s request (Some t)"
  have replay: "?Q (Inr (resp, 200)) K'"
    if "view_transfers K1 (Transfer_ID t) = Some u" "grows K1 K'" "same_payload u t"
      "AuthResp_Status resp = ''approved''"
      "AuthResp_HoldTransferID resp = Authorization_RequestID request"
      "AuthResp_Timestamp resp = Transfer_Timestamp u"
      "AuthResp_ExpiresAt resp = Some (ledgerTime (Transfer_Timestamp u) (Service_authorizationTimeout s))"
    for u resp K1 K'
    using that grows_transfer [OF that(2,1)]
    by (auto simp: authorization_post_def committed_def same_payload_iff)
  have conflict: "?Q (Inl ErrIdempotencyConflict) K'"
    if "view_transfers K1 (Transfer_ID t) = Some u" "grows K1 K'" "\<not> same_payload u t" for u K1 K'
    using that grows_transfer [OF that(2,1)]
    by (auto simp: authorization_post_def payload_conflict_def)
  have decline: "?Q (Inr (resp, 200)) K'"
    if "AuthResp_Status resp = ''declined''" "AuthResp_LedgerStatus resp = ''not_submitted''"
      "AuthResp_ErrorCode resp = ''risk_limit_exceeded''" "view_transfers K0 (Transfer_ID t) = None"
    for resp K'
    using that limit by (simp add: authorization_post_def)
  show ?thesis
    unfolding Authorize_declined_def Let_def
  proof (rule wp_attempt_bind [OF observed_LookupTransfer_wp grows_ok [OF g0]], goal_cases)
    case (1 e K')
    then show ?case by (auto simp: transfer_lookup_law_def)
  next
    case (2 x K')
    then obtain K1 u found where x: "x = (u, found)" "grows K1 K'" "view_ok K'"
        "transfer_lookup_law (Transfer_ID t) (Inr (u, found)) K1" "grows K K1"
      by (cases x) auto
    note intro = complete_wp [OF x(3) authorization_post_stable]
    show ?case
    proof (cases found)
      case True
      then have u: "view_transfers K1 (Transfer_ID t) = Some u"
        using x(4) by (auto simp: transfer_lookup_law_def split: option.splits)
      show ?thesis
        using True replay [OF u x(2)] conflict [OF u x(2)]
        by (auto simp: x(1) fail_def zeroAuthorizationResponse_def intro!: intro)
    next
      case False
      then have "view_transfers K0 (Transfer_ID t) = None"
        by (rule lookup_absent [OF grows_trans [OF g0 x(5)] x(4)])
      with False show ?thesis
        using decline by (auto simp: x(1) zeroAuthorizationResponse_def intro!: intro)
    qed
  qed
qed

lemma Authorize_answer_post:
  assumes out: "transfer_outcome t (Inr res) K" and "\<not> transfer_differs (TransferResult_Status res)"
    and known: "transfer_known K1 t (Inr res)" "grows K0 K1"
  shows "authorization_post K0 s request (Some t) (Inr (Authorize_answer sdk s request ms res)) K"
proof (cases "TransferResult_Status res = TransferCreated \<or> TransferResult_Status res = TransferExists")
  case True
  then show ?thesis
    using outcome_committed [OF out True]
    by (simp add: Authorize_answer_def authorization_post_def zeroAuthorizationResponse_def)
next
  case False
  obtain code message status where e: "errorCode (TransferResult_Status res) = (code, message, status)"
    by (cases "errorCode (TransferResult_Status res)") auto
  have "rejected K0 t code status K"
    using out known False assms(2) e by (rule outcome_rejected)
  then show ?thesis
    using False by (cases "code = ''insufficient_funds''")
      (simp_all add: Authorize_answer_def authorization_post_def e zeroAuthorizationResponse_def
        Let_def rejected_insufficient)
qed

lemma Authorize_submit_wp:
  assumes g0: "grows K0 K" and t: "journal_entry sdk s K t"
  shows "wp (service_guar sdk s) (Authorize_submit sdk s request t started ms)
    (authorization_post K0 s request (Some t)) K"
proof -
  let ?Q = "authorization_post K0 s request (Some t)"
  have conflict: "?Q (Inl ErrIdempotencyConflict) K'"
    if "transfer_outcome t (Inr res) K'" "transfer_differs (TransferResult_Status res)" for res K'
    using outcome_conflict [OF that] by (simp add: authorization_post_def)
  have lost: "?Q (Inl e) K'" if "transfer_outcome t (Inl e) K'" for e K'
    using that by (simp add: transfer_outcome_def)
  show ?thesis
    unfolding Authorize_submit_def Let_def
    by (rule wp_bind [OF observed_CreateTransfer_wp])
      (use g0 t in \<open>auto simp: fail_def grows_ok split: sum.splits
        intro!: complete_wp authorization_post_stable intro: Authorize_answer_post conflict lost\<close>)
qed

section \<open>Increments\<close>

lemma increment_of_grows:
  "grows K K' \<Longrightarrow> increment_of sdk s request original K f \<Longrightarrow> increment_of sdk s request original K' f"
  unfolding increment_of_def using grows_transfer has_role_grows by blast

text \<open>The increment is determined by the request and the ledger.\<close>

lemma increment_of_unique:
  assumes "grows K0 K" "increment_of sdk s request original0 K0 f0" "increment_of sdk s request original K f"
  shows "original0 = original" "f0 = f"
  using assms(2,3) grows_transfer [OF assms(1)] by (fastforce simp: increment_of_def)+

lemma increment_absent:
  assumes "grows K0 K" "increment_of sdk s request original K f" "view_transfers K0 (Transfer_ID (f 0)) = None"
  shows "\<not> increment_exists sdk s request K0"
proof
  assume "increment_exists sdk s request K0"
  then obtain original0 f0 timeout ts where f0: "increment_of sdk s request original0 K0 f0"
      "committed (f0 timeout) ts K0"
    unfolding increment_exists_def by blast
  moreover have "Transfer_ID (f timeout) = Transfer_ID (f 0)"
    using assms(2) by (auto simp: increment_of_def increment_transfer_def)
  ultimately show False
    using increment_of_unique [OF assms(1) f0(1) assms(2)] assms(3) by (simp add: committed_def)
qed

lemma not_open_absent:
  assumes g: "grows K0 K" and auth: "parsePublicTigerBeetleID sdk (Increment_AuthorizationID request) = Inr auth"
    and original: "view_transfers K auth = Some original"
    and closed: "notOpenAuthorization sdk s original \<or>
      \<not> has_role sdk s K (Transfer_DebitAccountID original) AccountCardWallet"
  shows "\<not> increment_exists sdk s request K0"
proof
  assume "increment_exists sdk s request K0"
  then obtain original0 where "view_transfers K0 auth = Some original0"
      "\<not> notOpenAuthorization sdk s original0"
      "has_role sdk s K0 (Transfer_DebitAccountID original0) AccountCardWallet"
    using auth by (auto simp: increment_exists_def increment_of_def)
  then show False
    using closed original grows_transfer [OF g] has_role_grows [OF g] by fastforce
qed

lemma increment_post_error [simp]:
  "increment_post K0 sdk s request (Inl e) K" if "\<not> errors_Is e ErrIdempotencyConflict"
  using that by (simp add: increment_post_def)

lemma increment_post_stable: "stable_post (increment_post K0 sdk s request)"
  unfolding stable_post_def
proof (intro allI impI)
  fix r K K'
  assume g: "grows K K'" and post: "increment_post K0 sdk s request r K"
  note keep = increment_of_grows [OF g] committed_grows [OF g] rejected_grows [OF g]
    grows_failed [OF g] payload_conflict_grows [OF g]
  show "increment_post K0 sdk s request r K'"
  proof (cases r)
    case (Inl e)
    with post show ?thesis
      unfolding increment_post_def by simp (meson keep)
  next
    case (Inr x)
    with post show ?thesis
      unfolding increment_post_def by (cases x) (simp, meson keep)
  qed
qed

lemma increment_transfer_simps [simp]:
  "Transfer_ID (increment_transfer sdk s request original i auth timeout) = i"
  "Transfer_Timeout (increment_transfer sdk s request original i auth timeout) = timeout"
  "sameTransferExceptTimeout u (increment_transfer sdk s request original i auth timeout) \<longleftrightarrow>
     same_payload u (increment_transfer sdk s request original i auth (Transfer_Timeout u))"
  by (cases u; auto simp: increment_transfer_def zeroTransfer_def sameTransferExceptTimeout_def
      same_payload_def)+

text \<open>An existing transfer is the increment for the timeout it has, or conflicts with all of them.\<close>

lemma existing_increment:
  assumes f: "f = increment_transfer sdk s request original i auth"
    and u: "view_transfers K i = Some u"
  shows "if sameTransferExceptTimeout u (f timeout)
    then committed (f (Transfer_Timeout u)) (Transfer_Timestamp u) K
    else (\<forall>t. payload_conflict (f t) K)"
proof -
  have timeout: "t = Transfer_Timeout u" if "same_payload u (f t)" for t
    using arg_cong [OF iffD1 [OF same_payload_def that], of Transfer_Timeout] by (simp add: f)
  have same: "committed (f t) (Transfer_Timestamp u) K" if "same_payload u (f t)" for t
    using u iffD1 [OF same_payload_iff that] by (simp add: committed_def f)
  have except: "sameTransferExceptTimeout u (f timeout) \<longleftrightarrow> same_payload u (f (Transfer_Timeout u))"
    by (simp add: f)
  have ID: "Transfer_ID (f t) = i" for t
    by (simp add: f)
  show ?thesis
  proof (cases "same_payload u (f (Transfer_Timeout u))")
    case True
    then show ?thesis
      unfolding except using same by simp
  next
    case False
    then have "\<not> same_payload u (f t)" for t
      using timeout by metis
    then show ?thesis
      unfolding except payload_conflict_def ID using u by simp
  qed
qed

lemma lookupExistingIncrement_wp:
  assumes g0: "grows K0 K" and f: "increment_of sdk s request original K f"
    and i: "f = increment_transfer sdk s request original i auth"
  shows "wp G (lookupExistingIncrement sdk s request original i auth started ms)
    (\<lambda>r K'. case r of
       Inl e \<Rightarrow> increment_post K0 sdk s request (Inl e) K'
     | Inr None \<Rightarrow> \<not> increment_exists sdk s request K0
     | Inr (Some answer) \<Rightarrow> increment_post K0 sdk s request (Inr answer) K') K"
    (is "wp G _ ?Q K")
proof -
  have stable: "stable_post ?Q"
    using increment_post_stable [of K0 sdk s request]
    by (auto simp: stable_post_def split: sum.splits option.splits)
  show ?thesis
    unfolding lookupExistingIncrement_def increment_complete_def Let_def
  proof (rule wp_attempt_bind [OF observed_LookupTransfer_wp grows_ok [OF g0]], goal_cases)
    case (1 e K')
    then show ?case by (auto simp: transfer_lookup_law_def)
  next
    case (2 x K')
    then obtain K1 u found where x: "x = (u, found)" "grows K1 K'" "view_ok K'"
        "transfer_lookup_law i (Inr (u, found)) K1" "grows K K1"
      by (cases x) auto
    note intro = complete_wp [OF x(3) stable]
    have f': "increment_of sdk s request original K' f"
      using 2(2) f by (rule increment_of_grows)
    show ?case
    proof (cases found)
      case True
      then have "view_transfers K' i = Some u"
        using x(2,4) by (auto simp: transfer_lookup_law_def grows_transfer split: option.splits)
      note u = existing_increment [OF i this, where timeout = 0]
      show ?thesis
      proof (cases "sameTransferExceptTimeout u (f 0)")
        case True
        then have "increment_post K0 sdk s request (Inr (resp, 200)) K'"
          if "IncResp_Status resp = ''approved''" "IncResp_Timestamp resp = Transfer_Timestamp u"
            "IncResp_HoldTransferID resp = Increment_RequestID request" for resp
          using u f' that by (auto simp: increment_post_def)
        then show ?thesis
          using \<open>found\<close> True by (auto simp: x(1) i [symmetric] fun_cong [OF i, symmetric]
              zeroIncrementAuthorizationResponse_def intro!: intro)
      next
        case False
        then have "increment_post K0 sdk s request (Inl ErrIdempotencyConflict) K'"
          using u f' by (auto simp: increment_post_def)
        then show ?thesis
          using \<open>found\<close> False by (auto simp: x(1) fun_cong [OF i, symmetric] fail_def intro!: intro)
      qed
    next
      case False
      then have "view_transfers K0 i = None"
        by (rule lookup_absent [OF grows_trans [OF g0 x(5)] x(4)])
      then have "\<not> increment_exists sdk s request K0"
        using increment_absent [OF g0 f] by (simp add: i)
      with False show ?thesis by (simp add: x(1))
    qed
  qed
qed

text \<open>The answer to a submitted increment after differing timeouts have been resolved.\<close>

definition increment_outcome ::
  "ledger_view \<Rightarrow> (uint32 \<Rightarrow> Transfer) \<Rightarrow> uint32 \<Rightarrow> CreateTransferResult \<Rightarrow> ledger_view \<Rightarrow> bool" where
  "increment_outcome K1 f timeout res K \<longleftrightarrow>
     (if transfer_differs (TransferResult_Status res) then \<forall>t. payload_conflict (f t) K
      else if TransferResult_Status res = TransferCreated \<or> TransferResult_Status res = TransferExists
      then \<exists>t. committed (f t) (TransferResult_Timestamp res) K
      else transfer_outcome (f timeout) (Inr res) K \<and> transfer_known K1 (f timeout) (Inr res))"

lemma Increment_resolve_wp:
  assumes ok: "view_ok K" and out: "transfer_outcome (f timeout) (Inr res) K"
    and known: "transfer_known K1 (f timeout) (Inr res)"
    and f: "f = increment_transfer sdk s request original i auth"
  shows "wp G (Increment_resolve s (f timeout) res)
    (\<lambda>r K'. case r of Inl e \<Rightarrow> foreign_error e | Inr res' \<Rightarrow> increment_outcome K1 f timeout res' K') K"
proof (cases "TransferResult_Status res = TransferExistsWithDifferentTimeout")
  case True
  then obtain t0 where t0: "view_transfers K i = Some t0"
    using out by (auto simp: transfer_outcome_def f)
  show ?thesis
    unfolding Increment_resolve_def if_P [OF True]
  proof (rule wp_attempt_bind [OF observed_LookupTransfer_wp ok], goal_cases)
    case (1 e K')
    then show ?case by (auto simp: transfer_lookup_law_def)
  next
    case (2 x K')
    then obtain K1 u found where x: "x = (u, found)" "grows K K1"
        "transfer_lookup_law i (Inr (u, found)) K1"
      by (cases x) (auto simp: f)
    then have "found" "u = t0"
      using grows_transfer [OF x(2) t0] by (auto simp: transfer_lookup_law_def)
    moreover note existing_increment [OF f grows_transfer [OF 2(2) t0], of timeout]
    ultimately show ?case
      using True by (auto simp: x(1) increment_outcome_def split: if_splits)
  qed
next
  case False
  have "\<forall>t. payload_conflict (f t) K" if d: "transfer_differs (TransferResult_Status res)"
  proof -
    from out d obtain t0 where t0: "view_transfers K i = Some t0"
        "transfer_mismatch (TransferResult_Status res) t0 (f timeout)"
      by (auto simp: transfer_outcome_def f split: if_splits)
    then have "transfer_mismatch (TransferResult_Status res) t0 (f t)" for t
      using False by (cases "TransferResult_Status res") (simp_all add: f increment_transfer_def)
    with t0(1) show ?thesis
      by (auto simp: payload_conflict_def f dest: transfer_mismatch_differs)
  qed
  then show ?thesis
    using False out known outcome_committed [OF out]
    by (auto simp: Increment_resolve_def increment_outcome_def)
qed

lemma Increment_answer_post:
  assumes f: "increment_of sdk s request original K f" and out: "increment_outcome K1 f timeout res K"
    and "\<not> transfer_differs (TransferResult_Status res)"
    and g0: "grows K0 K1"
  shows "increment_post K0 sdk s request (Inr (Increment_answer sdk request ms res)) K"
proof (cases "TransferResult_Status res = TransferCreated \<or> TransferResult_Status res = TransferExists")
  case True
  then have "\<exists>t. committed (f t) (TransferResult_Timestamp res) K"
    using out assms(3) by (auto simp: increment_outcome_def)
  with True f show ?thesis
    by (auto simp: Increment_answer_def increment_post_def zeroIncrementAuthorizationResponse_def)
next
  case False
  obtain code message status where e: "errorCode (TransferResult_Status res) = (code, message, status)"
    by (cases "errorCode (TransferResult_Status res)") auto
  have "rejected K0 (f timeout) code status K"
    using out False assms(3,4) e
    by (intro outcome_rejected [where ?K1.0 = K1]) (auto simp: increment_outcome_def)
  with f have "code = ''insufficient_funds'' \<Longrightarrow> \<exists>original f timeout.
        increment_of sdk s request original K f \<and> Transfer_ID (f timeout) \<in> view_failed K"
      "\<exists>original f timeout. increment_of sdk s request original K f \<and> rejected K0 (f timeout) code status K"
    using rejected_insufficient by blast+
  with False show ?thesis
    by (cases "code = ''insufficient_funds''")
      (simp_all add: Increment_answer_def increment_post_def e zeroIncrementAuthorizationResponse_def
        Let_def)
qed

lemma Increment_submit_wp:
  assumes g0: "grows K0 K" and f: "increment_of sdk s request original K f"
    and t: "journal_entry sdk s K (f timeout)"
  shows "wp (service_guar sdk s) (Increment_submit sdk s request original (f timeout) started ms)
    (increment_post K0 sdk s request) K"
proof -
  let ?G = "service_guar sdk s" and ?Q = "increment_post K0 sdk s request"
  obtain i auth where i: "f = increment_transfer sdk s request original i auth"
    using f by (auto simp: increment_of_def)
  note complete = complete_wp [OF _ increment_post_stable]
  have resolved: "wp ?G (attempt (Increment_resolve s (f timeout) res) (\<lambda>result.
      if transfer_differs (TransferResult_Status result) then
        seq (increment_complete sdk s request original started ''conflict''
          (CreateTransferStatus_String sdk (TransferResult_Status result)) []) (\<lambda>_. fail ErrIdempotencyConflict)
      else
        seq (increment_complete sdk s request original started
            (IncResp_Status (fst (Increment_answer sdk request ms result)))
            (CreateTransferStatus_String sdk (TransferResult_Status result)) [])
          (\<lambda>_. Return (Inr (Increment_answer sdk request ms result))))) ?Q K'"
    if g: "grows K K'" and out: "transfer_outcome (f timeout) (Inr res) K'"
      and known: "transfer_known K (f timeout) (Inr res)" for res K'
  proof (rule wp_attempt_bind [OF Increment_resolve_wp [OF grows_ok [OF g] out known i] grows_ok [OF g]],
      goal_cases)
    case (1 e K2)
    then show ?case by simp
  next
    case (2 result K2)
    have f2: "increment_of sdk s request original K2 f"
      using grows_trans [OF g 2(2)] f by (rule increment_of_grows)
    have "?Q (Inl ErrIdempotencyConflict) K2" if "transfer_differs (TransferResult_Status result)"
      using 2(1) that f2 by (auto simp: increment_outcome_def increment_post_def)
    then show ?case
      using 2 f2 g0 by (auto simp: increment_complete_def fail_def grows_ok
          intro!: complete Increment_answer_post)
  qed
  have lost: "?Q (Inl e) K'" if "transfer_outcome t (Inl e) K'" for t e K'
    using that by (simp add: transfer_outcome_def)
  show ?thesis
    unfolding Increment_submit_def Let_def isIdempotencyConflict_iff
    by (rule wp_bind [OF observed_CreateTransfer_wp])
      (use g0 t resolved in \<open>auto simp: fail_def grows_ok increment_complete_def lost
        split: sum.splits intro!: complete\<close>)
qed

section \<open>The operations\<close>

context tb_sdk
begin

lemma amount_bounds [simp]:
  "x \<noteq> 0 \<Longrightarrow> 0 < uint (ToUint128 sdk x)" "uint (ToUint128 sdk x) < 18446744073709551616"
  using uint_lt2p [of x] by (simp_all add: ToUint128_ucast word_neq_0_conv word_less_def)

lemma requestID_valid: "requestID sdk v = Inr i \<Longrightarrow> i \<noteq> 0 \<and> i \<noteq> - 1"
  by (simp add: requestID_Inr)

lemma execute_posted_wp:
  assumes "grows K0 K" "requestID sdk v' = Inr i" "amount \<noteq> 0"
    and "code = 1001 \<and> debit = SafeguardedCashAccountID sdk \<and> has_role sdk s K credit AccountCorporateWallet
      \<or> code = 1002 \<and> has_role sdk s K debit AccountCorporateWallet \<and> credit = SafeguardedCashAccountID sdk
      \<or> code = 1201 \<and> linked_card sdk s K credit debit
      \<or> code = 1202 \<and> linked_card sdk s K debit credit"
  shows "wp (service_guar sdk s)
    (executeTransaction sdk s kind v (posted_transfer sdk s i debit credit amount code) ''posted'')
    (transaction_post K0 (Some (posted_transfer sdk s i debit credit amount code))) K"
proof (rule executeTransaction_wp [OF assms(1)])
  show "journal_entry sdk s K (posted_transfer sdk s i debit credit amount code)"
    using assms(3,4) requestID_valid [OF assms(2)]
    by (auto simp: journal_entry_def posted_entry_def posted_transfer_def zeroTransfer_def)
qed

text \<open>The step every operation shares: require a role, then go on where the account has it.\<close>

lemma attempt_require_wp:
  assumes "view_ok K"
    and "\<And>e K'. \<not> errors_Is e ErrIdempotencyConflict \<Longrightarrow> Q (Inl e) K'"
    and "\<And>m K'. grows K K' \<Longrightarrow> account_role sdk s K' i = Some m \<Longrightarrow> meta_kind m = kind \<Longrightarrow>
      wp (service_guar sdk s) (f m) Q K'"
  shows "wp (service_guar sdk s) (attempt (requireAccountKind sdk s i kind) f) Q K"
  by (rule wp_attempt_bind [OF requireAccountKind_wp [OF assms(1)] assms(1)])
    (auto intro!: assms(2,3) simp: foreign_error_def)

lemma TopUp_wp:
  assumes "grows K0 K"
  shows "wp (service_guar sdk s) (TopUp sdk s request) (transaction_post K0 (TopUp_intent sdk s request)) K"
proof -
  have "wp (service_guar sdk s) (attempt (requireAccountKind sdk s a AccountCorporateWallet) (\<lambda>_.
      executeTransaction sdk s OperationTopUp (TopUp_RequestID request)
        (posted_transfer sdk s i (SafeguardedCashAccountID sdk) a (TopUp_AmountCents request) 1001)
        ''posted'')) (transaction_post K0 (TopUp_intent sdk s request)) K"
    if "requestID sdk (TopUp_RequestID request) = Inr i"
      "accountID sdk ''account_id'' (TopUp_AccountID request) = Inr a"
      "TopUp_AmountCents request \<noteq> 0" for i a
    unfolding TopUp_intent_def that both.simps
    by (rule attempt_require_wp [OF grows_ok [OF assms]])
      (auto simp: has_role_def intro!: execute_posted_wp that intro: grows_trans assms)
  then show ?thesis
    by (auto simp: TopUp_def posted_transfer_def transfer_code_defs wp_check wp_fail
        split: sum.splits)
qed

lemma Withdraw_wp:
  assumes "grows K0 K"
  shows "wp (service_guar sdk s) (Withdraw sdk s request)
    (transaction_post K0 (Withdraw_intent sdk s request)) K"
proof -
  have "wp (service_guar sdk s) (attempt (requireAccountKind sdk s a AccountCorporateWallet) (\<lambda>_.
      executeTransaction sdk s OperationWithdrawal (Withdrawal_RequestID request)
        (posted_transfer sdk s i a (SafeguardedCashAccountID sdk) (Withdrawal_AmountCents request) 1002)
        ''posted'')) (transaction_post K0 (Withdraw_intent sdk s request)) K"
    if "requestID sdk (Withdrawal_RequestID request) = Inr i"
      "accountID sdk ''account_id'' (Withdrawal_AccountID request) = Inr a"
      "Withdrawal_AmountCents request \<noteq> 0" for i a
    unfolding Withdraw_intent_def that both.simps
    by (rule attempt_require_wp [OF grows_ok [OF assms]])
      (auto simp: has_role_def intro!: execute_posted_wp that intro: grows_trans assms)
  then show ?thesis
    by (auto simp: Withdraw_def posted_transfer_def transfer_code_defs wp_check wp_fail
        split: sum.splits)
qed

lemma moveCardFunds_wp:
  assumes "grows K0 K"
  shows "wp (service_guar sdk s) (moveCardFunds sdk s kind reqV accV cardV amount toCorporate)
    (transaction_post K0 (card_intent sdk s reqV accV cardV amount toCorporate)) K"
proof -
  let ?t = "\<lambda>i a c. if toCorporate then posted_transfer sdk s i c a amount 1202
    else posted_transfer sdk s i a c amount 1201"
  have "wp (service_guar sdk s) (attempt (requireAccountKind sdk s a AccountCorporateWallet) (\<lambda>_.
      attempt (requireAccountKind sdk s c AccountCardWallet) (\<lambda>m.
        if meta_corporateAccountID m \<noteq> a then fail (invalid ''card_id is not linked to account_id'')
        else executeTransaction sdk s kind reqV (?t i a c) ''posted'')))
      (transaction_post K0 (card_intent sdk s reqV accV cardV amount toCorporate)) K"
    if i: "requestID sdk reqV = Inr i" and a: "accountID sdk ''account_id'' accV = Inr a"
      and c: "accountID sdk ''card_id'' cardV = Inr c" and amount: "amount \<noteq> 0" for i a c
  proof -
    define t where "t = ?t i a c"
    have intent: "card_intent sdk s reqV accV cardV amount toCorporate = Some t"
      by (simp add: card_intent_def i a c t_def)
    have exec: "wp (service_guar sdk s) (executeTransaction sdk s kind reqV t ''posted'')
        (transaction_post K0 (Some t)) K'" if "grows K0 K'" "linked_card sdk s K' c a" for K'
      using execute_posted_wp [OF that(1) i amount] that(2) by (cases toCorporate) (auto simp: t_def)
    have linked: "linked_card sdk s K2 c (meta_corporateAccountID m2)"
      if "account_role sdk s K1 (meta_corporateAccountID m2) = Some m1"
        "meta_kind m1 = AccountCorporateWallet" "grows K1 K2"
        "account_role sdk s K2 c = Some m2" "meta_kind m2 = AccountCardWallet" for K1 K2 m1 m2
      using that account_role_grows [OF that(3,1)]
      by (cases m2) (auto simp: linked_card_def has_role_def)
    show ?thesis
      unfolding intent t_def [symmetric]
      by (rule attempt_require_wp [OF grows_ok [OF assms]], simp, rule attempt_require_wp)
        (auto simp: wp_fail grows_ok intro!: exec intro: linked grows_trans assms)
  qed
  moreover have body: "(let (debit, credit, code) =
        (if toCorporate then (c, a, TransferCodeCardReturn) else (a, c, TransferCodeCardAllocation))
      in executeTransaction sdk s kind reqV
           (zeroTransfer\<lparr>Transfer_ID := i, Transfer_DebitAccountID := debit,
              Transfer_CreditAccountID := credit, Transfer_Amount := ToUint128 sdk amount,
              Transfer_Ledger := Service_ledgerID s, Transfer_Code := code\<rparr>) ''posted'') =
      executeTransaction sdk s kind reqV (?t i a c) ''posted''" for i a c
    by (simp add: posted_transfer_def transfer_code_defs)
  ultimately show ?thesis
    unfolding moveCardFunds_def body
    by (cases "amount = 0") (auto simp: wp_check wp_fail split: sum.splits split del: if_split)
qed

lemma AllocateToCard_wp:
  "grows K0 K \<Longrightarrow> wp (service_guar sdk s) (AllocateToCard sdk s request)
    (transaction_post K0 (AllocateToCard_intent sdk s request)) K"
  unfolding AllocateToCard_def AllocateToCard_intent_def by (rule moveCardFunds_wp)

lemma ReturnFromCard_wp:
  "grows K0 K \<Longrightarrow> wp (service_guar sdk s) (ReturnFromCard sdk s request)
    (transaction_post K0 (ReturnFromCard_intent sdk s request)) K"
  unfolding ReturnFromCard_def ReturnFromCard_intent_def by (rule moveCardFunds_wp)

lemma uint_ToUint128 [simp]: "uint (ToUint128 sdk x) = uint x"
  by (simp add: ToUint128_ucast)

lemma authorization_entry:
  assumes "requestID sdk (Authorization_RequestID request) = Inr i"
    "has_role sdk s K c AccountCardWallet" "Authorization_AmountCents request \<noteq> 0"
    "Authorization_AmountCents request \<le> Service_riskLimitCents s"
  shows "journal_entry sdk s K (authorization_transfer sdk s request i c)"
  using assms requestID_valid [OF assms(1)] amount_bounds(1) [OF assms(3)]
    amount_bounds(2) [of "Authorization_AmountCents request"]
  by (auto simp: journal_entry_def hold_entry_def authorization_transfer_def zeroTransfer_def
      transfer_code_defs word_le_def split: prod.splits)

lemma Authorize_wp:
  assumes "grows K0 K"
  shows "wp (service_guar sdk s) (Authorize sdk s request)
    (authorization_post K0 s request (Authorize_intent sdk s request)) K"
proof -
  let ?G = "service_guar sdk s" and ?Q = "authorization_post K0 s request (Authorize_intent sdk s request)"
  let ?amount = "Authorization_AmountCents request"
  have decide: "wp ?G (Now (\<lambda>evaluated.
      let evaluationMS = Milliseconds (Time_Sub evaluated riskStarted) in
      if \<not> (?amount \<le> Service_riskLimitCents s)
      then Authorize_declined sdk s request (authorization_transfer sdk s request i c) started evaluationMS
      else Authorize_submit sdk s request (authorization_transfer sdk s request i c) started evaluationMS))
      (authorization_post K0 s request (Some (authorization_transfer sdk s request i c))) K'"
    if "has_role sdk s K' c AccountCardWallet" "?amount \<noteq> 0"
      "requestID sdk (Authorization_RequestID request) = Inr i" "grows K0 K'"
    for K' started riskStarted i c
    using that has_role_grows
    by (auto simp: Let_def grows_ok intro: grows_trans intro!: Authorize_declined_wp Authorize_submit_wp authorization_entry)
  have "wp ?G (attempt (requireAccountKind sdk s c AccountCardWallet) (\<lambda>_.
      Now (\<lambda>riskStarted. seq (evaluateRisk s ?amount) (\<lambda>risk. case risk of
        Inl err \<Rightarrow> fail (Errorf ''evaluate risk: '' err [])
      | Inr approved \<Rightarrow> Now (\<lambda>evaluated.
          let evaluationMS = Milliseconds (Time_Sub evaluated riskStarted) in
          if \<not> approved
          then Authorize_declined sdk s request (authorization_transfer sdk s request i c) started evaluationMS
          else Authorize_submit sdk s request (authorization_transfer sdk s request i c) started
            evaluationMS))))) ?Q K'"
    if g: "grows K K'"
      and i: "requestID sdk (Authorization_RequestID request) = Inr i"
      and c: "accountID sdk ''card_id'' (Authorization_CardID request) = Inr c" and "?amount \<noteq> 0"
    for K' started i c
    unfolding Authorize_intent_def i c both.simps
    by (rule attempt_require_wp [OF grows_ok [OF g]], simp, rule risk_wp)
      (auto simp: grows_ok has_role_def account_role_grows simp del: wp.simps intro!: decide i that(4)
        intro: grows_trans [OF grows_trans [OF grows_trans [OF assms g]]])
  then show ?thesis
    unfolding Authorize_def Let_def [of "authorization_transfer _ _ _ _ _"]
    by (auto simp: wp_check wp_fail split: sum.splits)
qed

lemma increment_entry:
  assumes f: "increment_of sdk s request original K f" and timeout: "timeout \<le> Transfer_Timeout original"
    and "Increment_IncrementCents request \<noteq> 0"
    "Increment_IncrementCents request \<le> Service_riskLimitCents s"
  shows "journal_entry sdk s K (f timeout)"
proof -
  obtain i auth where i: "requestID sdk (Increment_RequestID request) = Inr i" "i \<noteq> auth"
      "view_transfers K auth = Some original" "\<not> notOpenAuthorization sdk s original"
      "has_role sdk s K (Transfer_DebitAccountID original) AccountCardWallet"
      "f = increment_transfer sdk s request original i auth"
    using f by (auto simp: increment_of_def)
  show ?thesis
    using i requestID_valid [OF i(1)] assms(2-4) amount_bounds(1) [OF assms(3)]
      amount_bounds(2) [of "Increment_IncrementCents request"]
    by (auto simp: journal_entry_def hold_entry_def increment_transfer_def zeroTransfer_def
        transfer_code_defs word_le_def notOpenAuthorization_def)
qed

lemma Increment_evaluate_wp:
  assumes g0: "grows K0 K" and f: "increment_of sdk s request original K f"
    and i: "f = increment_transfer sdk s request original i auth"
    and amount: "Increment_IncrementCents request \<noteq> 0"
  shows "wp (service_guar sdk s) (Increment_evaluate sdk s request original i auth started)
    (increment_post K0 sdk s request) K"
proof -
  let ?G = "service_guar sdk s" and ?Q = "increment_post K0 sdk s request"
  let ?existing = "lookupExistingIncrement sdk s request original i auth started"
  note grow = increment_of_grows [OF _ f]
  have existing: "wp ?G (attempt (?existing ms) (\<lambda>answer. case answer of
      Some response \<Rightarrow> Return (Inr response) | None \<Rightarrow> p)) ?Q K'"
    if "grows K K'"
      "\<And>K2. grows K' K2 \<Longrightarrow> \<not> increment_exists sdk s request K0 \<Longrightarrow> wp ?G p ?Q K2" for ms p K'
    by (rule wp_attempt_bind [OF lookupExistingIncrement_wp
          [OF grows_trans [OF g0 that(1)] grow [OF that(1)] i]])
      (use that in \<open>auto simp: grows_ok split: option.splits\<close>)
  have submit: "wp ?G (Increment_submit sdk s request original
      (increment_transfer sdk s request original i auth (remainingSeconds original remaining))
      started ms) ?Q K'"
    if "grows K K'" "Increment_IncrementCents request \<le> Service_riskLimitCents s" for ms remaining K'
  proof -
    have "remainingSeconds original remaining \<le> Transfer_Timeout original"
      by (simp add: remainingSeconds_def)
    from Increment_submit_wp [OF grows_trans [OF g0 that(1)] grow [OF that(1)]
        increment_entry [OF grow [OF that(1)] this amount that(2)]]
    show ?thesis
      by (simp add: fun_cong [OF i, symmetric])
  qed
  have declined: "?Q (Inr (resp, 200)) K'"
    if "Service_riskLimitCents s < Increment_IncrementCents request"
      "IncResp_Status resp = ''declined''" "IncResp_LedgerStatus resp = ''not_submitted''"
      "IncResp_ErrorCode resp = ''risk_limit_exceeded''" "\<not> increment_exists sdk s request K0"
    for resp K'
    using that by (simp add: increment_post_def)
  have expired: "?Q (incrementFailure request ''authorization_not_open'' m 409 ms) K'"
    if "\<not> increment_exists sdk s request K0" for m ms K'
    using that by (simp add: incrementFailure_def increment_post_def zeroIncrementAuthorizationResponse_def)
  show ?thesis
    unfolding Increment_evaluate_def
    by (rule risk_wp [OF grows_ok [OF g0]])
      (auto simp: Let_def increment_complete_def zeroIncrementAuthorizationResponse_def
        intro!: existing submit expired complete_wp [OF _ increment_post_stable] declined
        intro: grows_trans grows_ok)
qed

lemma increment_closed:
  "\<not> increment_exists sdk s request K0 \<Longrightarrow>
   increment_post K0 sdk s request (incrementFailure request ''authorization_not_open'' m 409 0) K"
  by (simp add: incrementFailure_def increment_post_def zeroIncrementAuthorizationResponse_def)

text \<open>An open authorization: its card is checked and the increment is evaluated.\<close>

lemma Increment_open_wp:
  assumes g: "grows K0 K" and i: "requestID sdk (Increment_RequestID request) = Inr i"
    and auth: "parsePublicTigerBeetleID sdk (Increment_AuthorizationID request) = Inr auth"
      "i \<noteq> auth" "view_transfers K auth = Some original"
    and opened: "\<not> notOpenAuthorization sdk s original"
    and amount: "Increment_IncrementCents request \<noteq> 0"
  shows "wp (service_guar sdk s)
    (seq (requireAccountKind sdk s (Transfer_DebitAccountID original) AccountCardWallet)
      (\<lambda>required. case required of
         Inl err \<Rightarrow>
           if errors_Is err ErrAccountNotFound then
             Return (incrementFailure request ''authorization_not_open''
               ''the transfer is not an open authorization'' 409 0)
           else fail err
       | Inr _ \<Rightarrow> Increment_evaluate sdk s request original i auth started))
    (increment_post K0 sdk s request) K"
proof (rule wp_bind [OF requireAccountKind_wp [OF grows_ok [OF g]] grows_ok [OF g]], goal_cases)
  case (1 r K2)
  have absent: "\<not> increment_exists sdk s request K0"
    if "grows K K1" "\<not> has_role sdk s K1 (Transfer_DebitAccountID original) AccountCardWallet" for K1
    using not_open_absent [OF grows_trans [OF g that(1)] auth(1) grows_transfer [OF that(1) auth(3)]]
      that(2) by blast
  have "increment_of sdk s request original K2 (increment_transfer sdk s request original i auth)"
    if "account_role sdk s K2 (Transfer_DebitAccountID original) = Some m"
      "meta_kind m = AccountCardWallet" for m
    using that i auth opened grows_transfer [OF 1(2) auth(3)]
    by (auto simp: increment_of_def has_role_def)
  then show ?case
    using 1 increment_closed amount absent grows_trans [OF g 1(2)]
    by (auto simp: wp_fail foreign_error_def split: sum.splits intro!: Increment_evaluate_wp)
qed

lemma IncrementAuthorization_wp:
  assumes g0: "grows K0 K"
  shows "wp (service_guar sdk s) (IncrementAuthorization sdk s request)
    (increment_post K0 sdk s request) K"
proof -
  have "wp (service_guar sdk s) (attempt (observed_LookupTransfer s auth) (\<lambda>(original, found).
      if \<not> found then fail ErrAuthorizationNotFound
      else if notOpenAuthorization sdk s original then
        Return (incrementFailure request ''authorization_not_open''
          ''the transfer is not an open authorization'' 409 0)
      else seq (requireAccountKind sdk s (Transfer_DebitAccountID original) AccountCardWallet)
        (\<lambda>required. case required of
           Inl err \<Rightarrow>
             if errors_Is err ErrAccountNotFound then
               Return (incrementFailure request ''authorization_not_open''
                 ''the transfer is not an open authorization'' 409 0)
             else fail err
         | Inr _ \<Rightarrow> Increment_evaluate sdk s request original i auth started)))
      (increment_post K0 sdk s request) K'"
    if "grows K K'" "requestID sdk (Increment_RequestID request) = Inr i"
      "parsePublicTigerBeetleID sdk (Increment_AuthorizationID request) = Inr auth" "i \<noteq> auth"
      "Increment_IncrementCents request \<noteq> 0" for K' i auth started
  proof (rule wp_attempt_bind [OF observed_LookupTransfer_wp grows_ok [OF that(1)]], goal_cases)
    case (1 e K2)
    then show ?case by (auto simp: transfer_lookup_law_def)
  next
    case (2 x K2)
    obtain original found where x: "x = (original, found)" by fastforce
    have g2: "grows K0 K2"
      using grows_trans [OF grows_trans [OF g0 that(1)] 2(2)] .
    have original: "view_transfers K2 auth = Some original" if found
      using 2(1) that by (auto simp: x transfer_lookup_law_def dest: grows_transfer split: option.splits)
    show ?case
      using original not_open_absent [OF g2 that(3)] that g2
      by (auto simp: x wp_fail intro!: Increment_open_wp increment_closed)
  qed
  then show ?thesis
    unfolding IncrementAuthorization_def
    by (auto simp: wp_check wp_fail split: sum.splits)
qed

end

end
