(* ===== verification/Go_Parse.thy ===== *)
theory Go_Parse
  imports Go_Base "HOL-Library.Log_Nat"
begin

text \<open>
  The parsers of Go's standard library the configuration uses: \<open>strconv.ParseUint\<close> and
  \<open>strconv.Atoi\<close> in base ten, \<open>time.ParseDuration\<close> and \<open>strings.Split\<close>; and the rounding of
  \<open>float64\<close>, which \<open>ParseDuration\<close> uses for fractions.  An error is \<^const>\<open>None\<close>: the service
  discards the messages of these functions.
\<close>

section \<open>Integers\<close>

definition is_digit :: "char \<Rightarrow> bool" where
  "is_digit c \<longleftrightarrow> 48 \<le> (of_char c :: int) \<and> (of_char c :: int) \<le> 57"

definition digit_value :: "char \<Rightarrow> int" where
  "digit_value c = of_char c - 48"

definition read_digits :: "int \<Rightarrow> string \<Rightarrow> int" where
  "read_digits = foldl (\<lambda>x c. x * 10 + digit_value c)"

definition ParseUint :: "string \<Rightarrow> nat \<Rightarrow> int option" where
  "ParseUint s bits =
     (if s \<noteq> [] \<and> list_all is_digit s \<and> read_digits 0 s < 2 ^ bits then Some (read_digits 0 s)
      else None)"

definition Atoi :: "string \<Rightarrow> int option" where
  "Atoi s =
     (let neg = (s \<noteq> [] \<and> hd s = CHR ''-'');
          digits = (if s \<noteq> [] \<and> (hd s = CHR ''-'' \<or> hd s = CHR ''+'') then tl s else s)
      in case ParseUint digits 64 of
           None \<Rightarrow> None
         | Some un \<Rightarrow>
             if \<not> neg \<and> 2 ^ 63 \<le> un \<or> neg \<and> 2 ^ 63 < un then None
             else Some (if neg then - un else un))"

section \<open>Rounding of \<open>float64\<close>\<close>

text \<open>
  Round to nearest, ties to even, with a significand of 53 bits, for non-negative numbers of the
  normal range.
\<close>

definition two_power :: "int \<Rightarrow> rat" where
  "two_power e = (if 0 \<le> e then 2 ^ nat e else 1 / 2 ^ nat (- e))"

definition binary_exponent :: "rat \<Rightarrow> int" where
  "binary_exponent x =
     (let (n, d) = quotient_of x; k = bitlen n - bitlen d in if two_power k \<le> x then k else k - 1)"

definition round_half_even :: "rat \<Rightarrow> int" where
  "round_half_even q =
     (let f = \<lfloor>q\<rfloor>; r = q - of_int f in if r < 1 / 2 \<or> r = 1 / 2 \<and> even f then f else f + 1)"

definition float64 :: "rat \<Rightarrow> rat" where
  "float64 x =
     (if x = 0 then 0
      else let u = two_power (binary_exponent x - 52) in of_int (round_half_even (x / u)) * u)"

section \<open>Durations\<close>

text \<open>
  \<open>leadingInt\<close> and \<open>leadingFraction\<close> of package \<open>time\<close>.  The numbers are unsigned 64-bit integers;
  the checks before each step keep them in range.
\<close>

fun leadingInt :: "int \<Rightarrow> string \<Rightarrow> (int \<times> string) option" where
  "leadingInt x [] = Some (x, [])"
| "leadingInt x (c # s) =
     (if \<not> is_digit c then Some (x, c # s)
      else if 2 ^ 63 div 10 < x then None
      else let x' = x * 10 + digit_value c in if 2 ^ 63 < x' then None else leadingInt x' s)"

fun leadingFraction :: "bool \<Rightarrow> int \<Rightarrow> rat \<Rightarrow> string \<Rightarrow> int \<times> rat \<times> string" where
  "leadingFraction overflow x scale [] = (x, scale, [])"
| "leadingFraction overflow x scale (c # s) =
     (if \<not> is_digit c then (x, scale, c # s)
      else if overflow then leadingFraction True x scale s
      else if (2 ^ 63 - 1) div 10 < x then leadingFraction True x scale s
      else let y = x * 10 + digit_value c in
        if 2 ^ 63 < y then leadingFraction True x scale s
        else leadingFraction False y (float64 (scale * 10)) s)"

definition unitMap :: "string \<Rightarrow> int option" where
  "unitMap = map_of
     [(''ns'', 1), (''us'', 1000), ([CHR 0xC2, CHR 0xB5, CHR ''s''], 1000),
      ([CHR 0xCE, CHR 0xBC, CHR ''s''], 1000), (''ms'', 1000000), (''s'', 1000000000),
      (''m'', 60000000000), (''h'', 3600000000000)]"

text \<open>One number with its unit: its nanoseconds and the rest of the string.\<close>

definition duration_part :: "string \<Rightarrow> (int \<times> string) option" where
  "duration_part s =
     (if \<not> (hd s = CHR ''.'' \<or> is_digit (hd s)) then None
      else case leadingInt 0 s of
        None \<Rightarrow> None
      | Some (v, s1) \<Rightarrow>
          let pre = (length s \<noteq> length s1);
              (post, f, scale, s2) =
                (if s1 \<noteq> [] \<and> hd s1 = CHR ''.'' then
                   case leadingFraction False 0 1 (tl s1) of (f, scale, s2) \<Rightarrow>
                     (length (tl s1) \<noteq> length s2, f, scale, s2)
                 else (False, 0, 1, s1));
              unitName = takeWhile (\<lambda>c. c \<noteq> CHR ''.'' \<and> \<not> is_digit c) s2
          in if \<not> pre \<and> \<not> post then None
             else if unitName = [] then None
             else case unitMap unitName of
               None \<Rightarrow> None
             | Some unit \<Rightarrow>
                 if 2 ^ 63 div unit < v then None
                 else
                   let v1 = v * unit;
                       v2 = (if 0 < f
                             then v1 + \<lfloor>float64 (float64 (of_int f) * float64 (of_int unit / scale))\<rfloor>
                             else v1)
                   in if 2 ^ 63 < v2 then None else Some (v2, drop (length unitName) s2))"

lemma leadingInt_length: "leadingInt x s = Some (v, r) \<Longrightarrow> length r \<le> length s"
  by (induction x s rule: leadingInt.induct) (auto simp: Let_def split: if_splits)

lemma leadingFraction_length:
  "leadingFraction overflow x scale s = (f, sc, r) \<Longrightarrow> length r \<le> length s"
  by (induction overflow x scale s rule: leadingFraction.induct) (auto simp: Let_def split: if_splits)

lemma duration_part_length: "duration_part s = Some (v, r) \<Longrightarrow> s \<noteq> [] \<Longrightarrow> length r < length s"
  by (auto simp: duration_part_def Let_def split: if_splits option.splits prod.splits
      dest!: leadingInt_length leadingFraction_length)

text \<open>The sum of the parts; \<open>d += v\<close> is an addition of unsigned 64-bit integers.\<close>

function duration_sum :: "int \<Rightarrow> string \<Rightarrow> int option" where
  "duration_sum d s =
     (if s = [] then Some d
      else case duration_part s of
        None \<Rightarrow> None
      | Some (v, rest) \<Rightarrow>
          let d' = (d + v) mod 2 ^ 64 in if 2 ^ 63 < d' then None else duration_sum d' rest)"
  by pat_completeness auto
termination
  by (relation "measure (\<lambda>(d, s). length s)") (auto simp: duration_part_length)

declare duration_sum.simps [simp del]

definition ParseDuration :: "string \<Rightarrow> Duration option" where
  "ParseDuration orig =
     (let neg = (orig \<noteq> [] \<and> hd orig = CHR ''-'');
          s = (if orig \<noteq> [] \<and> (hd orig = CHR ''-'' \<or> hd orig = CHR ''+'') then tl orig else orig)
      in if s = ''0'' then Some 0
         else if s = [] then None
         else case duration_sum 0 s of
           None \<Rightarrow> None
         | Some d \<Rightarrow>
             if neg then Some (wrap_int64 (- wrap_int64 d))
             else if 2 ^ 63 - 1 < d then None
             else Some d)"

section \<open>Strings\<close>

text \<open>\<open>strings.Split\<close> for a separator of one byte.\<close>

fun Split :: "char \<Rightarrow> string \<Rightarrow> string list" where
  "Split sep [] = [[]]"
| "Split sep (c # s) =
     (if c = sep then [] # Split sep s
      else case Split sep s of [] \<Rightarrow> [[c]] | w # ws \<Rightarrow> (c # w) # ws)"

text \<open>\<open>strings.Join\<close>, the inverse of \<open>Split\<close>.\<close>

fun Join :: "char \<Rightarrow> string list \<Rightarrow> string" where
  "Join sep [] = []"
| "Join sep [w] = w"
| "Join sep (w # ws) = w @ sep # Join sep ws"

section \<open>Lemmas\<close>

lemma digit_char [simp]:
  assumes "n < 10"
  shows "is_digit (char_of (48 + n :: nat))" "digit_value (char_of (48 + n :: nat)) = int n"
proof -
  have "(of_char (char_of (48 + n :: nat)) :: int) = int (of_char (char_of (48 + n)))"
    by (simp only: of_nat_of_char)
  also have "\<dots> = 48 + int n"
    using assms by (simp add: of_char_of)
  finally show "is_digit (char_of (48 + n :: nat))" "digit_value (char_of (48 + n :: nat)) = int n"
    using assms by (simp_all add: is_digit_def digit_value_def)
qed

lemma read_digits_simps [simp]:
  "read_digits x [] = x" "read_digits x (c # s) = read_digits (x * 10 + digit_value c) s"
  "read_digits x (s @ t) = read_digits (read_digits x s) t"
  by (simp_all add: read_digits_def)

lemma show_nat_nonempty [simp]: "show_nat n \<noteq> []"
  by (subst show_nat.simps) simp

lemma show_nat_digits: "list_all is_digit (show_nat n) \<and> read_digits 0 (show_nat n) = int n"
proof (induction n rule: show_nat.induct)
  case (1 n)
  show ?case
  proof (cases "n < 10")
    case True
    then have "show_nat n = [char_of (48 + n)]"
      by (subst show_nat.simps) simp
    with True show ?thesis by simp
  next
    case False
    then have "show_nat n = show_nat (n div 10) @ [char_of (48 + n mod 10)]"
      by (subst show_nat.simps) simp
    moreover have "int (n div 10) * 10 + int (n mod 10) = int n"
      by (metis div_mult_mod_eq of_nat_add of_nat_mult of_nat_numeral)
    ultimately show ?thesis
      using 1 [OF False] by simp
  qed
qed

lemma digit_value_nonneg: "is_digit c \<Longrightarrow> 0 \<le> digit_value c"
  by (simp add: is_digit_def digit_value_def)

lemma read_digits_mono: "0 \<le> x \<Longrightarrow> list_all is_digit s \<Longrightarrow> x \<le> read_digits x s"
proof (induction s arbitrary: x)
  case (Cons c s)
  then have "x \<le> x * 10 + digit_value c"
    using digit_value_nonneg [of c] by simp
  also have "\<dots> \<le> read_digits (x * 10 + digit_value c) s"
    using Cons digit_value_nonneg [of c] by simp
  finally show ?case by simp
qed simp

lemma leadingInt_digits:
  assumes "0 \<le> x" "list_all is_digit ds" "read_digits x ds \<le> 2 ^ 63" "rest = [] \<or> \<not> is_digit (hd rest)"
  shows "leadingInt x (ds @ rest) = Some (read_digits x ds, rest)"
  using assms(1-3)
proof (induction ds arbitrary: x)
  case Nil
  with assms(4) show ?case by (cases rest) auto
next
  case (Cons c ds)
  have "0 \<le> digit_value c"
    using Cons.prems(2) digit_value_nonneg by simp
  moreover from this have "x * 10 + digit_value c \<le> 2 ^ 63"
    using Cons.prems read_digits_mono [of "x * 10 + digit_value c" ds] by simp
  ultimately show ?case using Cons by simp
qed

lemma hd_show_nat: "is_digit (hd (show_nat n))"
  using show_nat_digits [of n] by (cases "show_nat n") auto

lemma Join_Cons: "Join sep (w # ws) = (if ws = [] then w else w @ sep # Join sep ws)"
  by (cases ws) simp_all

lemma Split_nonempty [simp]: "Split sep s \<noteq> []"
  by (cases s) (simp_all split: list.splits)

lemma Split_append: "sep \<notin> set w \<Longrightarrow> Split sep (w @ sep # s) = w # Split sep s"
  by (induction w) auto

lemma Split_single: "sep \<notin> set w \<Longrightarrow> Split sep w = [w]"
  by (induction w) auto

section \<open>Round trips\<close>

text \<open>
  Numbers survive printing and parsing: a decimal number is read back exactly by \<open>ParseUint\<close>
  when it fits the width, and is an error otherwise.
\<close>

lemma ParseUint_show:
  "ParseUint (show_nat n) bits = (if int n < 2 ^ bits then Some (int n) else None)"
  using show_nat_digits [of n] by (simp add: ParseUint_def)

text \<open>
  Durations survive printing and parsing: a whole number of any unit of \<open>time.ParseDuration\<close>,
  followed by the name of the unit, is read back exactly whenever it fits a \<open>Duration\<close>.
\<close>

lemma ParseDuration_unit:
  assumes "unitMap u = Some unit" "int n * unit < 2 ^ 63"
  shows "ParseDuration (show_nat n @ u) = Some (int n * unit)"
proof -
  have u: "u \<noteq> []" "list_all (\<lambda>c. c \<noteq> CHR ''.'' \<and> \<not> is_digit c) u" "0 < unit"
    using assms(1) by (auto simp: unitMap_def is_digit_def split: if_splits)
  then have hd: "\<not> is_digit (hd u)" "hd u \<noteq> CHR ''.''"
    by (cases u; simp)+
  have "int n \<le> int n * unit" using u(3) by (simp add: mult_le_cancel_left1)
  then have n: "int n \<le> 2 ^ 63" using assms(2) by linarith
  have lead: "leadingInt 0 (show_nat n @ u) = Some (int n, u)"
    using leadingInt_digits [of 0 "show_nat n" u] show_nat_digits [of n] hd n by simp
  have fits: "int n \<le> 2 ^ 63 div unit"
    using zdiv_mono1 [of "int n * unit" "2 ^ 63" unit] u(3) assms(2) by simp
  have unitName: "takeWhile (\<lambda>c. c \<noteq> CHR ''.'' \<and> \<not> is_digit c) u = u"
    using u(2) by (auto simp: takeWhile_eq_all_conv list_all_iff)
  have "duration_part (show_nat n @ u) = Some (int n * unit, [])"
    using lead hd_show_nat [of n] hd u assms fits
    by (simp add: duration_part_def Let_def hd_append unitName)
  then have sum: "duration_sum 0 (show_nat n @ u) = Some (int n * unit)"
    using assms(2) u(3) by (subst duration_sum.simps) (simp add: Let_def duration_sum.simps)
  have sign: "hd (show_nat n @ u) \<noteq> CHR ''-''" "hd (show_nat n @ u) \<noteq> CHR ''+''"
    using hd_show_nat [of n] by (auto simp: hd_append is_digit_def)
  have "show_nat n @ u \<noteq> ''0''"
    using u(1) by (cases "show_nat n") auto
  with sum sign show ?thesis
    using assms(2) by (simp add: ParseDuration_def Let_def)
qed

text \<open>
  Addresses survive joining and splitting: a list of strings without commas, joined with
  commas, is split into the same list.
\<close>

lemma Split_Join:
  assumes "ws \<noteq> []" "\<forall>w \<in> set ws. sep \<notin> set w"
  shows "Split sep (Join sep ws) = ws"
  using assms by (induction ws) (auto simp: Join_Cons Split_append Split_single)

section \<open>Rounding is monotone and exact on small integers\<close>

lemma two_power_int: "two_power e = power_int 2 e"
  by (simp add: two_power_def power_int_def inverse_eq_divide power_one_over)

lemma two_power_add: "two_power (a + b) = two_power a * two_power b"
  by (simp add: two_power_int power_int_add)

lemma two_power_pos [simp]: "0 < two_power e"
  by (simp add: two_power_def)

lemma two_power_nonneg [simp]: "0 \<le> two_power e" and two_power_nonzero [simp]: "two_power e \<noteq> 0"
  using two_power_pos [of e] by linarith+

lemma two_power_mono: "a \<le> b \<Longrightarrow> two_power a \<le> two_power b"
  by (simp add: two_power_int power_int_increasing)

lemma two_power_less: "two_power a < two_power b \<Longrightarrow> a < b"
  using two_power_mono [of b a] by linarith

lemma binary_exponent_bounds:
  assumes "0 < x"
  shows "two_power (binary_exponent x) \<le> x \<and> x < two_power (binary_exponent x + 1)"
proof -
  obtain n d where q: "quotient_of x = (n, d)" by fastforce
  have d: "0 < d" and x: "x = of_int n / of_int d"
    using q by (simp_all add: quotient_of_denom_pos quotient_of_div)
  with assms have n: "0 < n" by (simp add: zero_less_divide_iff)
  have bits: "two_power (bitlen i - 1) \<le> of_int i \<and> of_int i < two_power (bitlen i)" if "0 < i" for i
  proof -
    have "0 < bitlen i" using that floorlog_eq_zero_iff [of 2 "nat i"] by (simp add: bitlen_def)
    moreover have "(of_int (2 ^ nat (bitlen i - 1)) :: rat) \<le> of_int i" "(of_int i :: rat) < of_int (2 ^ nat (bitlen i))"
      using bitlen_bounds [OF that] by (simp_all only: of_int_le_iff of_int_less_iff)
    ultimately show ?thesis by (simp add: two_power_def)
  qed
  let ?k = "bitlen n - bitlen d"
  have "x < two_power (bitlen n) / two_power (bitlen d - 1)"
    unfolding x using bits [OF n] bits [OF d] n by (intro frac_less) auto
  then have upper: "x < two_power (?k + 1)"
    by (simp add: two_power_int flip: power_int_diff) (simp add: algebra_simps)
  have "two_power (bitlen n - 1) / two_power (bitlen d) \<le> x"
    unfolding x using bits [OF n] bits [OF d] d n by (intro frac_le) auto
  then have lower: "two_power (?k - 1) \<le> x"
    by (simp add: two_power_int flip: power_int_diff) (simp add: algebra_simps)
  show ?thesis
    using upper lower by (auto simp: binary_exponent_def q Let_def)
qed

lemma round_half_even_int [simp]: "round_half_even (of_int z) = z"
  by (simp add: round_half_even_def Let_def)

lemma round_half_even_mono: "q \<le> q' \<Longrightarrow> round_half_even q \<le> round_half_even q'"
proof -
  assume le: "q \<le> q'"
  show ?thesis
  proof (cases "\<lfloor>q\<rfloor> = \<lfloor>q'\<rfloor>")
    case True
    with le show ?thesis by (auto simp: round_half_even_def Let_def)
  next
    case False
    with floor_mono [OF le] show ?thesis by (auto simp: round_half_even_def Let_def)
  qed
qed

lemma float64_0 [simp]: "float64 0 = 0"
  by (simp add: float64_def)

lemma float64_binade:
  assumes "0 < x"
  shows "two_power (binary_exponent x) \<le> float64 x \<and> float64 x \<le> two_power (binary_exponent x + 1)"
proof -
  let ?e = "binary_exponent x" and ?u = "two_power (binary_exponent x - 52)"
  have u: "two_power ?e = of_int (2 ^ 52) * ?u" "two_power (?e + 1) = of_int (2 ^ 53) * ?u"
    using two_power_add [of 52 "?e - 52"] two_power_add [of 53 "?e - 52"]
    by (simp_all add: two_power_def [of 52] two_power_def [of 53] add.commute [of 1])
  have "of_int (2 ^ 52) \<le> x / ?u" "x / ?u \<le> of_int (2 ^ 53)"
    using binary_exponent_bounds [OF assms] unfolding u by (simp_all add: pos_le_divide_eq pos_divide_le_eq)
  then have "2 ^ 52 \<le> round_half_even (x / ?u)" "round_half_even (x / ?u) \<le> 2 ^ 53"
    using round_half_even_mono [of "of_int (2 ^ 52)" "x / ?u"] round_half_even_mono [of "x / ?u" "of_int (2 ^ 53)"]
    by (simp_all only: round_half_even_int)
  then have "of_int (2 ^ 52) * ?u \<le> of_int (round_half_even (x / ?u)) * ?u"
      "of_int (round_half_even (x / ?u)) * ?u \<le> of_int (2 ^ 53) * ?u"
    by (simp_all only: mult_le_cancel_right_pos two_power_pos of_int_le_iff)
  with assms show ?thesis
    unfolding u by (simp add: float64_def Let_def)
qed

lemma float64_mono:
  assumes "0 \<le> x" "x \<le> y"
  shows "float64 x \<le> float64 y"
proof (cases "x = 0 \<or> binary_exponent x = binary_exponent y")
  case True
  show ?thesis
  proof (cases "x = 0")
    case True
    have "0 \<le> float64 y"
      using float64_binade [of y] assms by (cases "y = 0") (auto intro: order_trans [OF two_power_nonneg])
    with True show ?thesis by simp
  next
    case False
    with True assms show ?thesis
      by (auto simp: float64_def Let_def intro!: mult_right_mono round_half_even_mono divide_right_mono
          less_imp_le [OF two_power_pos])
  qed
next
  case False
  with assms have x: "0 < x" and y: "0 < y" by auto
  have "two_power (binary_exponent x) < two_power (binary_exponent y + 1)"
    using binary_exponent_bounds [OF x] binary_exponent_bounds [OF y] assms by linarith
  with False have "binary_exponent x + 1 \<le> binary_exponent y"
    using two_power_less by fastforce
  then show ?thesis
    using float64_binade [OF x] float64_binade [OF y] two_power_mono by (meson order_trans)
qed

lemma float64_int:
  assumes "0 \<le> n" "n < 2 ^ 53"
  shows "float64 (of_int n) = of_int n"
proof (cases "n = 0")
  case False
  then have n: "(0 :: rat) < of_int n" using assms by simp
  let ?e = "binary_exponent (of_int n)"
  have "two_power ?e < two_power 53"
    using binary_exponent_bounds [OF n] assms(2) by (simp add: two_power_def)
  then have "?e \<le> 52" using two_power_less by fastforce
  then have u: "1 / two_power (?e - 52) = of_int (2 ^ nat (52 - ?e))"
    by (simp add: two_power_def)
  have "of_int n / two_power (?e - 52) = of_int (n * 2 ^ nat (52 - ?e))"
    using u by (simp add: divide_simps)
  moreover from this have "round_half_even (of_int n / two_power (?e - 52)) = n * 2 ^ nat (52 - ?e)"
    by (simp only: round_half_even_int)
  ultimately have "of_int (round_half_even (of_int n / two_power (?e - 52))) = of_int n / two_power (?e - 52)"
    by simp
  then show ?thesis
    using False two_power_pos [of "?e - 52"] by (simp add: float64_def Let_def)
qed simp

end
