(* ===== verification/Go_Text.thy ===== *)
theory Go_Text
  imports Go_Parse
begin

text \<open>
  Text in Go's standard library: runes and their UTF-8 encoding (\<open>unicode/utf8\<close>), \<open>strconv.Quote\<close>,
  which error messages use, and \<open>strings.EqualFold\<close>.  Decoding replaces every byte that does not
  belong to a well-formed sequence by the replacement character U+FFFD.
\<close>

section \<open>Runes\<close>

abbreviation RuneError :: nat where
  "RuneError \<equiv> 0xFFFD"

abbreviation byte_of :: "char \<Rightarrow> nat" where
  "byte_of c \<equiv> of_char c"

definition continuation :: "nat \<Rightarrow> bool" where
  "continuation b \<longleftrightarrow> 0x80 \<le> b \<and> b \<le> 0xBF"

text \<open>The well-formed sequences of two, three and four bytes.\<close>

definition sequence2 :: "nat \<Rightarrow> nat \<Rightarrow> bool" where
  "sequence2 b0 b1 \<longleftrightarrow> 0xC2 \<le> b0 \<and> b0 \<le> 0xDF \<and> continuation b1"

definition sequence3 :: "nat \<Rightarrow> nat \<Rightarrow> nat \<Rightarrow> bool" where
  "sequence3 b0 b1 b2 \<longleftrightarrow>
     0xE0 \<le> b0 \<and> b0 \<le> 0xEF \<and> continuation b1 \<and> continuation b2 \<and>
     (b0 = 0xE0 \<longrightarrow> 0xA0 \<le> b1) \<and> (b0 = 0xED \<longrightarrow> b1 \<le> 0x9F)"

definition sequence4 :: "nat \<Rightarrow> nat \<Rightarrow> nat \<Rightarrow> nat \<Rightarrow> bool" where
  "sequence4 b0 b1 b2 b3 \<longleftrightarrow>
     0xF0 \<le> b0 \<and> b0 \<le> 0xF4 \<and> continuation b1 \<and> continuation b2 \<and> continuation b3 \<and>
     (b0 = 0xF0 \<longrightarrow> 0x90 \<le> b1) \<and> (b0 = 0xF4 \<longrightarrow> b1 \<le> 0x8F)"

definition rune2 :: "nat \<Rightarrow> nat \<Rightarrow> nat" where
  "rune2 b0 b1 = (b0 - 0xC0) * 64 + (b1 - 0x80)"

definition rune3 :: "nat \<Rightarrow> nat \<Rightarrow> nat \<Rightarrow> nat" where
  "rune3 b0 b1 b2 = (b0 - 0xE0) * 4096 + (b1 - 0x80) * 64 + (b2 - 0x80)"

definition rune4 :: "nat \<Rightarrow> nat \<Rightarrow> nat \<Rightarrow> nat \<Rightarrow> nat" where
  "rune4 b0 b1 b2 b3 = (b0 - 0xF0) * 262144 + (b1 - 0x80) * 4096 + (b2 - 0x80) * 64 + (b3 - 0x80)"

text \<open>\<open>utf8.DecodeRune\<close>: the first rune of a string and the number of its bytes.\<close>

definition DecodeRune :: "string \<Rightarrow> nat \<times> nat" where
  "DecodeRune s =
     (case s of
        [] \<Rightarrow> (RuneError, 0)
      | c0 # s0 \<Rightarrow>
          if byte_of c0 < 0x80 then (byte_of c0, 1)
          else case s0 of
            [] \<Rightarrow> (RuneError, 1)
          | c1 # s1 \<Rightarrow>
              if sequence2 (byte_of c0) (byte_of c1) then (rune2 (byte_of c0) (byte_of c1), 2)
              else case s1 of
                [] \<Rightarrow> (RuneError, 1)
              | c2 # s2 \<Rightarrow>
                  if sequence3 (byte_of c0) (byte_of c1) (byte_of c2)
                  then (rune3 (byte_of c0) (byte_of c1) (byte_of c2), 3)
                  else case s2 of
                    [] \<Rightarrow> (RuneError, 1)
                  | c3 # s3 \<Rightarrow>
                      if sequence4 (byte_of c0) (byte_of c1) (byte_of c2) (byte_of c3)
                      then (rune4 (byte_of c0) (byte_of c1) (byte_of c2) (byte_of c3), 4)
                      else (RuneError, 1))"

definition IsSurrogate :: "nat \<Rightarrow> bool" where
  "IsSurrogate r \<longleftrightarrow> 0xD800 \<le> r \<and> r < 0xE000"

text \<open>\<open>utf8.EncodeRune\<close>; surrogates and numbers beyond U+10FFFF are written as U+FFFD.\<close>

definition EncodeRune :: "nat \<Rightarrow> string" where
  "EncodeRune r =
     map char_of
       (if r < 0x80 then [r]
        else if r < 0x800 then [0xC0 + r div 64, 0x80 + r mod 64]
        else if IsSurrogate r \<or> 0x10FFFF < r then [0xEF, 0xBF, 0xBD]
        else if r < 0x10000 then [0xE0 + r div 4096, 0x80 + r div 64 mod 64, 0x80 + r mod 64]
        else [0xF0 + r div 262144, 0x80 + r div 4096 mod 64, 0x80 + r div 64 mod 64, 0x80 + r mod 64])"

lemma DecodeRune_size: "DecodeRune (c # s) = (r, n) \<Longrightarrow> 0 < n \<and> n \<le> length (c # s)"
  by (auto simp: DecodeRune_def split: if_splits list.splits)

text \<open>A string with every byte outside a well-formed sequence replaced, and whether there is none.\<close>

function ToValidUTF8 :: "string \<Rightarrow> string" where
  "ToValidUTF8 [] = []"
| "ToValidUTF8 (c # s) =
     (case DecodeRune (c # s) of (r, n) \<Rightarrow> EncodeRune r @ ToValidUTF8 (drop n (c # s)))"
  by pat_completeness auto
termination
  by (relation "measure length") (auto dest: DecodeRune_size [OF sym])

function valid_utf8 :: "string \<Rightarrow> bool" where
  "valid_utf8 [] \<longleftrightarrow> True"
| "valid_utf8 (c # s) \<longleftrightarrow>
     (case DecodeRune (c # s) of (r, n) \<Rightarrow> \<not> (r = RuneError \<and> n = 1) \<and> valid_utf8 (drop n (c # s)))"
  by pat_completeness auto
termination
  by (relation "measure length") (auto dest: DecodeRune_size [OF sym])

declare ToValidUTF8.simps(2) [simp del] valid_utf8.simps(2) [simp del]

section \<open>Quoting\<close>

definition hex_digit :: "nat \<Rightarrow> char" where
  "hex_digit n = (if n < 10 then char_of (48 + n) else char_of (87 + n))"

fun hex_digits :: "nat \<Rightarrow> nat \<Rightarrow> string" where
  "hex_digits 0 n = []"
| "hex_digits (Suc k) n = hex_digits k (n div 16) @ [hex_digit (n mod 16)]"

text \<open>
  \<open>strconv.Quote\<close>.  The table of printable runes beyond ASCII, which depends on the version of
  Unicode, is the argument \<open>is_print\<close>.
\<close>

definition escaped_rune :: "(nat \<Rightarrow> bool) \<Rightarrow> nat \<Rightarrow> string" where
  "escaped_rune is_print r =
     (if r = 0x22 \<or> r = 0x5C then [CHR 0x5C, char_of r]
      else if (if r < 0x80 then 0x20 \<le> r \<and> r < 0x7F else is_print r) then EncodeRune r
      else if r = 7 then [CHR 0x5C, CHR ''a'']
      else if r = 8 then [CHR 0x5C, CHR ''b'']
      else if r = 12 then [CHR 0x5C, CHR ''f'']
      else if r = 10 then [CHR 0x5C, CHR ''n'']
      else if r = 13 then [CHR 0x5C, CHR ''r'']
      else if r = 9 then [CHR 0x5C, CHR ''t'']
      else if r = 11 then [CHR 0x5C, CHR ''v'']
      else if r < 0x20 \<or> r = 0x7F then [CHR 0x5C, CHR ''x''] @ hex_digits 2 r
      else if r < 0x10000 then [CHR 0x5C, CHR ''u''] @ hex_digits 4 r
      else [CHR 0x5C, CHR ''U''] @ hex_digits 8 r)"

function escaped_string :: "(nat \<Rightarrow> bool) \<Rightarrow> string \<Rightarrow> string" where
  "escaped_string is_print [] = []"
| "escaped_string is_print (c # s) =
     (case DecodeRune (c # s) of (r, n) \<Rightarrow>
        (if r = RuneError \<and> n = 1 then [CHR 0x5C, CHR ''x''] @ hex_digits 2 (byte_of c)
         else escaped_rune is_print r) @ escaped_string is_print (drop n (c # s)))"
  by pat_completeness auto
termination
  by (relation "measure (length \<circ> snd)") (auto dest: DecodeRune_size [OF sym])

declare escaped_string.simps(2) [simp del]

definition Quote :: "(nat \<Rightarrow> bool) \<Rightarrow> string \<Rightarrow> string" where
  "Quote is_print s = CHR 0x22 # escaped_string is_print s @ [CHR 0x22]"

section \<open>Case folding\<close>

text \<open>
  Simple case folding onto the lower case of ASCII: besides the upper case letters, the long s
  (U+017F) folds to \<open>s\<close> and the Kelvin sign (U+212A) to \<open>k\<close>.  Other characters beyond ASCII fold
  to characters beyond ASCII, so that this decides equality with a string in ASCII.
\<close>

fun fold_case :: "string \<Rightarrow> nat list" where
  "fold_case s =
     (case s of
        [] \<Rightarrow> []
      | c # t \<Rightarrow>
          if take 2 s = [CHR 0xC5, CHR 0xBF] then 115 # fold_case (drop 2 s)
          else if take 3 s = [CHR 0xE2, CHR 0x84, CHR 0xAA] then 107 # fold_case (drop 3 s)
          else (if 65 \<le> byte_of c \<and> byte_of c \<le> 90 then byte_of c + 32 else byte_of c) # fold_case t)"

declare fold_case.simps [simp del]

definition EqualFold :: "string \<Rightarrow> string \<Rightarrow> bool" where
  "EqualFold s t \<longleftrightarrow> fold_case s = fold_case t"

section \<open>Lemmas\<close>

lemma byte_of_less [simp]: "byte_of c < 256"
  using of_char_mod_256 [of c, where 'a = nat] by (metis mod_less_divisor zero_less_numeral)

text \<open>Two digits in base 64.\<close>

lemma base64_digits:
  assumes "y < (64 :: nat)"
  shows "(64 * a + y) div 64 = a" "(64 * a + y) mod 64 = y"
  using assms by simp_all

lemma DecodeRune_ascii [simp]: "byte_of c < 0x80 \<Longrightarrow> DecodeRune (c # s) = (byte_of c, Suc 0)"
  by (simp add: DecodeRune_def)

lemma EncodeRune_ascii [simp]: "byte_of c < 0x80 \<Longrightarrow> EncodeRune (byte_of c) = [c]"
  by (simp add: EncodeRune_def)

lemma EncodeRune_nonempty [simp]: "EncodeRune r \<noteq> []"
  by (simp add: EncodeRune_def)

text \<open>
  What a successful decoding found: the bytes are the encoding of the rune, whatever follows them,
  and beyond ASCII all of them are beyond ASCII.
\<close>

lemma EncodeRune_2:
  assumes "sequence2 (byte_of c0) (byte_of c1)"
  shows "EncodeRune (rune2 (byte_of c0) (byte_of c1)) = [c0, c1]"
proof -
  define x y where "x = byte_of c0 - 0xC0" and "y = byte_of c1 - 0x80"
  have "byte_of c0 = 0xC0 + x" "byte_of c1 = 0x80 + y" "y < 64" "2 \<le> x" "x < 32"
    using assms by (auto simp: x_def y_def sequence2_def continuation_def)
  then have "c0 = char_of (0xC0 + x)" "c1 = char_of (0x80 + y)"
    by (metis char_of_char)+
  with \<open>y < 64\<close> \<open>2 \<le> x\<close> \<open>x < 32\<close> show ?thesis
    by (simp add: EncodeRune_def rune2_def flip: x_def y_def)
qed

lemma EncodeRune_3:
  assumes "sequence3 (byte_of c0) (byte_of c1) (byte_of c2)"
  shows "EncodeRune (rune3 (byte_of c0) (byte_of c1) (byte_of c2)) = [c0, c1, c2]"
proof -
  define x y z where "x = byte_of c0 - 0xE0" and "y = byte_of c1 - 0x80" and "z = byte_of c2 - 0x80"
  have b: "byte_of c0 = 0xE0 + x" "byte_of c1 = 0x80 + y" "byte_of c2 = 0x80 + z"
    and r: "y < 64" "z < 64" "x < 16" "x = 0 \<Longrightarrow> 32 \<le> y" "x = 13 \<Longrightarrow> y < 32"
    using assms by (auto simp: x_def y_def z_def sequence3_def continuation_def)
  from b have c: "c0 = char_of (0xE0 + x)" "c1 = char_of (0x80 + y)" "c2 = char_of (0x80 + z)"
    by (metis char_of_char)+
  let ?r = "x * 4096 + y * 64 + z"
  have "?r = 64 * (64 * x + y) + z" by simp
  then have q: "?r div (64 * 64) = x" "?r div 64 mod 64 = y" "?r mod 64 = z"
    using r by (simp_all only: base64_digits div_mult2_eq)
  have range: "0x800 \<le> ?r" "?r < 0x10000"
    using r by (cases "x = 0"; simp)+
  have "\<not> IsSurrogate ?r"
    using r unfolding IsSurrogate_def by (cases "x = 13"; cases "x < 13") simp_all
  with q range c show ?thesis
    by (simp add: EncodeRune_def rune3_def flip: x_def y_def z_def)
qed

lemma EncodeRune_4:
  assumes "sequence4 (byte_of c0) (byte_of c1) (byte_of c2) (byte_of c3)"
  shows "EncodeRune (rune4 (byte_of c0) (byte_of c1) (byte_of c2) (byte_of c3)) = [c0, c1, c2, c3]"
proof -
  define x y z u where "x = byte_of c0 - 0xF0" and "y = byte_of c1 - 0x80"
    and "z = byte_of c2 - 0x80" and "u = byte_of c3 - 0x80"
  have b: "byte_of c0 = 0xF0 + x" "byte_of c1 = 0x80 + y" "byte_of c2 = 0x80 + z" "byte_of c3 = 0x80 + u"
    and r: "y < 64" "z < 64" "u < 64" "x \<le> 4" "x = 0 \<Longrightarrow> 16 \<le> y" "x = 4 \<Longrightarrow> y < 16"
    using assms by (auto simp: x_def y_def z_def u_def sequence4_def continuation_def)
  from b have c: "c0 = char_of (0xF0 + x)" "c1 = char_of (0x80 + y)" "c2 = char_of (0x80 + z)"
      "c3 = char_of (0x80 + u)"
    by (metis char_of_char)+
  let ?r = "x * 262144 + y * 4096 + z * 64 + u"
  have "?r = 64 * (64 * (64 * x + y) + z) + u" by simp
  then have q: "?r div (64 * 64 * 64) = x" "?r div (64 * 64) mod 64 = y" "?r div 64 mod 64 = z" "?r mod 64 = u"
    using r by (simp_all only: base64_digits div_mult2_eq)
  have range: "0x10000 \<le> ?r" "?r \<le> 0x10FFFF"
    using r by (cases "x = 0"; cases "x = 4"; simp)+
  then have "\<not> IsSurrogate ?r" by (simp add: IsSurrogate_def)
  with q range c show ?thesis
    by (simp add: EncodeRune_def rune4_def flip: x_def y_def z_def u_def)
qed

text \<open>The four shapes of a well-formed sequence, as cases on the string.\<close>

lemma DecodeRune_cases [consumes 2, case_names ascii two three four]:
  assumes "DecodeRune s = (r, n)" "\<not> (r = RuneError \<and> n \<le> 1)"
  obtains c0 t where "s = c0 # t" "byte_of c0 < 0x80" "r = byte_of c0" "n = 1"
  | c0 c1 t where "s = c0 # c1 # t" "sequence2 (byte_of c0) (byte_of c1)"
      "r = rune2 (byte_of c0) (byte_of c1)" "n = 2"
  | c0 c1 c2 t where "s = c0 # c1 # c2 # t" "sequence3 (byte_of c0) (byte_of c1) (byte_of c2)"
      "r = rune3 (byte_of c0) (byte_of c1) (byte_of c2)" "n = 3"
  | c0 c1 c2 c3 t where "s = c0 # c1 # c2 # c3 # t"
      "sequence4 (byte_of c0) (byte_of c1) (byte_of c2) (byte_of c3)"
      "r = rune4 (byte_of c0) (byte_of c1) (byte_of c2) (byte_of c3)" "n = 4"
proof (cases s)
  case Nil
  with assms show ?thesis by (simp add: DecodeRune_def)
next
  case s: (Cons c0 s0)
  show ?thesis
  proof (cases "byte_of c0 < 0x80")
    case True
    with assms(1) show ?thesis by (intro that(1) [of c0 s0]) (simp_all add: s)
  next
    case beyond: False
    note d = assms [unfolded DecodeRune_def s list.case if_not_P [OF beyond]]
    show ?thesis
    proof (cases s0)
      case s1: (Cons c1 s1)
      show ?thesis
      proof (cases "sequence2 (byte_of c0) (byte_of c1)")
        case True
        with d show ?thesis by (intro that(2) [of c0 c1 s1]) (simp_all add: s s1)
      next
        case n2: False
        show ?thesis
        proof (cases s1)
          case s2: (Cons c2 s2)
          show ?thesis
          proof (cases "sequence3 (byte_of c0) (byte_of c1) (byte_of c2)")
            case True
            with d n2 show ?thesis by (intro that(3) [of c0 c1 c2 s2]) (simp_all add: s s1 s2)
          next
            case False
            with d n2 show ?thesis
              by (cases s2) (auto simp: s s1 s2 split: if_splits intro: that(4))
          qed
        qed (use d n2 s1 in simp)
      qed
    qed (use d in simp)
  qed
qed

lemma sequence_bytes:
  "sequence2 b0 b1 \<Longrightarrow> 0x80 \<le> b0 \<and> 0x80 \<le> b1"
  "sequence3 b0 b1 b2 \<Longrightarrow> 0x80 \<le> b0 \<and> 0x80 \<le> b1 \<and> 0x80 \<le> b2 \<and> \<not> sequence2 b0 b1"
  "sequence4 b0 b1 b2 b3 \<Longrightarrow> 0x80 \<le> b0 \<and> 0x80 \<le> b1 \<and> 0x80 \<le> b2 \<and> 0x80 \<le> b3 \<and>
     \<not> sequence2 b0 b1 \<and> \<not> sequence3 b0 b1 b2"
  by (auto simp: sequence2_def sequence3_def sequence4_def continuation_def)

lemma DecodeRune_valid:
  assumes "DecodeRune s = (r, n)" "\<not> (r = RuneError \<and> n \<le> 1)"
  shows "EncodeRune r = take n s" "DecodeRune (take n s @ t) = (r, n)"
    "1 < n \<Longrightarrow> \<forall>c \<in> set (take n s). 0x80 \<le> byte_of c"
  using assms
  by (cases rule: DecodeRune_cases; use sequence_bytes in \<open>fastforce simp: DecodeRune_def EncodeRune_2 EncodeRune_3 EncodeRune_4\<close>)+

lemma ToValidUTF8_valid: "valid_utf8 s \<Longrightarrow> ToValidUTF8 s = s"
proof (induction s rule: valid_utf8.induct)
  case (2 c s)
  obtain r n where d: "DecodeRune (c # s) = (r, n)" by fastforce
  then have "n \<noteq> 0" using DecodeRune_size by blast
  with 2 d show ?case
    using DecodeRune_valid(1) [OF d] append_take_drop_id [of n "c # s"]
    by (auto simp: ToValidUTF8.simps valid_utf8.simps)
qed simp

lemma valid_utf8_ascii: "\<forall>c \<in> set s. byte_of c < 0x80 \<Longrightarrow> valid_utf8 s"
  by (induction s) (simp_all add: valid_utf8.simps)

lemma ToValidUTF8_ascii: "list_all (\<lambda>c. byte_of c < 0x80) s \<Longrightarrow> ToValidUTF8 s = s"
  by (intro ToValidUTF8_valid valid_utf8_ascii) (simp add: list_all_iff)

text \<open>On names in lower case, folding is the identity.\<close>

definition lower_ascii :: "string \<Rightarrow> bool" where
  "lower_ascii s \<longleftrightarrow> list_all (\<lambda>c. byte_of c < 0x80 \<and> \<not> (65 \<le> byte_of c \<and> byte_of c \<le> 90)) s"

lemma fold_case_lower: "lower_ascii s \<Longrightarrow> fold_case s = map byte_of s"
proof (induction s)
  case (Cons c s)
  then show ?case by (subst fold_case.simps) (auto simp: lower_ascii_def)
qed (simp add: fold_case.simps)

lemma EqualFold_lower: "lower_ascii s \<Longrightarrow> lower_ascii t \<Longrightarrow> EqualFold s t \<longleftrightarrow> s = t"
  by (simp add: EqualFold_def fold_case_lower inj_map_eq_map inj_def)

section \<open>Encodings are well-formed\<close>

lemma sequence_encoded:
  "0x80 \<le> r \<Longrightarrow> r < 0x800 \<Longrightarrow> sequence2 (0xC0 + r div 64) (0x80 + r mod 64)"
  "0x800 \<le> r \<Longrightarrow> r < 0x10000 \<Longrightarrow> \<not> IsSurrogate r \<Longrightarrow>
     sequence3 (0xE0 + r div 4096) (0x80 + r div 64 mod 64) (0x80 + r mod 64)"
  "0x10000 \<le> r \<Longrightarrow> r \<le> 0x10FFFF \<Longrightarrow>
     sequence4 (0xF0 + r div 262144) (0x80 + r div 4096 mod 64) (0x80 + r div 64 mod 64) (0x80 + r mod 64)"
proof -
  have mod64: "x mod 64 \<le> 63" for x :: nat
    using mod_less_divisor [of 64 x] by simp
  show "sequence2 (0xC0 + r div 64) (0x80 + r mod 64)" if "0x80 \<le> r" "r < 0x800"
    using that mod64 [of r] div_le_mono [of "0x80" r 64] div_le_mono [of r "0x7FF" 64]
    by (simp add: sequence2_def continuation_def)
  show "sequence3 (0xE0 + r div 4096) (0x80 + r div 64 mod 64) (0x80 + r mod 64)"
    if "0x800 \<le> r" "r < 0x10000" "\<not> IsSurrogate r"
  proof -
    define x y z where "x = r div 4096" and "y = r div 64 mod 64" and "z = r mod 64"
    have "r div 64 = 64 * x + y"
      unfolding x_def y_def using div_mult2_eq [of r 64 64] by simp
    then have r: "r = 64 * (64 * x + y) + z" "y \<le> 63" "z \<le> 63"
      using mult_div_mod_eq [of 64 r] mod64 by (simp_all add: z_def y_def)
    have "x \<le> 15" "x = 0 \<Longrightarrow> 32 \<le> y"
      using that(1,2) r by simp_all
    moreover have "y \<le> 31" if "x = 13"
      using \<open>\<not> IsSurrogate r\<close> r that unfolding IsSurrogate_def by (simp add: not_le)
    ultimately show ?thesis
      using r(2,3) by (simp add: sequence3_def continuation_def flip: x_def y_def z_def)
  qed
  show "sequence4 (0xF0 + r div 262144) (0x80 + r div 4096 mod 64) (0x80 + r div 64 mod 64) (0x80 + r mod 64)"
    if "0x10000 \<le> r" "r \<le> 0x10FFFF"
  proof -
    define x y z u where "x = r div 262144" and "y = r div 4096 mod 64" and "z = r div 64 mod 64" and "u = r mod 64"
    have "r div 4096 = 64 * x + y" "r div 64 = 64 * (r div 4096) + z"
      unfolding x_def y_def z_def using div_mult2_eq [of r 4096 64] div_mult2_eq [of r 64 64] by simp_all
    then have r: "r = 64 * (64 * (64 * x + y) + z) + u" "y \<le> 63" "z \<le> 63" "u \<le> 63"
      using mult_div_mod_eq [of 64 r] mod64 by (simp_all add: z_def y_def u_def)
    have "x \<le> 4" "x = 0 \<Longrightarrow> 16 \<le> y" "x = 4 \<Longrightarrow> y \<le> 15"
      using that r by simp_all
    with r(2-4) show ?thesis
      by (simp add: sequence4_def continuation_def flip: x_def y_def z_def u_def)
  qed
qed

text \<open>A string that starts with the encoding of a rune is well-formed when its rest is.\<close>

lemma DecodeRune_sequence:
  "sequence2 (byte_of c0) (byte_of c1) \<Longrightarrow> DecodeRune (c0 # c1 # t) = (rune2 (byte_of c0) (byte_of c1), 2)"
  "sequence3 (byte_of c0) (byte_of c1) (byte_of c2) \<Longrightarrow>
     DecodeRune (c0 # c1 # c2 # t) = (rune3 (byte_of c0) (byte_of c1) (byte_of c2), 3)"
  "sequence4 (byte_of c0) (byte_of c1) (byte_of c2) (byte_of c3) \<Longrightarrow>
     DecodeRune (c0 # c1 # c2 # c3 # t) = (rune4 (byte_of c0) (byte_of c1) (byte_of c2) (byte_of c3), 4)"
  using sequence_bytes by (simp_all add: DecodeRune_def) (metis not_le)+

lemma valid_utf8_EncodeRune: "valid_utf8 (EncodeRune r @ t) \<longleftrightarrow> valid_utf8 t"
proof -
  have byte: "byte_of (char_of n :: char) = n" if "n < 256" for n
    using that by (simp add: of_char_of)
  have three: "valid_utf8 (map char_of [a, b, c] @ t) \<longleftrightarrow> valid_utf8 t" if "sequence3 a b c" for a b c
    using that DecodeRune_sequence(2) [of "char_of a" "char_of b" "char_of c" t] byte
    by (simp add: valid_utf8.simps sequence3_def continuation_def)
  consider "r < 0x80" | "0x80 \<le> r" "r < 0x800" | "0x800 \<le> r" "IsSurrogate r \<or> 0x10FFFF < r"
    | "0x800 \<le> r" "r < 0x10000" "\<not> IsSurrogate r" | "0x10000 \<le> r" "r \<le> 0x10FFFF" "\<not> IsSurrogate r"
    by (auto simp: IsSurrogate_def) linarith
  then show ?thesis
  proof cases
    case 1
    then show ?thesis
      using byte [of r] by (simp add: EncodeRune_def valid_utf8.simps)
  next
    case 2
    have "sequence2 (0xC0 + r div 64) (0x80 + r mod 64)" by (rule sequence_encoded(1) [OF 2])
    with 2 show ?thesis
      using DecodeRune_sequence(1) [of "char_of (0xC0 + r div 64)" "char_of (0x80 + r mod 64)" t] byte
      by (simp add: EncodeRune_def valid_utf8.simps sequence2_def continuation_def)
  next
    case 3
    have "sequence3 0xEF 0xBF 0xBD" by (simp add: sequence3_def continuation_def)
    with 3 three show ?thesis by (simp add: EncodeRune_def)
  next
    case 4
    with three [OF sequence_encoded(2) [OF 4]] show ?thesis by (simp add: EncodeRune_def)
  next
    case 5
    have "sequence4 (0xF0 + r div 262144) (0x80 + r div 4096 mod 64) (0x80 + r div 64 mod 64) (0x80 + r mod 64)"
      by (rule sequence_encoded(3) [OF 5(1,2)])
    with 5 show ?thesis
      using DecodeRune_sequence(3) [of "char_of (0xF0 + r div 262144)" "char_of (0x80 + r div 4096 mod 64)"
          "char_of (0x80 + r div 64 mod 64)" "char_of (0x80 + r mod 64)" t] byte
      by (simp add: EncodeRune_def valid_utf8.simps sequence4_def continuation_def)
  qed
qed

end
