(* ===== verification/HttpApi.thy ===== *)
theory HttpApi
  imports Operation_Contracts Go_Text
begin

text \<open>
  \<open>internal/httpapi\<close>: decoding of requests, the translation of errors to responses, admission
  control, the panic barrier and the routes.  A handler writes its response once, as its last
  action, so a response is the value of the handler's program.
\<close>

section \<open>Requests and responses\<close>

record ReadyBody =
  Ready_status :: string
  Ready_ledgerCallsInFlight :: int
  Ready_oldestLedgerCallMS :: int
  Ready_lastLedgerSuccess :: "Time option"
  Ready_reason :: "string option"

datatype (discs_sels) ResponseBody =
    BodyAccount AccountResponse
  | BodyBalance BalanceResponse
  | BodyTransaction TransactionResponse
  | BodyAuthorization AuthorizationResponse
  | BodyIncrement IncrementAuthorizationResponse
  | BodyError ErrorResponse
  | BodyLive string
  | BodyReady ReadyBody

text \<open>A response: its status, whether it has the header \<open>Retry-After: 1\<close>, and its body.\<close>

record HttpResponse =
  Http_status :: int
  Http_retryAfter :: bool
  Http_body :: ResponseBody

text \<open>
  The body of a request as \<open>decodeJSON\<close> sees it: the header \<open>Content-Type\<close>, the media type that
  \<open>mime.ParseMediaType\<close> finds in it (\<^const>\<open>None\<close> for an error), the result of the first
  \<open>Decode\<close> with unknown fields disallowed and the body limited to \<open>maxRequestBytes\<close> (the message
  of its error, or the value), and whether the second \<open>Decode\<close> finds the end of the body.
\<close>

record 'a HttpInput =
  Input_ContentType :: string
  Input_mediaType :: "string option"
  Input_decoded :: "string + 'a"
  Input_atEOF :: bool

definition decodeJSON :: "'a HttpInput \<Rightarrow> Error + 'a" where
  "decodeJSON input =
     (if Input_ContentType input \<noteq> [] \<and>
         (case Input_mediaType input of
            None \<Rightarrow> True
          | Some mediaType \<Rightarrow> \<not> EqualFold mediaType ''application/json'')
      then Inl (invalid ''Content-Type must be application/json'')
      else case Input_decoded input of
        Inl err \<Rightarrow> Inl (invalid (''invalid JSON body: '' @ err))
      | Inr destination \<Rightarrow>
          if \<not> Input_atEOF input
          then Inl (invalid ''request body must contain one JSON value'')
          else Inr destination)"

section \<open>Responses\<close>

definition writeJSON :: "int \<Rightarrow> ResponseBody \<Rightarrow> HttpResponse" where
  "writeJSON status body = \<lparr>Http_status = status, Http_retryAfter = False, Http_body = body\<rparr>"

definition error_body :: "string \<Rightarrow> string \<Rightarrow> ResponseBody" where
  "error_body code message =
     BodyError \<lparr>ErrorResp_Status = ''error'', ErrorResp_ErrorCode = code, ErrorResp_Message = message\<rparr>"

definition writeError :: "Error \<Rightarrow> HttpResponse" where
  "writeError err =
     (let (status, code, message) =
        (if errors_Is err ErrInvalidRequest then (400, ''invalid_request'', Error_Error err)
         else if errors_Is err ErrIdempotencyConflict
         then (409, ''idempotency_conflict'', Error_Error err)
         else if errors_Is err ErrAccountNotFound then (404, ''account_not_found'', Error_Error err)
         else if errors_Is err ErrAuthorizationNotFound
         then (404, ''authorization_not_found'', Error_Error err)
         else if errors_Is err ContextCanceled
         then (499, ''request_canceled'', ''the request was canceled'')
         else if errors_Is err ContextDeadlineExceeded
         then (504, ''deadline_exceeded'', ''the request deadline elapsed'')
         else (503, ''dependency_unavailable'',
               ''a required dependency is unavailable; retry the same request''))
      in writeJSON status (error_body code message))"

section \<open>Handlers\<close>

text \<open>The shape all handlers of operations share: decode, call the service, write.\<close>

definition respond ::
  "'a HttpInput \<Rightarrow> ('a \<Rightarrow> (Error + 'r \<times> int) prog) \<Rightarrow> ('r \<Rightarrow> ResponseBody) \<Rightarrow> HttpResponse prog" where
  "respond input operation body =
     (case decodeJSON input of
        Inl err \<Rightarrow> Return (writeError err)
      | Inr request \<Rightarrow>
          seq (operation request) (\<lambda>r. case r of
            Inl err \<Rightarrow> Return (writeError err)
          | Inr (response, status) \<Rightarrow> Return (writeJSON status (body response))))"

definition http_createAccount :: "SDK \<Rightarrow> Service \<Rightarrow> CreateAccountRequest HttpInput \<Rightarrow> HttpResponse prog" where
  "http_createAccount sdk s input = respond input (CreateAccount sdk s) BodyAccount"

definition http_balance :: "SDK \<Rightarrow> Service \<Rightarrow> string \<Rightarrow> HttpResponse prog" where
  "http_balance sdk s accountIDValue =
     seq (Balance sdk s accountIDValue) (\<lambda>r. case r of
       Inl err \<Rightarrow> Return (writeError err)
     | Inr response \<Rightarrow> Return (writeJSON 200 (BodyBalance response)))"

definition http_topUp :: "SDK \<Rightarrow> Service \<Rightarrow> TopUpRequest HttpInput \<Rightarrow> HttpResponse prog" where
  "http_topUp sdk s input = respond input (TopUp sdk s) BodyTransaction"

definition http_withdraw :: "SDK \<Rightarrow> Service \<Rightarrow> WithdrawalRequest HttpInput \<Rightarrow> HttpResponse prog" where
  "http_withdraw sdk s input = respond input (Withdraw sdk s) BodyTransaction"

definition http_allocateToCard ::
  "SDK \<Rightarrow> Service \<Rightarrow> CardAllocationRequest HttpInput \<Rightarrow> HttpResponse prog" where
  "http_allocateToCard sdk s input = respond input (AllocateToCard sdk s) BodyTransaction"

definition http_returnFromCard ::
  "SDK \<Rightarrow> Service \<Rightarrow> CardReturnRequest HttpInput \<Rightarrow> HttpResponse prog" where
  "http_returnFromCard sdk s input = respond input (ReturnFromCard sdk s) BodyTransaction"

definition http_authorize ::
  "SDK \<Rightarrow> Service \<Rightarrow> AuthorizationRequest HttpInput \<Rightarrow> HttpResponse prog" where
  "http_authorize sdk s input = respond input (Authorize sdk s) BodyAuthorization"

definition http_increment ::
  "SDK \<Rightarrow> Service \<Rightarrow> IncrementAuthorizationRequest HttpInput \<Rightarrow> HttpResponse prog" where
  "http_increment sdk s input = respond input (IncrementAuthorization sdk s) BodyIncrement"

definition http_live :: "HttpResponse prog" where
  "http_live = Return (writeJSON 200 (BodyLive ''ok''))"

definition ready_response :: "LedgerHealth \<Rightarrow> HttpResponse" where
  "ready_response health =
     (let body = \<lparr>Ready_status = ''ready'',
            Ready_ledgerCallsInFlight = Health_InFlight health,
            Ready_oldestLedgerCallMS = Milliseconds (Health_Oldest health),
            Ready_lastLedgerSuccess =
              (if \<not> Time_IsZero (Health_LastSuccess health) then Some (Health_LastSuccess health)
               else None),
            Ready_reason = None\<rparr>
      in if \<not> Health_Ready health
         then writeJSON 503 (BodyReady (body\<lparr>Ready_status := ''not_ready'',
                Ready_reason := Some ''ledger_stalled''\<rparr>))
         else writeJSON 200 (BodyReady body))"

definition http_ready :: "HttpResponse prog" where
  "http_ready = seq LedgerHealth_read (\<lambda>health. Return (ready_response health))"

section \<open>Admission, middleware and the panic barrier\<close>

text \<open>
  \<open>admissionController.Wrap\<close>: the channel of slots is the counter of the shared state, a send
  that would block takes the \<open>default\<close> branch, and the deferred function runs after a return and
  after a panic.
\<close>

definition admission_Wrap :: "HttpResponse prog \<Rightarrow> HttpResponse prog" where
  "admission_Wrap next =
     seq LedgerHealth_read (\<lambda>health.
       if \<not> Health_Ready health then
         EmitMetric (ObserveAdmissionRejection ''ledger_stalled'') (Return
           ((writeJSON 503 (error_body ''ledger_stalled''
             ''the ledger is not responding; retry the same request''))\<lparr>Http_retryAfter := True\<rparr>))
       else
         AcquireSlot (\<lambda>acquired.
           if acquired then
             EmitMetric BeginAdmission (upon_exit next (\<lambda>r.
               ReleaseSlot (EmitMetric EndAdmission
                 (case r of Some response \<Rightarrow> Return response | None \<Rightarrow> Panic))))
           else
             EmitMetric (ObserveAdmissionRejection ''capacity'') (Return
               ((writeJSON 503 (error_body ''overloaded''
                 ''too many operations are in flight; retry the same request''))
                 \<lparr>Http_retryAfter := True\<rparr>))))"

definition HTTPMiddleware :: "string \<Rightarrow> string \<Rightarrow> HttpResponse prog \<Rightarrow> HttpResponse prog" where
  "HTTPMiddleware verb route next =
     seq next (\<lambda>response. EmitMetric (ObserveHTTP verb route (Http_status response)) (Return response))"

text \<open>The recovered value of a panic is logged as well; it is not part of the model.\<close>

definition recoverPanics :: "string \<Rightarrow> HttpResponse prog \<Rightarrow> HttpResponse prog" where
  "recoverPanics path next =
     upon_exit next (\<lambda>r. case r of
       Some response \<Rightarrow> Return response
     | None \<Rightarrow>
         EmitLog \<lparr>log_message = ''panic serving request'', log_fields = [(''path'', LogString path)]\<rparr>
           (Return (writeJSON 500 (error_body ''internal_error'' ''an internal error occurred''))))"

section \<open>Routes\<close>

text \<open>
  A \<open>HEAD\<close> request runs the handler of \<open>GET\<close>, with its own label in the HTTP counter; the server of
  \<open>net/http\<close> sends the response without its body.
\<close>

datatype HttpRequest =
    PostAccounts "CreateAccountRequest HttpInput"
  | GetAccount string
  | PostTopUps "TopUpRequest HttpInput"
  | PostWithdrawals "WithdrawalRequest HttpInput"
  | PostCardAllocations "CardAllocationRequest HttpInput"
  | PostCardReturns "CardReturnRequest HttpInput"
  | PostAuthorizations "AuthorizationRequest HttpInput"
  | PostIncrements "IncrementAuthorizationRequest HttpInput"
  | GetLive
  | GetReady
  | HeadAccount string
  | HeadLive
  | HeadReady

text \<open>\<open>server.handle\<close>: the middleware around the admission control around the handler.\<close>

definition server_handle :: "string \<Rightarrow> string \<Rightarrow> HttpResponse prog \<Rightarrow> HttpResponse prog" where
  "server_handle verb route handler = HTTPMiddleware verb route (admission_Wrap handler)"

fun serveMux :: "SDK \<Rightarrow> Service \<Rightarrow> HttpRequest \<Rightarrow> HttpResponse prog" where
  "serveMux sdk s (PostAccounts input) =
     server_handle ''POST'' ''create_account'' (http_createAccount sdk s input)"
| "serveMux sdk s (GetAccount ident) =
     server_handle ''GET'' ''get_balance'' (http_balance sdk s ident)"
| "serveMux sdk s (PostTopUps input) =
     server_handle ''POST'' ''topup'' (http_topUp sdk s input)"
| "serveMux sdk s (PostWithdrawals input) =
     server_handle ''POST'' ''withdrawal'' (http_withdraw sdk s input)"
| "serveMux sdk s (PostCardAllocations input) =
     server_handle ''POST'' ''card_allocation'' (http_allocateToCard sdk s input)"
| "serveMux sdk s (PostCardReturns input) =
     server_handle ''POST'' ''card_return'' (http_returnFromCard sdk s input)"
| "serveMux sdk s (PostAuthorizations input) =
     server_handle ''POST'' ''authorization'' (http_authorize sdk s input)"
| "serveMux sdk s (PostIncrements input) =
     server_handle ''POST'' ''authorization_increment'' (http_increment sdk s input)"
| "serveMux sdk s GetLive = HTTPMiddleware ''GET'' ''liveness'' http_live"
| "serveMux sdk s GetReady = HTTPMiddleware ''GET'' ''readiness'' http_ready"
| "serveMux sdk s (HeadAccount ident) =
     server_handle ''HEAD'' ''get_balance'' (http_balance sdk s ident)"
| "serveMux sdk s HeadLive = HTTPMiddleware ''HEAD'' ''liveness'' http_live"
| "serveMux sdk s HeadReady = HTTPMiddleware ''HEAD'' ''readiness'' http_ready"

fun request_path :: "HttpRequest \<Rightarrow> string" where
  "request_path (PostAccounts _) = ''/v1/accounts''"
| "request_path (GetAccount ident) = ''/v1/accounts/'' @ ident"
| "request_path (PostTopUps _) = ''/v1/topups''"
| "request_path (PostWithdrawals _) = ''/v1/withdrawals''"
| "request_path (PostCardAllocations _) = ''/v1/card-allocations''"
| "request_path (PostCardReturns _) = ''/v1/card-returns''"
| "request_path (PostAuthorizations _) = ''/v1/authorizations''"
| "request_path (PostIncrements _) = ''/v1/authorizations/increments''"
| "request_path GetLive = ''/health/live''"
| "request_path GetReady = ''/health/ready''"
| "request_path (HeadAccount ident) = ''/v1/accounts/'' @ ident"
| "request_path HeadLive = ''/health/live''"
| "request_path HeadReady = ''/health/ready''"

text \<open>\<open>NewHandler\<close>: what the server does with a request.\<close>

definition serveHTTP :: "SDK \<Rightarrow> Service \<Rightarrow> HttpRequest \<Rightarrow> HttpResponse prog" where
  "serveHTTP sdk s request = recoverPanics (request_path request) (serveMux sdk s request)"

section \<open>What a response says of the ledger\<close>

definition Balance_post ::
  "SDK \<Rightarrow> Service \<Rightarrow> string \<Rightarrow> Error + BalanceResponse \<Rightarrow> ledger_view \<Rightarrow> bool" where
  "Balance_post sdk s v r K \<longleftrightarrow>
     (case r of
        Inl e \<Rightarrow> True
      | Inr resp \<Rightarrow>
          (\<exists>i a m. parsePublicTigerBeetleID sdk v = Inr i \<and>
             view_accounts K i = Some (account_meta a) \<and> metadataForAccount sdk s a = Some m \<and>
             resp = balance_response sdk a m))"

text \<open>
  A body of the operation's own type answers the decoded request; a conflict error says that the
  operation reported an idempotency conflict; no error says that the handler panicked.
\<close>

definition answers ::
  "Error + 'a \<Rightarrow> ('a \<Rightarrow> Error + 'r \<times> int \<Rightarrow> ledger_view \<Rightarrow> bool) \<Rightarrow> ('r \<Rightarrow> ResponseBody) \<Rightarrow>
   HttpResponse \<Rightarrow> ledger_view \<Rightarrow> bool" where
  "answers decoded post body resp K \<longleftrightarrow>
     (\<forall>x. Http_body resp = body x \<longrightarrow>
        (\<exists>req. decoded = Inr req \<and> post req (Inr (x, Http_status resp)) K)) \<and>
     (is_BodyError (Http_body resp) \<or> Http_body resp \<in> range body) \<and>
     (is_BodyError (Http_body resp) \<longrightarrow> Http_status resp \<noteq> 500 \<and>
        (Http_status resp = 409 \<longrightarrow>
           (\<exists>req err. decoded = Inr req \<and> errors_Is err ErrIdempotencyConflict \<and> post req (Inl err) K)))"

text \<open>
  The postcondition of a request, relative to the ledger \<open>K0\<close> it found on its arrival.
\<close>

abbreviation balance_answered :: "SDK \<Rightarrow> Service \<Rightarrow> string \<Rightarrow> HttpResponse \<Rightarrow> ledger_view \<Rightarrow> bool" where
  "balance_answered sdk s v \<equiv> (\<lambda>resp K.
     (\<forall>b. Http_body resp = BodyBalance b \<longrightarrow>
        Http_status resp = 200 \<and> Balance_post sdk s v (Inr b) K) \<and>
     (is_BodyError (Http_body resp) \<longrightarrow> Http_status resp \<noteq> 500))"

fun http_post :: "ledger_view \<Rightarrow> SDK \<Rightarrow> Service \<Rightarrow> HttpRequest \<Rightarrow> HttpResponse \<Rightarrow> ledger_view \<Rightarrow> bool" where
  "http_post K0 sdk s (PostAccounts input) = answers (decodeJSON input) (CreateAccount_post sdk s) BodyAccount"
| "http_post K0 sdk s (GetAccount v) = balance_answered sdk s v"
| "http_post K0 sdk s (PostTopUps input) = answers (decodeJSON input)
     (\<lambda>req. transaction_post K0 (TopUp_intent sdk s req)) BodyTransaction"
| "http_post K0 sdk s (PostWithdrawals input) = answers (decodeJSON input)
     (\<lambda>req. transaction_post K0 (Withdraw_intent sdk s req)) BodyTransaction"
| "http_post K0 sdk s (PostCardAllocations input) = answers (decodeJSON input)
     (\<lambda>req. transaction_post K0 (AllocateToCard_intent sdk s req)) BodyTransaction"
| "http_post K0 sdk s (PostCardReturns input) = answers (decodeJSON input)
     (\<lambda>req. transaction_post K0 (ReturnFromCard_intent sdk s req)) BodyTransaction"
| "http_post K0 sdk s (PostAuthorizations input) = answers (decodeJSON input)
     (\<lambda>req. authorization_post K0 s req (Authorize_intent sdk s req)) BodyAuthorization"
| "http_post K0 sdk s (PostIncrements input) = answers (decodeJSON input)
     (increment_post K0 sdk s) BodyIncrement"
| "http_post K0 sdk s GetLive = (\<lambda>resp K. resp = writeJSON 200 (BodyLive ''ok''))"
| "http_post K0 sdk s GetReady = (\<lambda>resp K. Http_status resp = 200 \<or> Http_status resp = 503)"
| "http_post K0 sdk s (HeadAccount v) = balance_answered sdk s v"
| "http_post K0 sdk s HeadLive = (\<lambda>resp K. resp = writeJSON 200 (BodyLive ''ok''))"
| "http_post K0 sdk s HeadReady = (\<lambda>resp K. Http_status resp = 200 \<or> Http_status resp = 503)"

section \<open>Lemmas\<close>

lemma Balance_post_stable: "stable_post (Balance_post sdk s v)"
  unfolding stable_post_def
proof (intro allI impI)
  fix r K K'
  assume "grows K K'" "Balance_post sdk s v r K"
  then show "Balance_post sdk s v r K'"
    unfolding Balance_post_def by (cases r) (simp, simp, blast dest: grows_account)
qed

lemma CreateAccount_post_stable: "stable_post (CreateAccount_post sdk s request)"
  unfolding stable_post_def
proof (intro allI impI)
  fix r K K'
  assume g: "grows K K'" and post: "CreateAccount_post sdk s request r K"
  show "CreateAccount_post sdk s request r K'"
  proof (cases r)
    case (Inl e)
    with post show ?thesis
      using grows_account [OF g] unfolding CreateAccount_post_def by simp meson
  next
    case (Inr x)
    obtain resp st where x: "x = (resp, st)" by fastforce
    from post obtain i a where "view_accounts K i = Some a"
        "accountID sdk ''account_id'' (CreateAccount_AccountID request) = Inr i"
      by (auto simp: CreateAccount_post_def Inr x)
    with post show ?thesis
      using grows_account [OF g] linked_card_grows [OF g]
      by (auto simp: CreateAccount_post_def Inr x split: if_splits)
  qed
qed

lemma answers_stable:
  assumes post: "\<And>req. stable_post (post req)"
  shows "stable_post (answers decoded post body)"
  unfolding stable_post_def
proof (intro allI impI)
  fix resp K K'
  assume K: "view_ok K" "grows K K'" and ans: "answers decoded post body resp K"
  have keep: "post req r K \<Longrightarrow> post req r K'" for req r
    using post [of req] K unfolding stable_post_def by blast
  show "answers decoded post body resp K'"
    unfolding answers_def
  proof (intro conjI allI impI)
    fix x
    assume "Http_body resp = body x"
    then obtain req where "decoded = Inr req" "post req (Inr (x, Http_status resp)) K"
      using ans unfolding answers_def by blast
    then show "\<exists>req. decoded = Inr req \<and> post req (Inr (x, Http_status resp)) K'"
      using keep by blast
  next
    show "is_BodyError (Http_body resp) \<or> Http_body resp \<in> range body"
      using ans unfolding answers_def by blast
  next
    assume "is_BodyError (Http_body resp)"
    then show "Http_status resp \<noteq> 500"
      using ans unfolding answers_def by blast
  next
    assume "is_BodyError (Http_body resp)" "Http_status resp = 409"
    then obtain req err where "decoded = Inr req" "errors_Is err ErrIdempotencyConflict"
        "post req (Inl err) K"
      using ans unfolding answers_def by blast
    then show "\<exists>req err. decoded = Inr req \<and> errors_Is err ErrIdempotencyConflict \<and> post req (Inl err) K'"
      using keep by blast
  qed
qed

lemma balance_answered_stable: "stable_post (balance_answered sdk s v)"
  using Balance_post_stable [of sdk s v] by (auto simp: stable_post_def)

lemma http_post_stable: "stable_post (http_post K0 sdk s r)"
proof (cases r)
  case (GetAccount v)
  then show ?thesis using balance_answered_stable by simp
next
  case (HeadAccount v)
  then show ?thesis using balance_answered_stable by simp
next
  case GetLive
  then show ?thesis by (simp add: stable_post_def)
next
  case GetReady
  then show ?thesis by (simp add: stable_post_def)
next
  case HeadLive
  then show ?thesis by (simp add: stable_post_def)
next
  case HeadReady
  then show ?thesis by (simp add: stable_post_def)
qed (auto intro!: answers_stable CreateAccount_post_stable transaction_post_stable
    authorization_post_stable increment_post_stable)

lemma writeError_body [simp]: "is_BodyError (Http_body (writeError err))"
  by (simp add: writeError_def writeJSON_def error_body_def split: prod.splits)

lemma writeError_not_500 [simp]: "Http_status (writeError err) \<noteq> 500"
  by (simp add: writeError_def writeJSON_def)

lemma writeError_no_balance [simp]: "Http_body (writeError err) \<noteq> BodyBalance b"
  using writeError_body [of err] by (auto simp del: writeError_body)

lemma writeError_conflict: "Http_status (writeError err) = 409 \<Longrightarrow> errors_Is err ErrIdempotencyConflict"
  by (simp add: writeError_def writeJSON_def split: if_splits)

lemma decodeJSON_Inl: "decodeJSON input = Inl err \<Longrightarrow> \<exists>m. err = invalid m"
  by (auto simp: decodeJSON_def split: if_splits sum.splits)

lemma respond_wp:
  assumes op: "\<And>req. wp G (operation req) (post req) K" and inj: "inj body"
    and no_error: "\<And>x. \<not> is_BodyError (body x)"
  shows "wp G (respond input operation body) (answers (decodeJSON input) post body) K"
proof (cases "decodeJSON input")
  case (Inl err)
  then have "Http_status (writeError err) \<noteq> 409"
    using writeError_conflict decodeJSON_Inl by fastforce
  then show ?thesis
    using Inl no_error by (auto simp: respond_def answers_def) (metis writeError_body)
next
  case (Inr req)
  have "answers (Inr req) post body (writeError err) K'" if "post req (Inl err) K'" for err K'
    using that writeError_conflict [of err] no_error
    by (auto simp: answers_def) (metis writeError_body)
  moreover have "answers (Inr req) post body (writeJSON status (body x)) K'"
    if "post req (Inr (x, status)) K'" for x status K'
    using that inj no_error by (auto simp: answers_def writeJSON_def dest: injD)
  ultimately have "wp G (seq (operation req) (\<lambda>r. case r of
      Inl err \<Rightarrow> Return (writeError err)
    | Inr (response, status) \<Rightarrow> Return (writeJSON status (body response))))
      (answers (Inr req) post body) K"
    unfolding wp_seq by (intro wp_post_mono [OF op]) (auto split: sum.splits)
  with Inr show ?thesis by (simp add: respond_def)
qed

text \<open>The layers around a handler: rejections of the admission control satisfy every postcondition.\<close>

lemma LedgerHealth_read_wp:
  "(\<And>h K'. grows K K' \<Longrightarrow> wp G (f h) Q K') \<Longrightarrow> wp G (seq LedgerHealth_read f) Q K"
  by (simp add: LedgerHealth_read_def) (meson grows_trans)

lemma admission_Wrap_wp:
  assumes "\<And>K'. grows K K' \<Longrightarrow> wp G handler Q K'" and stable: "stable_post Q"
    and reject: "\<And>code m K'. Q ((writeJSON 503 (error_body code m))\<lparr>Http_retryAfter := True\<rparr>) K'"
  shows "wp G (admission_Wrap handler) Q K"
proof -
  have keep: "Q x K2" if "Q x K1" "grows K1 K2" "view_ok K1" for x K1 K2
    using stable that unfolding stable_post_def by blast
  have "wp G (upon_exit handler (\<lambda>r. ReleaseSlot (EmitMetric EndAdmission
      (case r of Some response \<Rightarrow> Return response | None \<Rightarrow> Panic)))) Q K'" if g: "grows K K'" for K'
    by (rule wp_upon_exit [OF assms(1) [OF g] grows_ok [OF g]])
      (auto intro: keep grows_ok)
  then show ?thesis
    unfolding admission_Wrap_def
    by (intro LedgerHealth_read_wp) (auto intro: reject grows_trans)
qed

lemma HTTPMiddleware_wp:
  assumes "wp G handler Q K" "stable_post Q" "view_ok K"
  shows "wp G (HTTPMiddleware verb route handler) Q K"
  unfolding HTTPMiddleware_def using assms(1,3)
  by (rule wp_bind) (use assms(2) in \<open>auto simp: stable_post_def\<close>)

lemma recoverPanics_wp:
  assumes "wp G handler Q K" "view_ok K"
  shows "wp G (recoverPanics path handler) Q K"
  unfolding recoverPanics_def using assms by (rule wp_upon_exit) simp

lemma answers_reject:
  assumes "\<And>x. \<not> is_BodyError (body x)"
  shows "answers decoded post body ((writeJSON 503 (error_body code m))\<lparr>Http_retryAfter := True\<rparr>) K"
  using assms by (auto simp: answers_def writeJSON_def error_body_def) (metis ResponseBody.disc)

lemma server_handle_wp:
  assumes "\<And>K'. grows K K' \<Longrightarrow> wp G handler Q K'" "stable_post Q" "view_ok K"
    and "\<And>code m K'. Q ((writeJSON 503 (error_body code m))\<lparr>Http_retryAfter := True\<rparr>) K'"
  shows "wp G (server_handle verb route handler) Q K"
  unfolding server_handle_def
  by (intro HTTPMiddleware_wp admission_Wrap_wp assms)

context tb_sdk
begin

lemma Balance_wp:
  assumes ok: "view_ok K"
  shows "wp (service_guar sdk s) (Balance sdk s v) (Balance_post sdk s v) K"
proof -
  let ?G = "service_guar sdk s" and ?Q = "Balance_post sdk s v"
  have err: "?Q (Inl e) K'" for e K'
    by (simp add: Balance_post_def)
  have read: "wp ?G (attempt (observed_LookupAccount s i) (\<lambda>(account, found).
      if \<not> found then fail ErrAccountNotFound
      else case metadataForAccount sdk s account of
        None \<Rightarrow> fail ErrAccountNotFound
      | Some metadata \<Rightarrow> seq (rememberAccount sdk s account) (\<lambda>_. Return (Inr (resp account metadata))))) ?Q K"
    if i: "parsePublicTigerBeetleID sdk v = Inr i"
      and resp: "\<And>a m K'. view_accounts K' i = Some (account_meta a) \<Longrightarrow>
        metadataForAccount sdk s a = Some m \<Longrightarrow> Account_ID a = i \<Longrightarrow> ?Q (Inr (resp a m)) K'" for i resp
  proof (rule wp_attempt_bind [OF observed_LookupAccount_wp ok], goal_cases)
    case (1 e K')
    then show ?case by (simp add: err)
  next
    case (2 x K')
    then obtain K1 a found where x: "x = (a, found)" "grows K1 K'" "view_ok K1"
        "account_lookup_law i (Inr (a, found)) K1"
      by (cases x) auto
    show ?case
    proof (cases "found \<and> metadataForAccount sdk s a \<noteq> None")
      case True
      then obtain m where m: "metadataForAccount sdk s a = Some m" by auto
      have view1: "view_accounts K1 i = Some (account_meta a)"
        using x(4) True by (auto simp: account_lookup_law_def split: option.splits)
      then have ID: "Account_ID a = i"
        using x(3) by (metis account_meta_simps(1) view_ok_def)
      have view: "view_accounts K2 i = Some (account_meta a)" if "grows K' K2" for K2
        using grows_account [OF grows_trans [OF x(2) that] view1] .
      have "wp ?G (seq (rememberAccount sdk s a) (\<lambda>_. Return (Inr (resp a m)))) ?Q K'"
        by (rule wp_bind [OF rememberAccount_wp])
          (use view m ID x(2) resp in \<open>auto simp: account_role_def grows_ok\<close>)
      with True m show ?thesis by (simp add: x(1))
    qed (auto simp: x(1) wp_fail err split: option.splits)
  qed
  show ?thesis
    unfolding Balance_def
    by (auto simp: wp_check wp_fail err split: sum.splits intro!: read)
      (simp add: Balance_post_def, blast)
qed

lemma serveHTTP_wp:
  assumes g0: "grows K0 K"
  shows "wp (service_guar sdk s) (serveHTTP sdk s r) (http_post K0 sdk s r) K"
proof -
  have ops: "wp (service_guar sdk s) (server_handle verb route (respond input operation body))
      (answers (decodeJSON input) post body) K"
    if "\<And>req K'. grows K0 K' \<Longrightarrow> wp (service_guar sdk s) (operation req) (post req) K'"
      "inj body" "\<And>x. \<not> is_BodyError (body x)" "\<And>req. stable_post (post req)"
    for verb route input operation body post
    by (rule server_handle_wp)
      (use that g0 in \<open>auto intro!: respond_wp answers_stable answers_reject
        intro: grows_trans dest: grows_ok\<close>)
  have balance: "wp (service_guar sdk s) (server_handle verb route (http_balance sdk s v)) (balance_answered sdk s v) K"
    for verb route v
  proof -
    have "wp (service_guar sdk s) (http_balance sdk s v) (balance_answered sdk s v) K'" if "view_ok K'" for K'
      unfolding http_balance_def wp_seq
      by (rule wp_post_mono [OF Balance_wp [OF that]]) (auto simp: writeJSON_def split: sum.splits)
    then show ?thesis
      by (intro server_handle_wp balance_answered_stable grows_ok [OF g0])
        (auto simp: writeJSON_def error_body_def grows_ok)
  qed
  have ready: "wp (service_guar sdk s) (HTTPMiddleware verb route http_ready)
      (\<lambda>resp K. Http_status resp = 200 \<or> Http_status resp = 503) K" for verb route
    by (auto simp: HTTPMiddleware_def http_ready_def LedgerHealth_read_def ready_response_def
        writeJSON_def Let_def)
  have "wp (service_guar sdk s) (serveMux sdk s r) (http_post K0 sdk s r) K"
  proof (cases r)
    case (GetAccount v)
    then show ?thesis using balance by simp
  next
    case (HeadAccount v)
    then show ?thesis using balance by simp
  next
    case GetLive
    then show ?thesis by (simp add: HTTPMiddleware_def http_live_def)
  next
    case HeadLive
    then show ?thesis by (simp add: HTTPMiddleware_def http_live_def)
  next
    case GetReady
    then show ?thesis using ready by simp
  next
    case HeadReady
    then show ?thesis using ready by simp
  qed (auto simp: http_createAccount_def http_topUp_def http_withdraw_def http_allocateToCard_def
      http_returnFromCard_def http_authorize_def http_increment_def inj_def
      dest: grows_ok intro!: ops CreateAccount_wp TopUp_wp Withdraw_wp AllocateToCard_wp ReturnFromCard_wp
      Authorize_wp IncrementAuthorization_wp CreateAccount_post_stable transaction_post_stable
      authorization_post_stable increment_post_stable)
  then show ?thesis
    unfolding serveHTTP_def using grows_ok [OF g0] by (rule recoverPanics_wp)
qed

end

end
