(* ===== verification/Running_Service.thy ===== *)
theory Running_Service
  imports HttpApi
begin

text \<open>
  The service in operation: any number of requests whose handlers interleave action by action over
  one ledger that other clients use as well.  \<open>serves\<close> says that a state is reachable in this way;
  the lemmas give what holds in every such state, from the contracts of the operations.
\<close>

section \<open>The running service\<close>

text \<open>The shared state after \<open>New\<close>, over the ledger \<open>l\<close>.\<close>

definition initial_world :: "Duration \<Rightarrow> int \<Rightarrow> bool \<Rightarrow> 'l \<Rightarrow> 'l world" where
  "initial_world stallThreshold cacheSize metrics l =
     \<lparr>w_ledger = l, w_cache = newMetadataCache cacheSize,
      w_observed = newObservedLedger stallThreshold metrics, w_slots = 0, w_metrics = [],
      w_log = [], w_tick = 0\<rparr>"

text \<open>
  \<open>starts\<close>: from such a state the service has provisioned the system accounts, while other clients
  may have used the ledger, and is about to listen in state \<open>w0\<close>.  The admission slots are allocated
  after that.
\<close>

definition starts ::
  "SDK \<Rightarrow> Service \<Rightarrow> 'l Ledger \<Rightarrow> ('l \<Rightarrow> bool) \<Rightarrow> environment \<Rightarrow> ('l \<Rightarrow> 'l \<Rightarrow> bool) \<Rightarrow>
   'l world \<Rightarrow> bool" where
  "starts sdk s ops linv env outside w0 \<longleftrightarrow>
     (\<exists>stall n m l k. linv l \<and>
        sys_steps ops (env\<lparr>env_slots := k\<rparr>) outside (\<lambda>_ :: unit. EnsureSystemAccounts sdk s)
          ([], initial_world stall n m l) ([((), Return (Inr ()))], w0))"

text \<open>
  \<open>serves\<close>: the service, started over a ledger that meets the contract, has received some requests,
  their handlers have performed some actions in some interleaving, and other clients have used the
  ledger meanwhile; the requests with their remaining programs are \<open>ps\<close> and the state is \<open>w\<close>.
\<close>

definition serves ::
  "SDK \<Rightarrow> Service \<Rightarrow> 'l Ledger \<Rightarrow> ('l \<Rightarrow> ledger_view) \<Rightarrow> ('l \<Rightarrow> bool) \<Rightarrow> environment \<Rightarrow>
   ('l \<Rightarrow> 'l \<Rightarrow> bool) \<Rightarrow> 'l world \<Rightarrow> (HttpRequest \<times> HttpResponse prog) list \<Rightarrow> 'l world \<Rightarrow> bool" where
  "serves sdk s ops view linv env outside w0 ps w \<longleftrightarrow>
     tb_sdk sdk \<and> ledger_contract ops view linv \<and> outside_ok linv view outside \<and>
     starts sdk s ops linv env outside w0 \<and>
     sys_steps ops env outside (serveHTTP sdk s) ([], w0) (ps, w)"

text \<open>The transfer a request stands for.\<close>

fun request_intent :: "SDK \<Rightarrow> Service \<Rightarrow> HttpRequest \<Rightarrow> Transfer option" where
  "request_intent sdk s (PostTopUps input) =
     (case decodeJSON input of Inl _ \<Rightarrow> None | Inr req \<Rightarrow> TopUp_intent sdk s req)"
| "request_intent sdk s (PostWithdrawals input) =
     (case decodeJSON input of Inl _ \<Rightarrow> None | Inr req \<Rightarrow> Withdraw_intent sdk s req)"
| "request_intent sdk s (PostCardAllocations input) =
     (case decodeJSON input of Inl _ \<Rightarrow> None | Inr req \<Rightarrow> AllocateToCard_intent sdk s req)"
| "request_intent sdk s (PostCardReturns input) =
     (case decodeJSON input of Inl _ \<Rightarrow> None | Inr req \<Rightarrow> ReturnFromCard_intent sdk s req)"
| "request_intent sdk s (PostAuthorizations input) =
     (case decodeJSON input of Inl _ \<Rightarrow> None | Inr req \<Rightarrow> Authorize_intent sdk s req)"
| "request_intent sdk s _ = None"

text \<open>Whether a response reports the transfer as committed, and the timestamp it reports.\<close>

definition posted_at :: "HttpResponse \<Rightarrow> uint64 option" where
  "posted_at resp =
     (case Http_body resp of
        BodyTransaction tx \<Rightarrow>
          if TxResp_Status tx = ''posted'' then Some (TxResp_Timestamp tx) else None
      | _ \<Rightarrow> None)"

definition approved_at :: "HttpResponse \<Rightarrow> uint64 option" where
  "approved_at resp =
     (case Http_body resp of
        BodyAuthorization a \<Rightarrow>
          if AuthResp_Status a = ''approved'' then Some (AuthResp_Timestamp a) else None
      | _ \<Rightarrow> None)"

fun success :: "HttpRequest \<Rightarrow> HttpResponse \<Rightarrow> uint64 option" where
  "success (PostTopUps _) = posted_at"
| "success (PostWithdrawals _) = posted_at"
| "success (PostCardAllocations _) = posted_at"
| "success (PostCardReturns _) = posted_at"
| "success (PostAuthorizations _) = approved_at"
| "success _ = (\<lambda>_. None)"

text \<open>Whether a response reports a rejection that marks the transfer ID as failed.\<close>

definition final_codes :: "string list" where
  "final_codes = [''insufficient_funds'', ''account_not_found'', ''previous_attempt_failed'']"

definition transaction_rejected :: "HttpResponse \<Rightarrow> bool" where
  "transaction_rejected resp \<longleftrightarrow>
     (case Http_body resp of BodyTransaction tx \<Rightarrow> TxResp_ErrorCode tx \<in> set final_codes | _ \<Rightarrow> False)"

definition authorization_rejected :: "HttpResponse \<Rightarrow> bool" where
  "authorization_rejected resp \<longleftrightarrow>
     (case Http_body resp of BodyAuthorization a \<Rightarrow> AuthResp_Status a \<noteq> ''approved'' \<and>
        AuthResp_ErrorCode a \<in> set final_codes | _ \<Rightarrow> False)"

fun final_failure :: "HttpRequest \<Rightarrow> HttpResponse \<Rightarrow> bool" where
  "final_failure (PostTopUps _) = transaction_rejected"
| "final_failure (PostWithdrawals _) = transaction_rejected"
| "final_failure (PostCardAllocations _) = transaction_rejected"
| "final_failure (PostCardReturns _) = transaction_rejected"
| "final_failure (PostAuthorizations _) = authorization_rejected"
| "final_failure _ = (\<lambda>_. False)"

section \<open>Soundness of the running service\<close>

lemma EnsureSystemAccounts_post_stable: "stable_post (EnsureSystemAccounts_post sdk s)"
  by (simp add: stable_post_def EnsureSystemAccounts_post_def has_role_grows)

lemma initial_world_inv:
  assumes "view_ok (view l)" "linv l"
  shows "world_inv linv view G (view l) (initial_world stall n m l)"
  using assms cache_inv_new [of n]
  by (auto simp: world_inv_def initial_world_def mc.holds_only_def cache_Load_def newMetadataCache_def)

lemma starts_sound:
  assumes sdk: "tb_sdk sdk" and c: "ledger_contract ops view linv" and out: "outside_ok linv view outside"
    and st: "starts sdk s ops linv env outside w0"
  shows "world_inv linv view (service_guar sdk s) (view (w_ledger w0)) w0"
    and "EnsureSystemAccounts_post sdk s (Inr ()) (view (w_ledger w0))"
proof -
  obtain stall n m l k where l: "linv l"
    and steps: "sys_steps ops (env\<lparr>env_slots := k\<rparr>) outside (\<lambda>_ :: unit. EnsureSystemAccounts sdk s)
      ([], initial_world stall n m l) ([((), Return (Inr ()))], w0)"
    using st by (auto simp: starts_def)
  let ?w = "initial_world stall n m l" and ?G = "service_guar sdk s"
  have inv: "world_inv linv view ?G (view l) ?w"
    using initial_world_inv ledger_contract.view_ok [OF c l] l .
  have "wp ?G (EnsureSystemAccounts sdk s) (EnsureSystemAccounts_post sdk s) K"
    if "grows (view (w_ledger ?w)) K" for K
    using tb_sdk.EnsureSystemAccounts_wp [OF sdk grows_ok [OF that]] .
  from ledger_contract.sys_sound [where Q = "\<lambda>_ _. EnsureSystemAccounts_post sdk s", OF c stable_service_guar
      out this EnsureSystemAccounts_post_stable steps inv]
  have "world_inv linv view ?G (view l) w0 \<and>
      all_correct ?G (\<lambda>_ _ :: unit. EnsureSystemAccounts_post sdk s) [((), Return (Inr ()))] (view (w_ledger w0))"
    by (simp add: all_correct_def)
  then show "world_inv linv view ?G (view (w_ledger w0)) w0"
    and "EnsureSystemAccounts_post sdk s (Inr ()) (view (w_ledger w0))"
    by (auto simp: world_inv_def all_correct_def)
qed

text \<open>A startup that runs undisturbed is one way to start.\<close>

lemma starts_run:
  assumes "run ops env (EnsureSystemAccounts sdk s) (initial_world stall n m l) = (Some (Inr ()), w0)" "linv l"
  shows "starts sdk s ops linv (env\<lparr>env_slots := k\<rparr>) outside w0"
proof -
  let ?env = "env\<lparr>env_slots := k, env_slots := env_slots env\<rparr>"
  have "sys_steps ops ?env outside (\<lambda>_ :: unit. EnsureSystemAccounts sdk s)
      ([], initial_world stall n m l) ([] @ [((), Return (Inr ()))], w0)"
    using assms(1) by (intro sys_steps_run) simp
  with assms(2) show ?thesis
    unfolding starts_def append_Nil by blast
qed

lemma serves_world:
  assumes "serves sdk s ops view linv env outside w0 ps w"
  shows "world_inv linv view (service_guar sdk s) (view (w_ledger w0)) w0"
    and "EnsureSystemAccounts_post sdk s (Inr ()) (view (w_ledger w0))"
  using assms starts_sound unfolding serves_def by blast+

text \<open>From any state on, with the requests that have arrived so far and those that arrive later.\<close>

lemma continue_sound:
  assumes h: "serves sdk s ops view linv env outside w0 ps0 w0'"
    and steps: "sys_steps ops env outside (serveHTTP sdk s) (ps, w) (ps', w')"
    and inv: "world_inv linv view (service_guar sdk s) K0 w"
    and all: "all_correct (service_guar sdk s) Q ps (view (w_ledger w))"
    and Q: "\<And>i r. stable_post (Q i r)"
      "\<And>i r. length ps \<le> i \<Longrightarrow> Q i r = http_post (view (w_ledger w)) sdk s r"
  shows "world_inv linv view (service_guar sdk s) K0 w' \<and>
    grows (view (w_ledger w)) (view (w_ledger w')) \<and> length ps \<le> length ps' \<and>
    all_correct (service_guar sdk s) Q ps' (view (w_ledger w')) \<and>
    (outside_journal linv view (service_guar sdk s) outside \<longrightarrow>
       journal_ok (service_guar sdk s) (view (w_ledger w)) (view (w_ledger w')))"
proof (rule ledger_contract.sys_sound [OF _ stable_service_guar _ _ Q(1) steps inv all])
  show "ledger_contract ops view linv" "outside_ok linv view outside"
    using h by (auto simp: serves_def)
  show "wp (service_guar sdk s) (serveHTTP sdk s r) (Q i r) K"
    if "length ps \<le> i" "grows (view (w_ledger w)) K" for i r K
    using tb_sdk.serveHTTP_wp [OF _ that(2)] h by (simp add: serves_def Q(2) [OF that(1)])
qed

lemma serves_sound:
  assumes h: "serves sdk s ops view linv env outside w0 ps w"
  shows "world_inv linv view (service_guar sdk s) (view (w_ledger w0)) w"
    and "grows (view (w_ledger w0)) (view (w_ledger w))"
    and "all_correct (service_guar sdk s) (\<lambda>_. http_post (view (w_ledger w0)) sdk s) ps (view (w_ledger w))"
    and "outside_journal linv view (service_guar sdk s) outside \<Longrightarrow>
      journal_ok (service_guar sdk s) (view (w_ledger w0)) (view (w_ledger w))"
proof -
  have "sys_steps ops env outside (serveHTTP sdk s) ([], w0) (ps, w)"
    using h by (simp add: serves_def)
  note sound = continue_sound [OF h this serves_world(1) [OF h], where Q = "\<lambda>_. http_post (view (w_ledger w0)) sdk s"]
  show "world_inv linv view (service_guar sdk s) (view (w_ledger w0)) w"
    and "grows (view (w_ledger w0)) (view (w_ledger w))"
    and "all_correct (service_guar sdk s) (\<lambda>_. http_post (view (w_ledger w0)) sdk s) ps (view (w_ledger w))"
    and "outside_journal linv view (service_guar sdk s) outside \<Longrightarrow>
      journal_ok (service_guar sdk s) (view (w_ledger w0)) (view (w_ledger w))"
    using sound http_post_stable by (simp_all add: all_correct_def)
qed

lemma serves_view_ok: "serves sdk s ops view linv env outside w0 ps w \<Longrightarrow> view_ok (view (w_ledger w))"
  using serves_sound(2) by blast

text \<open>The postcondition of a finished request holds in the current ledger.\<close>

lemma serves_post:
  assumes "serves sdk s ops view linv env outside w0 ps w" "(r, Return resp) \<in> set ps"
  shows "http_post (view (w_ledger w0)) sdk s r resp (view (w_ledger w))"
proof -
  obtain i where "i < length ps" "ps ! i = (r, Return resp)"
    using assms(2) by (auto simp: in_set_conv_nth)
  with serves_sound(3) [OF assms(1)] show ?thesis
    by (force simp: all_correct_def)
qed

text \<open>The same relative to the ledger of any state before the request arrived.\<close>

lemma serves_later:
  assumes h: "serves sdk s ops view linv env outside w0 ps w"
    and steps: "sys_steps ops env outside (serveHTTP sdk s) (ps, w) (ps', w')"
  shows "serves sdk s ops view linv env outside w0 ps' w'"
    and "grows (view (w_ledger w)) (view (w_ledger w'))"
    and "length ps \<le> i \<Longrightarrow> i < length ps' \<Longrightarrow> ps' ! i = (r, Return resp) \<Longrightarrow>
      http_post (view (w_ledger w)) sdk s r resp (view (w_ledger w'))"
proof -
  let ?Q = "\<lambda>i r resp K. length ps \<le> i \<longrightarrow> http_post (view (w_ledger w)) sdk s r resp K"
  show "serves sdk s ops view linv env outside w0 ps' w'"
    using h steps by (auto simp: serves_def)
  have "all_correct (service_guar sdk s) ?Q ps (view (w_ledger w))"
    using serves_sound(3) [OF h] by (auto simp: all_correct_def intro: wp_post_mono)
  note sound = continue_sound [OF h steps serves_sound(1) [OF h] this]
  have "grows (view (w_ledger w)) (view (w_ledger w')) \<and>
      all_correct (service_guar sdk s) ?Q ps' (view (w_ledger w'))"
    using sound http_post_stable by (simp add: stable_post_def)
  then show "grows (view (w_ledger w)) (view (w_ledger w'))"
    and "length ps \<le> i \<Longrightarrow> i < length ps' \<Longrightarrow> ps' ! i = (r, Return resp) \<Longrightarrow>
      http_post (view (w_ledger w)) sdk s r resp (view (w_ledger w'))"
    by (auto simp: all_correct_def dest!: spec [of _ i])
qed

lemma posted_committed:
  assumes "answers decoded (\<lambda>req. transaction_post K0 (intent req)) BodyTransaction resp K"
    "posted_at resp = Some ts"
  shows "\<exists>t. (case decoded of Inl _ \<Rightarrow> None | Inr req \<Rightarrow> intent req) = Some t \<and> committed t ts K \<and>
    Http_status resp = 200"
  using assms by (auto simp: answers_def posted_at_def transaction_post_def
      split: ResponseBody.splits if_splits)

lemma approved_committed:
  assumes "answers decoded (\<lambda>req. authorization_post K0 s req (intent req)) BodyAuthorization resp K"
    "approved_at resp = Some ts"
  shows "\<exists>t. (case decoded of Inl _ \<Rightarrow> None | Inr req \<Rightarrow> intent req) = Some t \<and> committed t ts K \<and>
    Http_status resp = 200"
  using assms by (auto simp: answers_def approved_at_def authorization_post_def
      split: ResponseBody.splits if_splits)

lemma success_committed:
  assumes "http_post K0 sdk s r resp K" "success r resp = Some ts"
  shows "\<exists>t. request_intent sdk s r = Some t \<and> committed t ts K \<and> Http_status resp = 200"
  using assms by (cases r) (auto dest: posted_committed approved_committed)

lemma rejected_final: "rejected K0 t code status K \<Longrightarrow> code \<in> set final_codes \<Longrightarrow> Transfer_ID t \<in> view_failed K"
  by (auto simp: rejected_def final_codes_def)

lemma transaction_rejected_failed:
  assumes "answers decoded (\<lambda>req. transaction_post K0 (intent req)) BodyTransaction resp K"
    "transaction_rejected resp"
  shows "\<exists>t. (case decoded of Inl _ \<Rightarrow> None | Inr req \<Rightarrow> intent req) = Some t \<and>
    Transfer_ID t \<in> view_failed K"
proof -
  have "[] \<notin> set final_codes" by (simp add: final_codes_def)
  with assms rejected_final show ?thesis
    by (fastforce simp: answers_def transaction_rejected_def transaction_post_def
        split: ResponseBody.splits)
qed

lemma authorization_rejected_failed:
  assumes "answers decoded (\<lambda>req. authorization_post K0 s req (intent req)) BodyAuthorization resp K"
    "authorization_rejected resp"
  shows "\<exists>t. (case decoded of Inl _ \<Rightarrow> None | Inr req \<Rightarrow> intent req) = Some t \<and>
    Transfer_ID t \<in> view_failed K"
proof -
  have "''risk_limit_exceeded'' \<notin> set final_codes" by (simp add: final_codes_def)
  with assms rejected_final show ?thesis
    by (fastforce simp: answers_def authorization_rejected_def authorization_post_def
        split: ResponseBody.splits)
qed

lemma final_failure_failed:
  assumes "http_post K0 sdk s r resp K" "final_failure r resp"
  shows "\<exists>t. request_intent sdk s r = Some t \<and> Transfer_ID t \<in> view_failed K"
  using assms by (cases r) (auto dest: transaction_rejected_failed authorization_rejected_failed)

section \<open>Committed transfers\<close>

lemma committed_unique: "committed t ts K \<Longrightarrow> committed t ts' K \<Longrightarrow> ts' = ts"
  by (auto simp: committed_def dest: arg_cong [where f = Transfer_Timestamp])

lemma committed_no_conflict: "committed t ts K \<Longrightarrow> \<not> payload_conflict t K"
  by (simp add: committed_def payload_conflict_def same_payload_def)

lemma committed_not_failed: "view_ok K \<Longrightarrow> committed t ts K \<Longrightarrow> Transfer_ID t \<notin> view_failed K"
  by (auto simp: committed_def view_ok_def)

lemma committed_not_rejected:
  "grows K0 K \<Longrightarrow> committed t ts K0 \<Longrightarrow> \<not> rejected K0 t code status K"
  using committed_not_failed [OF grows_ok committed_grows]
  by (auto simp: rejected_def committed_def)

text \<open>A retry of a committed transfer is confirmed, or it is an error other than a conflict.\<close>

lemma transaction_replayed:
  assumes ans: "answers decoded (\<lambda>req. transaction_post K0 (intent req)) BodyTransaction resp K"
    and t: "(case decoded of Inl _ \<Rightarrow> None | Inr req \<Rightarrow> intent req) = Some t"
    and c: "committed t ts K0" and g: "grows K0 K"
  shows "posted_at resp = Some ts \<or> is_BodyError (Http_body resp) \<and> Http_status resp \<noteq> 409"
proof (cases "Http_body resp \<in> range BodyTransaction")
  case True
  then obtain x req where x: "Http_body resp = BodyTransaction x" "decoded = Inr req"
      "transaction_post K0 (intent req) (Inr (x, Http_status resp)) K"
    using ans by (auto simp: answers_def)
  then have "TxResp_Status x = ''posted''" "committed t (TxResp_Timestamp x) K"
    using t committed_not_rejected [OF g c] by (auto simp: transaction_post_def)
  then show ?thesis
    using committed_unique [OF committed_grows [OF g c]] by (simp add: posted_at_def x(1))
next
  case False
  then show ?thesis
    using ans t committed_no_conflict [OF committed_grows [OF g c]]
    by (auto simp: answers_def transaction_post_def)
qed

lemma authorization_replayed:
  assumes ans: "answers decoded (\<lambda>req. authorization_post K0 s req (intent req)) BodyAuthorization resp K"
    and t: "(case decoded of Inl _ \<Rightarrow> None | Inr req \<Rightarrow> intent req) = Some t"
    and c: "committed t ts K0" and g: "grows K0 K"
  shows "approved_at resp = Some ts \<or> is_BodyError (Http_body resp) \<and> Http_status resp \<noteq> 409"
proof (cases "Http_body resp \<in> range BodyAuthorization")
  case True
  then obtain x req where x: "Http_body resp = BodyAuthorization x" "decoded = Inr req"
      "authorization_post K0 s req (intent req) (Inr (x, Http_status resp)) K"
    using ans by (auto simp: answers_def)
  have "view_transfers K0 (Transfer_ID t) \<noteq> None" "Transfer_ID t \<notin> view_failed K"
    using c committed_not_failed [OF grows_ok [OF g] committed_grows [OF g c]]
    by (auto simp: committed_def)
  then have "AuthResp_Status x = ''approved''" "committed t (AuthResp_Timestamp x) K"
    using t x(2,3) committed_not_rejected [OF g c] by (auto simp: authorization_post_def)
  then show ?thesis
    using committed_unique [OF committed_grows [OF g c]] by (simp add: approved_at_def x(1))
next
  case False
  then show ?thesis
    using ans t committed_no_conflict [OF committed_grows [OF g c]]
    by (auto simp: answers_def authorization_post_def)
qed

lemma request_replayed:
  assumes "http_post K0 sdk s r resp K" "request_intent sdk s r = Some t"
    and "committed t ts K0" "grows K0 K"
  shows "success r resp = Some ts \<or> is_BodyError (Http_body resp) \<and> Http_status resp \<noteq> 409"
  using assms by (cases r) (auto dest: transaction_replayed authorization_replayed)

lemma request_conflict:
  assumes "http_post K0 sdk s r resp K" "is_BodyError (Http_body resp)" "Http_status resp = 409"
    "request_intent sdk s r = Some t"
  shows "payload_conflict t K"
  using assms by (cases r) (auto simp: answers_def transaction_post_def authorization_post_def)

text \<open>An increment is the same transfer whichever timeout a retry computes.\<close>

definition increment_at :: "HttpResponse \<Rightarrow> uint64 option" where
  "increment_at resp =
     (case Http_body resp of
        BodyIncrement b \<Rightarrow>
          if IncResp_Status b = ''approved'' then Some (IncResp_Timestamp b) else None
      | _ \<Rightarrow> None)"

lemma increment_of_ID:
  "increment_of sdk s request original K f \<Longrightarrow> Transfer_ID (f timeout) = Transfer_ID (f timeout')"
  by (auto simp: increment_of_def)

lemma increment_replayed:
  assumes ans: "answers (Inr req) (increment_post K0 sdk s) BodyIncrement resp K"
    and f: "increment_of sdk s req original K0 f" and c: "committed (f timeout) ts K0"
    and g: "grows K0 K"
  shows "increment_at resp = Some ts \<or> is_BodyError (Http_body resp) \<and> Http_status resp \<noteq> 409"
proof (cases "Http_body resp \<in> range BodyIncrement")
  case True
  then obtain x where x: "Http_body resp = BodyIncrement x"
      "increment_post K0 sdk s req (Inr (x, Http_status resp)) K"
    using ans by (auto simp: answers_def)
  have exists: "increment_exists sdk s req K0"
    using f c by (auto simp: increment_exists_def)
  have known: "view_transfers K0 (Transfer_ID (f t)) \<noteq> None" "Transfer_ID (f t) \<notin> view_failed K" for t
    using c increment_of_ID [OF f, of t timeout] committed_not_failed [OF grows_ok [OF g] committed_grows [OF g c]]
    by (auto simp: committed_def)
  then have fresh: "\<not> rejected K0 (f t) code status K" for t code status
    by (simp add: rejected_def)
  have f': "f' = f" if "increment_of sdk s req original' K f'" for original' f'
    using increment_of_unique(2) [OF g f that] by simp
  have "\<not> (\<exists>original f timeout. increment_of sdk s req original K f \<and>
      (Transfer_ID (f timeout) \<in> view_failed K \<or> rejected K0 (f timeout) code status K))" for code status
    using f' known(2) fresh by blast
  then have "IncResp_Status x = ''approved'' \<and>
      (\<exists>original f timeout. increment_of sdk s req original K f \<and>
         committed (f timeout) (IncResp_Timestamp x) K)"
    using x(2) exists unfolding increment_post_def sum.case prod.case by blast
  then obtain t where "IncResp_Status x = ''approved''" "committed (f t) (IncResp_Timestamp x) K"
    using f' by blast
  moreover from this have "IncResp_Timestamp x = ts"
    using committed_grows [OF g c] increment_of_ID [OF f, of t timeout]
    by (auto simp: committed_def dest: arg_cong [where f = Transfer_Timestamp])
  ultimately show ?thesis
    by (simp add: increment_at_def x(1))
next
  case False
  then show ?thesis
    using ans committed_no_conflict [OF committed_grows [OF g c]] increment_of_unique(2) [OF g f]
    by (auto simp: answers_def increment_post_def)
qed

end
