(* ===== verification/Resource_Use.thy ===== *)
theory Resource_Use
  imports Running_Service
begin

text \<open>
  How requests use the two shared resources that are taken and given back: the admission slots of
  \<open>internal/httpapi/admission.go\<close> and the calls in flight of \<open>internal/service/health.go\<close>.  Every
  handler follows a protocol (\<open>disciplined\<close>), and the protocol, followed by any number of
  interleaved requests, keeps the slot counter and the set of active calls exact.
\<close>

section \<open>The protocol\<close>

text \<open>
  \<open>disciplined u e p b a c\<close>: where the request holds a slot iff \<open>b\<close>, has read the clock since its
  last call began iff \<open>a\<close>, and is inside the ledger call \<open>c\<close>, the rest \<open>p\<close> of its program keeps to
  the protocol and ends, also by a panic, outside every call and holding a slot iff \<open>e\<close>.  With \<open>u\<close>
  ledger calls are allowed without a slot, as during startup.
\<close>

primrec disciplined :: "bool \<Rightarrow> bool \<Rightarrow> 'a prog \<Rightarrow> bool \<Rightarrow> bool \<Rightarrow> uint64 option \<Rightarrow> bool" where
  "disciplined u e (Return x) b a c \<longleftrightarrow> b = e \<and> c = None"
| "disciplined u e Panic b a c \<longleftrightarrow> b = e \<and> c = None"
| "disciplined u e (Now k) b a c \<longleftrightarrow> (\<forall>t > 0. disciplined u e (k t) b True c)"
| "disciplined u e (AwaitRisk d k) b a c \<longleftrightarrow> (\<forall>x. disciplined u e (k x) b a c)"
| "disciplined u e (CacheLoad i k) b a c \<longleftrightarrow> (\<forall>x. disciplined u e (k x) b a c)"
| "disciplined u e (CacheStore i m k) b a c \<longleftrightarrow> (\<forall>x. disciplined u e (k x) b a c)"
| "disciplined u e (BeginCall t k) b a c \<longleftrightarrow>
     a \<and> 0 < t \<and> c = None \<and> (\<forall>i. disciplined u e (k i) b False (Some i))"
| "disciplined u e (EndCall i t x k) b a c \<longleftrightarrow> c = Some i \<and> disciplined u e k b a None"
| "disciplined u e (CallCreateAccount y k) b a c \<longleftrightarrow>
     c \<noteq> None \<and> (u \<or> b) \<and> (\<forall>x. disciplined u e (k x) b a c)"
| "disciplined u e (CallCreateTransfer y k) b a c \<longleftrightarrow>
     c \<noteq> None \<and> (u \<or> b) \<and> (\<forall>x. disciplined u e (k x) b a c)"
| "disciplined u e (CallLookupAccount y k) b a c \<longleftrightarrow>
     c \<noteq> None \<and> (u \<or> b) \<and> (\<forall>x. disciplined u e (k x) b a c)"
| "disciplined u e (CallLookupTransfer y k) b a c \<longleftrightarrow>
     c \<noteq> None \<and> (u \<or> b) \<and> (\<forall>x. disciplined u e (k x) b a c)"
| "disciplined u e (ReadHealth k) b a c \<longleftrightarrow> (\<forall>x. disciplined u e (k x) b a c)"
| "disciplined u e (AcquireSlot k) b a c \<longleftrightarrow>
     \<not> b \<and> disciplined u e (k True) True a c \<and> disciplined u e (k False) False a c"
| "disciplined u e (ReleaseSlot k) b a c \<longleftrightarrow> b \<and> disciplined u e k False a c"
| "disciplined u e (EmitMetric m k) b a c \<longleftrightarrow> disciplined u e k b a c"
| "disciplined u e (EmitLog l k) b a c \<longleftrightarrow> disciplined u e k b a c"

text \<open>A program that starts and ends outside every call, with or without a slot.\<close>

abbreviation clean :: "bool \<Rightarrow> bool \<Rightarrow> 'a prog \<Rightarrow> bool" where
  "clean u e p \<equiv> disciplined u e p e False None"

text \<open>The requests that wait for an answer of the ledger.\<close>

fun in_ledger_call :: "'a prog \<Rightarrow> bool" where
  "in_ledger_call (CallCreateAccount a k) = True"
| "in_ledger_call (CallCreateTransfer t k) = True"
| "in_ledger_call (CallLookupAccount i k) = True"
| "in_ledger_call (CallLookupTransfer i k) = True"
| "in_ledger_call p = False"

section \<open>The handlers follow it\<close>

named_theorems clean_rules \<open>introduction rules for the protocol\<close>

lemma disciplined_read: "disciplined u e p b a c \<Longrightarrow> disciplined u e p b True c"
  by (induction p arbitrary: b a c) (simp_all, blast+)

lemma disciplined_any: "disciplined u e p b False c \<Longrightarrow> disciplined u e p b a c"
  by (cases a) (auto intro: disciplined_read)

lemma disciplined_seq:
  "disciplined u e p b a c \<Longrightarrow> (\<And>x. clean u e (f x)) \<Longrightarrow> disciplined u e (seq p f) b a c"
  by (induction p arbitrary: b a c) (simp_all add: disciplined_any)

lemma disciplined_upon_exit:
  "disciplined u e p b a c \<Longrightarrow> (\<And>r. disciplined u e' (f r) e False None) \<Longrightarrow>
   disciplined u e' (upon_exit p f) b a c"
  by (induction p arbitrary: b a c) (simp_all add: disciplined_any)

lemma clean_seq [clean_rules]: "clean u e p \<Longrightarrow> (\<And>x. clean u e (f x)) \<Longrightarrow> clean u e (seq p f)"
  by (rule disciplined_seq)

lemma clean_attempt [clean_rules]:
  "clean u e p \<Longrightarrow> (\<And>x. clean u e (f x)) \<Longrightarrow> clean u e (attempt p f)"
  unfolding attempt_def by (rule disciplined_seq) (auto simp: fail_def split: sum.split)

lemma clean_check [clean_rules]: "(\<And>x. clean u e (f x)) \<Longrightarrow> clean u e (check r f)"
  by (auto simp: check_def fail_def split: sum.split)

lemma clean_leaf [clean_rules]: "clean u e (Return x)" "clean u e Panic" "clean u e (fail err)"
  by (simp_all add: fail_def)

lemma clean_action [clean_rules]:
  "(\<And>t. clean u e (k1 t)) \<Longrightarrow> clean u e (Now k1)"
  "(\<And>x. clean u e (k2 x)) \<Longrightarrow> clean u e (AwaitRisk d k2)"
  "(\<And>x. clean u e (k3 x)) \<Longrightarrow> clean u e (CacheLoad i k3)"
  "(\<And>x. clean u e (k4 x)) \<Longrightarrow> clean u e (CacheStore i m k4)"
  "(\<And>x. clean u e (k5 x)) \<Longrightarrow> clean u e (ReadHealth k5)"
  "clean u e p \<Longrightarrow> clean u e (EmitMetric mc p)"
  "clean u e p \<Longrightarrow> clean u e (EmitLog l p)"
  by (auto intro: disciplined_any)

lemma clean_branch [clean_rules]:
  "(P \<Longrightarrow> clean u e p) \<Longrightarrow> (\<not> P \<Longrightarrow> clean u e q) \<Longrightarrow> clean u e (if P then p else q)"
  "clean u e p \<Longrightarrow> (\<And>y. clean u e (f y)) \<Longrightarrow> clean u e (case x of None \<Rightarrow> p | Some y \<Rightarrow> f y)"
  "(\<And>y. clean u e (g y)) \<Longrightarrow> (\<And>z. clean u e (h z)) \<Longrightarrow> clean u e (case r of Inl y \<Rightarrow> g y | Inr z \<Rightarrow> h z)"
  "(\<And>y z. clean u e (d y z)) \<Longrightarrow> clean u e (case_prod d pr)"
  "clean u e (f v) \<Longrightarrow> clean u e (Let v f)"
  by (auto split: option.split sum.split prod.split)

lemma clean_observed [clean_rules]:
  assumes "u \<or> e"
  shows "clean u e (observed_CreateAccount s a)" "clean u e (observed_CreateTransfer s t)"
    "clean u e (observed_LookupAccount s i)" "clean u e (observed_LookupTransfer s i)"
  using assms by (auto simp: observed_CreateAccount_def observed_CreateTransfer_def
      observed_LookupAccount_def observed_LookupTransfer_def observed_call_def)

lemma clean_accounts [clean_rules]:
  assumes "u \<or> e"
  shows "clean u e (storeMetadata i m)" "clean u e (rememberAccount sdk s a)"
    "clean u e (requireAccountKind sdk s i k)"
  unfolding storeMetadata_def rememberAccount_def requireAccountKind_def
  by (intro clean_rules assms)+

lemma clean_ensureAccounts [clean_rules]: "u \<or> e \<Longrightarrow> clean u e (ensureAccounts sdk s xs)"
  by (induction xs rule: ensureAccounts.induct) (auto intro!: clean_rules)

lemma clean_observeCompletion [clean_rules]: "clean u e (observeCompletion s k i st am t ls as)"
  unfolding observeCompletion_def by (intro clean_rules)

lemma clean_evaluateRisk [clean_rules]: "clean u e (evaluateRisk s am)"
  unfolding evaluateRisk_def by (intro clean_rules)

lemma clean_executeTransaction [clean_rules]:
  "u \<or> e \<Longrightarrow> clean u e (executeTransaction sdk s k i t st)"
  unfolding executeTransaction_def by (intro clean_rules)

lemma clean_CreateAccount [clean_rules]: "u \<or> e \<Longrightarrow> clean u e (CreateAccount sdk s req)"
  unfolding CreateAccount_def CreateAccount_parent_def CreateAccount_submit_def by (intro clean_rules)

lemma clean_Balance [clean_rules]: "u \<or> e \<Longrightarrow> clean u e (Balance sdk s v)"
  unfolding Balance_def by (intro clean_rules)

lemma clean_moves [clean_rules]:
  "u \<or> e \<Longrightarrow> clean u e (TopUp sdk s r1)" "u \<or> e \<Longrightarrow> clean u e (Withdraw sdk s r2)"
  "u \<or> e \<Longrightarrow> clean u e (AllocateToCard sdk s r3)" "u \<or> e \<Longrightarrow> clean u e (ReturnFromCard sdk s r4)"
  unfolding TopUp_def Withdraw_def AllocateToCard_def ReturnFromCard_def moveCardFunds_def
  by (intro clean_rules; assumption)+

lemma clean_Authorize [clean_rules]: "u \<or> e \<Longrightarrow> clean u e (Authorize sdk s req)"
  unfolding Authorize_def Authorize_declined_def Authorize_submit_def by (intro clean_rules)

lemma clean_Increment [clean_rules]: "u \<or> e \<Longrightarrow> clean u e (IncrementAuthorization sdk s req)"
  unfolding IncrementAuthorization_def Increment_evaluate_def Increment_submit_def Increment_resolve_def
    increment_complete_def lookupExistingIncrement_def
  by (intro clean_rules)

lemma clean_respond [clean_rules]: "(\<And>r. clean u e (f r)) \<Longrightarrow> clean u e (respond input f b)"
  unfolding respond_def by (intro clean_rules)

lemma clean_LedgerHealth_read [clean_rules]: "clean u e LedgerHealth_read"
  unfolding LedgerHealth_read_def by (intro clean_rules)

lemma clean_http [clean_rules]:
  "clean False True (http_createAccount sdk s i1)" "clean False True (http_balance sdk s v)"
  "clean False True (http_topUp sdk s i2)" "clean False True (http_withdraw sdk s i3)"
  "clean False True (http_allocateToCard sdk s i4)" "clean False True (http_returnFromCard sdk s i5)"
  "clean False True (http_authorize sdk s i6)" "clean False True (http_increment sdk s i7)"
  unfolding http_createAccount_def http_balance_def http_topUp_def http_withdraw_def
    http_allocateToCard_def http_returnFromCard_def http_authorize_def http_increment_def
  by (intro clean_rules; simp)+

text \<open>Admission takes the slot before the handler and gives it back after a return and after a panic.\<close>

lemma clean_admission [clean_rules]:
  assumes "clean False True p"
  shows "clean False False (admission_Wrap p)"
proof -
  have "disciplined False False (upon_exit p (\<lambda>r. ReleaseSlot (EmitMetric EndAdmission
      (case r of Some response \<Rightarrow> Return response | None \<Rightarrow> Panic)))) True a None" for a
    using assms by (intro disciplined_upon_exit [of _ True]) (auto intro: disciplined_any split: option.split)
  then show ?thesis
    unfolding admission_Wrap_def by (intro clean_rules) (auto intro: disciplined_any)
qed

lemma clean_serveMux [clean_rules]: "clean False False (serveMux sdk s r)"
  by (cases r) (auto simp: server_handle_def HTTPMiddleware_def http_live_def http_ready_def
      intro!: clean_rules)

lemma clean_serveHTTP: "clean False False (serveHTTP sdk s r)"
  unfolding serveHTTP_def recoverPanics_def
  by (rule disciplined_upon_exit [OF clean_serveMux]) (auto split: option.split)

section \<open>The protocol keeps the resources exact\<close>

text \<open>What is known of a request: whether it holds a slot, has read the clock, and its ledger call.\<close>

record phase =
  ph_slot :: bool
  ph_read :: bool
  ph_call :: "uint64 option"

definition idle :: phase where
  "idle = \<lparr>ph_slot = False, ph_read = False, ph_call = None\<rparr>"

definition tally :: "(phase \<Rightarrow> bool) \<Rightarrow> phase list \<Rightarrow> nat" where
  "tally P st = (\<Sum>x\<leftarrow>st. of_bool (P x))"

definition tracked :: "bool \<Rightarrow> nat \<Rightarrow> ('r \<times> 'a prog) list \<Rightarrow> phase list \<Rightarrow> 'l world \<Rightarrow> bool" where
  "tracked u slots ps st w \<longleftrightarrow>
     length st = length ps \<and>
     (\<forall>i < length ps. disciplined u False (snd (ps ! i)) (ph_slot (st ! i)) (ph_read (st ! i)) (ph_call (st ! i))) \<and>
     w_slots w = tally ph_slot st \<and> w_slots w \<le> slots \<and>
     obs_inv (w_observed w) \<and>
     unat (obs_nextID (w_observed w)) + tally ph_read st \<le> w_tick w \<and>
     length (obs_active (w_observed w)) = tally (\<lambda>x. ph_call x \<noteq> None) st \<and>
     (\<forall>i < length ps. \<forall>c. ph_call (st ! i) = Some c \<longrightarrow> c \<in> fst ` set (obs_active (w_observed w))) \<and>
     (\<forall>i < length ps. \<forall>j < length ps. i \<noteq> j \<longrightarrow> ph_call (st ! i) \<noteq> None \<longrightarrow> ph_call (st ! i) \<noteq> ph_call (st ! j))"

lemma tally_Cons [simp]: "tally P (x # st) = of_bool (P x) + tally P st"
  by (simp add: tally_def)

lemma tally_append [simp]: "tally P (st @ [x]) = tally P st + of_bool (P x)"
  by (simp add: tally_def)

lemma tally_update: "i < length st \<Longrightarrow> tally P (st[i := x]) + of_bool (P (st ! i)) = tally P st + of_bool (P x)"
proof (induction st arbitrary: i)
  case (Cons y st)
  then show ?case
    using Cons.IH [of "i - 1"] by (cases i) simp_all
qed simp

lemma tracked_new: "tracked u slots [] [] (initial_world stall n m l)"
  using obs_inv_new [of stall m]
  by (simp add: tracked_def initial_world_def tally_def) (simp add: newObservedLedger_def)

lemma tracked_arrives:
  assumes "tracked u slots ps st w" "clean u False p"
  shows "tracked u slots (ps @ [(r, p)]) (st @ [idle]) w"
  using assms by (auto simp: tracked_def idle_def nth_append less_Suc_eq)

text \<open>A request moves on: what its step has to keep.\<close>

lemma tracked_moves:
  assumes t: "tracked u slots ps st w" and i: "i < length ps"
    and p: "disciplined u False p' (ph_slot x) (ph_read x) (ph_call x)"
    and slots: "w_slots w' + of_bool (ph_slot (st ! i)) = w_slots w + of_bool (ph_slot x)" "w_slots w' \<le> slots"
    and tick: "unat (obs_nextID (w_observed w')) + of_bool (ph_read x) + w_tick w \<le>
      unat (obs_nextID (w_observed w)) + of_bool (ph_read (st ! i)) + w_tick w'"
    and inv: "obs_inv (w_observed w')"
    and calls: "length (obs_active (w_observed w')) + of_bool (ph_call (st ! i) \<noteq> None) =
      length (obs_active (w_observed w)) + of_bool (ph_call x \<noteq> None)"
      "fst ` set (obs_active (w_observed w)) - set_option (ph_call (st ! i)) \<subseteq> fst ` set (obs_active (w_observed w'))"
      "\<And>c. ph_call x = Some c \<Longrightarrow> c \<in> fst ` set (obs_active (w_observed w')) \<and>
         (ph_call (st ! i) = Some c \<or> c \<notin> fst ` set (obs_active (w_observed w)))"
  shows "tracked u slots (ps[i := (r, p')]) (st[i := x]) w'"
proof -
  have len: "length st = length ps" and i': "i < length st"
    using t i by (auto simp: tracked_def)
  have known: "\<And>j c. j < length ps \<Longrightarrow> ph_call (st ! j) = Some c \<Longrightarrow> c \<in> fst ` set (obs_active (w_observed w))"
    and distinct: "\<And>j k. j < length ps \<Longrightarrow> k < length ps \<Longrightarrow> j \<noteq> k \<Longrightarrow> ph_call (st ! j) \<noteq> None \<Longrightarrow>
      ph_call (st ! j) \<noteq> ph_call (st ! k)"
    using t unfolding tracked_def by blast+
  have "w_slots w' = tally ph_slot (st[i := x])"
      "length (obs_active (w_observed w')) = tally (\<lambda>y. ph_call y \<noteq> None) (st[i := x])"
      "unat (obs_nextID (w_observed w')) + tally ph_read (st[i := x]) \<le> w_tick w'"
    using t slots tick calls(1) tally_update [OF i', of ph_slot x] tally_update [OF i', of ph_read x]
      tally_update [OF i', of "\<lambda>y. ph_call y \<noteq> None" x]
    by (auto simp: tracked_def)
  moreover have "c \<in> fst ` set (obs_active (w_observed w'))"
    if "j < length ps" "ph_call (st[i := x] ! j) = Some c" for j c
  proof (cases "j = i")
    case True
    then show ?thesis using that i' calls(3) by simp
  next
    case False
    with that have "ph_call (st ! j) = Some c" by simp
    then have "c \<in> fst ` set (obs_active (w_observed w))" "ph_call (st ! i) \<noteq> Some c"
      using known [of j c] distinct [of j i] that(1) i False by auto
    then show ?thesis using calls(2) by (auto simp: in_mono)
  qed
  moreover have "ph_call (st[i := x] ! j) \<noteq> ph_call (st[i := x] ! k)"
    if "j < length ps" "k < length ps" "j \<noteq> k" "ph_call (st[i := x] ! j) \<noteq> None" for j k
  proof -
    have new: "ph_call x \<noteq> ph_call (st ! n)" if "n < length ps" "n \<noteq> i" "ph_call x \<noteq> None" for n
      using that known distinct i calls(3) by fastforce
    show ?thesis
      using that new distinct len by (metis nth_list_update_eq nth_list_update_neq)
  qed
  ultimately show ?thesis
    using t p slots(2) inv i' by (simp add: tracked_def nth_list_update)
qed

lemma length_delete_key:
  "distinct (map fst al) \<Longrightarrow> k \<in> fst ` set al \<Longrightarrow> length (AList.delete k al) + 1 = length al"
proof (induction al)
  case (Cons e al)
  then show ?case
    by (cases "fst e = k") (auto simp: delete_id image_iff)
qed simp

lemma tracked_begins:
  assumes t: "tracked u slots ps st w" and i: "i < length ps" "ps ! i = (r, BeginCall started k)"
    and b: "observed_begin started (w_observed w) = (c, l, ms)" and tick: "w_tick w < 2 ^ 64 - 1"
    and w': "w_observed w' = l" "w_slots w' = w_slots w" "w_tick w' = w_tick w"
  shows "tracked u slots (ps[i := (r, k c)]) (st[i := (st ! i)\<lparr>ph_read := False, ph_call := Some c\<rparr>]) w'"
proof -
  have d: "disciplined u False (BeginCall started k) (ph_slot (st ! i)) (ph_read (st ! i)) (ph_call (st ! i))"
    and inv: "obs_inv (w_observed w)" and slots: "w_slots w \<le> slots"
    using t i by (auto simp: tracked_def)
  have next_id: "obs_nextID (w_observed w) \<noteq> - 1"
    using t tick by (auto simp: tracked_def unsigned_minus_1_eq_mask mask_eq_exp_minus_1)
  have "obs_nextID l = obs_nextID (w_observed w) + 1"
    using b by (auto simp: observed_begin_def Let_def split: if_splits)
  then have "unat (obs_nextID l) = Suc (unat (obs_nextID (w_observed w)))"
    using next_id by (metis add.commute add_eq_0_iff2 unatSuc)
  with observed_begin_inv [OF inv b _ next_id] d slots w' show ?thesis
    by (intro tracked_moves [OF t i(1)]) auto
qed

lemma tracked_ends:
  assumes t: "tracked u slots ps st w" and i: "i < length ps" "ps ! i = (r, EndCall c completed failed k)"
    and e: "observed_done order c completed failed (w_observed w) = (l, ms)" "iteration_order order"
    and w': "w_observed w' = l" "w_slots w' = w_slots w" "w_tick w' = w_tick w"
  shows "tracked u slots (ps[i := (r, k)]) (st[i := (st ! i)\<lparr>ph_call := None\<rparr>]) w'"
proof -
  have d: "ph_call (st ! i) = Some c" "disciplined u False k (ph_slot (st ! i)) (ph_read (st ! i)) None"
    and inv: "obs_inv (w_observed w)" and slots: "w_slots w \<le> slots"
    and known: "c \<in> fst ` set (obs_active (w_observed w))"
    using t i by (fastforce simp: tracked_def)+
  have "obs_nextID l = obs_nextID (w_observed w)"
    using e by (auto simp: observed_done_def Let_def split: if_splits)
  moreover have "length (AList.delete c (obs_active (w_observed w))) + 1 = length (obs_active (w_observed w))"
    using inv known by (intro length_delete_key) (auto simp: obs_inv_def)
  ultimately show ?thesis
    using observed_done_inv [OF e(2) inv e(1)] d slots w'
    by (intro tracked_moves [OF t i(1)]) (auto simp: keys_delete_active)
qed

lemma tracked_act:
  assumes t: "tracked u (env_slots env) ps st w" and i: "i < length ps" "ps ! i = (r, p)"
    and act: "act ops env p w = (p', w')"
    and env: "iteration_order (env_order env)" "\<And>n. 0 < env_now env n"
    and tick: "w_tick w' < 2 ^ 64 - 1"
  shows "\<exists>x. tracked u (env_slots env) (ps[i := (r, p')]) (st[i := x]) w'"
proof -
  let ?x = "st ! i"
  have d: "disciplined u False p (ph_slot ?x) (ph_read ?x) (ph_call ?x)"
    and inv: "obs_inv (w_observed w)" and slots: "w_slots w \<le> env_slots env"
    and known: "\<And>c. ph_call ?x = Some c \<Longrightarrow> c \<in> fst ` set (obs_active (w_observed w))"
    using t i by (auto simp: tracked_def)
  note move = tracked_moves [OF t i(1), where p' = p' and w' = w' and r = r]
  have keep: ?thesis if "disciplined u False p' (ph_slot ?x) (ph_read ?x) (ph_call ?x)"
      "w_observed w' = w_observed w" "w_slots w' = w_slots w" "w_tick w \<le> w_tick w'"
    using that inv slots known by (intro exI [of _ ?x] move) auto
  show ?thesis
  proof (cases p)
    case (Now k)
    then show ?thesis
      using d act env inv slots known
      by (intro exI [of _ "?x\<lparr>ph_read := True\<rparr>"] move) (auto simp: w_advance_def)
  next
    case (BeginCall started k)
    obtain c l ms where b: "observed_begin started (w_observed w) = (c, l, ms)"
      by (metis surj_pair)
    then have p': "p' = k c" and w': "w_observed w' = l" "w_slots w' = w_slots w" "w_tick w' = w_tick w"
      using act by (auto simp: BeginCall)
    show ?thesis
      using tracked_begins [OF t i(1) i(2) [unfolded BeginCall] b tick [unfolded w'(3)] w'] p' by blast
  next
    case (EndCall c completed failed k)
    obtain l ms where e: "observed_done (env_order env) c completed failed (w_observed w) = (l, ms)"
      by (metis surj_pair)
    then have p': "p' = k" and w': "w_observed w' = l" "w_slots w' = w_slots w" "w_tick w' = w_tick w"
      using act by (auto simp: EndCall)
    show ?thesis
      using tracked_ends [OF t i(1) i(2) [unfolded EndCall] e env(1) w'] p' by blast
  next
    case (AcquireSlot k)
    show ?thesis
    proof (cases "w_slots w < env_slots env")
      case True
      with AcquireSlot d act inv known show ?thesis
        by (intro exI [of _ "?x\<lparr>ph_slot := True\<rparr>"] move) auto
    next
      case False
      with AcquireSlot d act inv slots known show ?thesis
        by (intro exI [of _ ?x] move) auto
    qed
  next
    case (ReleaseSlot k)
    have "0 < w_slots w"
      using t i d tally_update [of i st ph_slot idle] by (simp add: ReleaseSlot tracked_def idle_def)
    with ReleaseSlot d act inv slots known show ?thesis
      by (intro exI [of _ "?x\<lparr>ph_slot := False\<rparr>"] move) auto
  qed (rule keep; use d act in \<open>auto simp: w_advance_def split: option.splits prod.splits\<close>)+
qed

text \<open>Any number of steps of the system.\<close>

lemma act_tick: "act ops env p w = (p', w') \<Longrightarrow> w_tick w \<le> w_tick w'"
  by (cases p) (auto simp: w_advance_def split: prod.splits option.splits if_splits)

lemma sys_step_tick: "sys_step ops env outside handler (ps, w) (ps', w') \<Longrightarrow> w_tick w \<le> w_tick w'"
  by (erule sys_stepE) (auto dest: act_tick)

definition env_ok :: "environment \<Rightarrow> bool" where
  "env_ok env \<longleftrightarrow> iteration_order (env_order env) \<and> (\<forall>n. 0 < env_now env n)"

lemma tracked_step:
  assumes "sys_step ops env outside handler (ps, w) (ps', w')" "tracked u (env_slots env) ps st w"
    and "\<And>r. clean u False (handler r)" "env_ok env" "w_tick w' < 2 ^ 64 - 1"
  shows "\<exists>st'. tracked u (env_slots env) ps' st' w'"
  using assms(1)
proof (cases rule: sys_stepE)
  case (arrives r)
  then show ?thesis using tracked_arrives [OF assms(2,3)] by blast
next
  case (acts i r p p')
  with tracked_act [OF assms(2)] assms(4,5) show ?thesis
    unfolding env_ok_def by blast
next
  case (outside l)
  with assms(2) show ?thesis by (auto simp: tracked_def)
qed

lemma tracked_steps:
  assumes "sys_steps ops env outside handler (ps, w) (ps', w')" "tracked u (env_slots env) ps st w"
    and "\<And>r. clean u False (handler r)" "env_ok env" "w_tick w' < 2 ^ 64 - 1"
  shows "\<exists>st'. tracked u (env_slots env) ps' st' w'"
  using assms(1,5)
proof (induction ps' w' rule: rtranclp_induct2)
  case refl
  then show ?case using assms(2) by blast
next
  case (step ps1 w1 ps2 w2)
  then show ?case
    using tracked_step [OF step.hyps(2) _ assms(3,4)] sys_step_tick [OF step.hyps(2)] by fastforce
qed

text \<open>When every request has finished, nothing is held.\<close>

lemma tracked_finished:
  assumes t: "tracked u slots ps st w" and "\<And>r p. (r, p) \<in> set ps \<Longrightarrow> \<exists>x. p = Return x"
  shows "w_slots w = 0 \<and> obs_active (w_observed w) = []"
proof -
  have "\<not> ph_slot x \<and> ph_call x = None" if "x \<in> set st" for x
  proof -
    from that t obtain i where i: "i < length ps" "x = st ! i"
      by (auto simp: in_set_conv_nth tracked_def)
    with assms(2) [of "fst (ps ! i)" "snd (ps ! i)"] obtain y where "snd (ps ! i) = Return y"
      by auto
    with t i show ?thesis by (fastforce simp: tracked_def)
  qed
  then have "tally ph_slot st = 0" "tally (\<lambda>x. ph_call x \<noteq> None) st = 0"
    by (simp_all add: tally_def)
  with t show ?thesis by (simp add: tracked_def)
qed

lemma serves_tracked:
  assumes h: "serves sdk s ops view linv env outside w0 ps w" and env: "env_ok env"
    and tick: "w_tick w < 2 ^ 64 - 1"
  shows "\<exists>st. tracked False (env_slots env) ps st w"
proof -
  obtain stall n m l k where start: "sys_steps ops (env\<lparr>env_slots := k\<rparr>) outside
      (\<lambda>_ :: unit. EnsureSystemAccounts sdk s) ([], initial_world stall n m l) ([((), Return (Inr ()))], w0)"
    using h unfolding serves_def starts_def by blast
  have steps: "sys_steps ops env outside (serveHTTP sdk s) ([], w0) (ps, w)"
    using h by (simp add: serves_def)
  have "w_tick w0 \<le> w_tick w"
    using steps by (induction rule: rtranclp_induct2) (auto dest: sys_step_tick)
  with tracked_steps [OF start, of True "[]"] tracked_new env tick obtain st where
    "tracked True k [((), Return (Inr ()) :: (Error + unit) prog)] st w0"
    by (fastforce simp: env_ok_def EnsureSystemAccounts_def intro: clean_rules)
  moreover from tracked_finished [OF this] have "w_slots w0 = 0 \<and> obs_active (w_observed w0) = []"
    by simp
  ultimately have "tracked False (env_slots env) ([] :: (HttpRequest \<times> HttpResponse prog) list) [] w0"
    by (simp add: tracked_def tally_def)
  from tracked_steps [OF steps this clean_serveHTTP env tick] show ?thesis .
qed

lemma length_filter_tally:
  assumes "length xs = length st" "\<And>i. i < length xs \<Longrightarrow> P (xs ! i) \<Longrightarrow> Q (st ! i)"
  shows "length (filter P xs) \<le> tally Q st"
  using assms
proof (induction xs st rule: list_induct2)
  case (Cons x xs y st)
  have "Q (st ! i)" if "i < length xs" "P (xs ! i)" for i
    using Cons.prems [of "Suc i"] that by simp
  then show ?case
    using Cons.IH Cons.prems [of 0] by force
qed simp

lemma tracked_calls:
  assumes "tracked False slots ps st w"
  shows "length (filter (\<lambda>(r, p). in_ledger_call p) ps) \<le> w_slots w"
    and "length (filter (\<lambda>(r, p). in_ledger_call p) ps) \<le> length (obs_active (w_observed w))"
proof -
  have len: "length ps = length st" using assms by (simp add: tracked_def)
  have "ph_slot (st ! i) \<and> ph_call (st ! i) \<noteq> None"
    if "i < length ps" "case ps ! i of (r, p) \<Rightarrow> in_ledger_call p" for i
  proof -
    have "disciplined False False (snd (ps ! i)) (ph_slot (st ! i)) (ph_read (st ! i)) (ph_call (st ! i))"
      using assms that(1) by (simp add: tracked_def)
    with that(2) show ?thesis
      by (auto elim!: in_ledger_call.elims simp: case_prod_beta)
  qed
  with length_filter_tally [OF len, of "\<lambda>(r, p). in_ledger_call p" ph_slot]
    length_filter_tally [OF len, of "\<lambda>(r, p). in_ledger_call p" "\<lambda>x. ph_call x \<noteq> None"] assms
  show "length (filter (\<lambda>(r, p). in_ledger_call p) ps) \<le> w_slots w"
    "length (filter (\<lambda>(r, p). in_ledger_call p) ps) \<le> length (obs_active (w_observed w))"
    by (simp_all add: tracked_def)
qed

end
