(* ===== verification/Reference_SDK.thy ===== *)
theory Reference_SDK
  imports TigerBeetle_SDK
begin

text \<open>
  A concrete client library: 128-bit numbers are words, their strings are lower-case hexadecimal
  without leading zeros, and flags are bits.  It stands in for \<open>tigerbeetle-go\<close> where a theorem is
  applied to a concrete input, and its interpretation shows that the laws of \<open>tb_sdk\<close> are
  consistent.
\<close>

section \<open>Hexadecimal numbers\<close>

definition hex_digits :: string where
  "hex_digits = ''0123456789abcdef''"

fun hex_print :: "nat \<Rightarrow> string" where
  "hex_print n =
     (if n < 16 then [hex_digits ! n] else hex_print (n div 16) @ [hex_digits ! (n mod 16)])"

declare hex_print.simps [simp del]

definition hex_value :: "char \<Rightarrow> nat option" where
  "hex_value c = map_of (zip hex_digits [0..<16] @ zip ''ABCDEF'' [10..<16]) c"

fun hex_parse :: "string \<Rightarrow> nat \<Rightarrow> nat option" where
  "hex_parse [] acc = Some acc"
| "hex_parse (c # cs) acc =
     (case hex_value c of None \<Rightarrow> None | Some d \<Rightarrow> hex_parse cs (16 * acc + d))"

definition hex_read :: "string \<Rightarrow> Error + uint128" where
  "hex_read v =
     (if v = [] \<or> 32 < length v then Inl (NewError ''invalid hex length'')
      else case hex_parse v 0 of
        None \<Rightarrow> Inl (NewError ''invalid hex digit'')
      | Some n \<Rightarrow> Inr (of_nat n))"

section \<open>Flags and statuses\<close>

definition account_flags :: "AccountFlags \<Rightarrow> uint16" where
  "account_flags f = (if DebitsMustNotExceedCredits f then 2 else 0) +
     (if CreditsMustNotExceedDebits f then 4 else 0)"

definition account_flags_of :: "uint16 \<Rightarrow> AccountFlags" where
  "account_flags_of w = \<lparr>DebitsMustNotExceedCredits = bit w 1, CreditsMustNotExceedDebits = bit w 2\<rparr>"

definition transfer_flags :: "TransferFlags \<Rightarrow> uint16" where
  "transfer_flags f = (if Pending f then 2 else 0)"

definition transfer_flags_of :: "uint16 \<Rightarrow> TransferFlags" where
  "transfer_flags_of w = \<lparr>Pending = bit w 1\<rparr>"

definition account_status_name :: "CreateAccountStatus \<Rightarrow> string" where
  "account_status_name st =
     (if st = AccountCreated then ''created'' else if st = AccountExists then ''exists''
      else ''rejected'')"

definition transfer_status_name :: "CreateTransferStatus \<Rightarrow> string" where
  "transfer_status_name st =
     (if st = TransferCreated then ''created'' else if st = TransferExists then ''exists''
      else if st = TransferExceedsCredits then ''exceeds_credits''
      else if st = TransferIDAlreadyFailed then ''id_already_failed''
      else ''rejected'')"

definition reference_sdk :: SDK where
  "reference_sdk =
     \<lparr>ToUint128 = ucast, Uint128_Uint64 = (\<lambda>v. (ucast v, ucast (drop_bit 64 v))),
      Uint128_BigInt = uint,
      Uint128_Bytes = (\<lambda>v. map (\<lambda>i. ucast (drop_bit (8 * i) v)) [0..<16]),
      Uint128_String = (\<lambda>v. hex_print (unat v)), HexStringToUint128 = hex_read,
      AccountFlags_ToUint16 = account_flags, Account_AccountFlags = account_flags_of,
      TransferFlags_ToUint16 = transfer_flags, Transfer_TransferFlags = transfer_flags_of,
      CreateAccountStatus_String = account_status_name,
      CreateTransferStatus_String = transfer_status_name\<rparr>"

section \<open>The laws\<close>

lemma hex_value_digit: "n < 16 \<Longrightarrow> hex_value (hex_digits ! n) = Some n"
proof -
  have "\<forall>n \<in> set [0..<16]. hex_value (hex_digits ! n) = Some n" by code_simp
  then show "n < 16 \<Longrightarrow> hex_value (hex_digits ! n) = Some n" by simp
qed

lemma hex_parse_append:
  "hex_parse (xs @ ys) acc = Option.bind (hex_parse xs acc) (hex_parse ys)"
  by (induction xs arbitrary: acc) (auto split: option.splits)

lemma hex_parse_print: "hex_parse (hex_print n) 0 = Some n"
proof (induction n rule: hex_print.induct)
  case (1 n)
  show ?case
  proof (cases "n < 16")
    case True
    then show ?thesis
      by (subst hex_print.simps) (simp add: hex_value_digit)
  next
    case False
    then show ?thesis
      using 1 by (subst hex_print.simps) (simp add: hex_parse_append hex_value_digit)
  qed
qed

lemma length_hex_print: "0 < k \<Longrightarrow> n < 16 ^ k \<Longrightarrow> length (hex_print n) \<le> k"
proof (induction k arbitrary: n)
  case (Suc k)
  show ?case
  proof (cases "n < 16")
    case True
    then show ?thesis by (subst hex_print.simps) simp
  next
    case False
    have "k \<noteq> 0" using False Suc.prems by (cases k) auto
    moreover have "n div 16 < 16 ^ k"
      using Suc.prems(2) by (simp add: less_mult_imp_div_less mult.commute)
    ultimately show ?thesis
      using Suc.IH [of "n div 16"] False by (subst hex_print.simps) simp
  qed
qed simp

lemma hex_read_print: "hex_read (hex_print (unat v)) = Inr v"
proof -
  have "unat v < 16 ^ 32"
    using unsigned_less [of v, where ?'a = nat] by simp
  then have "length (hex_print (unat v)) \<le> 32"
    by (rule length_hex_print [rotated]) simp
  moreover have "hex_print (unat v) \<noteq> []"
    by (subst hex_print.simps) simp
  ultimately show ?thesis
    by (simp add: hex_read_def hex_parse_print)
qed

interpretation ref: tb_sdk reference_sdk
  by unfold_locales
    (auto simp: reference_sdk_def hex_read_print account_flags_def account_flags_of_def
      transfer_flags_def transfer_flags_of_def bit_simps)

end
