(* ===== verification/Fake_Ledger.thy ===== *)
theory Fake_Ledger
  imports Ledger_Contract Reference_SDK
begin

text \<open>
  The deterministic ledger the repository's tests run the service on (\<open>fakeLedger\<close> in
  \<open>internal/service/service_test.go\<close>), and a concrete client library.  The fake ledger meets the
  contract the service relies on, for every client library with the documented laws; the concrete
  library satisfies those laws.  Together they show that the hypotheses of the theorems can hold,
  and they run the examples.
\<close>

section \<open>The fake ledger\<close>

text \<open>The maps are keyed by \<open>ID.String()\<close>, as in the source.\<close>

record fakeLedger =
  fake_accounts :: "string \<Rightarrow> Account option"
  fake_transfers :: "string \<Rightarrow> Transfer option"
  fake_failed :: "string \<Rightarrow> bool"
  fake_timestamp :: uint64
  fake_failAfterCommit :: bool

definition newFakeLedger :: "uint64 \<Rightarrow> fakeLedger" where
  "newFakeLedger now =
     \<lparr>fake_accounts = (\<lambda>_. None), fake_transfers = (\<lambda>_. None), fake_failed = (\<lambda>_. False),
      fake_timestamp = now, fake_failAfterCommit = False\<rparr>"

definition fake_CreateAccount ::
  "SDK \<Rightarrow> Account \<Rightarrow> fakeLedger \<Rightarrow> (Error + CreateAccountResult) \<times> fakeLedger" where
  "fake_CreateAccount sdk account f =
     (let answer = (\<lambda>st ts. Inr \<lparr>AccountResult_Status = st, AccountResult_Timestamp = ts\<rparr>)
      in case fake_accounts f (Uint128_String sdk (Account_ID account)) of
        Some existing \<Rightarrow>
          (if Account_Flags existing \<noteq> Account_Flags account
           then answer AccountExistsWithDifferentFlags 0
           else if Account_UserData128 existing \<noteq> Account_UserData128 account
           then answer AccountExistsWithDifferentUserData128 0
           else if Account_UserData64 existing \<noteq> Account_UserData64 account
           then answer AccountExistsWithDifferentUserData64 0
           else if Account_UserData32 existing \<noteq> Account_UserData32 account
           then answer AccountExistsWithDifferentUserData32 0
           else if Account_Ledger existing \<noteq> Account_Ledger account
           then answer AccountExistsWithDifferentLedger 0
           else if Account_Code existing \<noteq> Account_Code account
           then answer AccountExistsWithDifferentCode 0
           else answer AccountExists (Account_Timestamp existing), f)
      | None \<Rightarrow>
          let ts = fake_timestamp f + 1 in
          (answer AccountCreated ts,
           f\<lparr>fake_timestamp := ts,
             fake_accounts := (fake_accounts f)(Uint128_String sdk (Account_ID account) \<mapsto>
               account\<lparr>Account_Timestamp := ts\<rparr>)\<rparr>))"

text \<open>The comparison of \<open>CreateTransfer\<close> with an existing transfer of the same ID.\<close>

definition fake_compare :: "Transfer \<Rightarrow> Transfer \<Rightarrow> CreateTransferResult" where
  "fake_compare existing transfer =
     (let answer = (\<lambda>st ts. \<lparr>TransferResult_Status = st, TransferResult_Timestamp = ts\<rparr>) in
      if Transfer_Flags existing \<noteq> Transfer_Flags transfer
      then answer TransferExistsWithDifferentFlags 0
      else if Transfer_Timeout existing \<noteq> Transfer_Timeout transfer
      then answer TransferExistsWithDifferentTimeout 0
      else if Transfer_DebitAccountID existing \<noteq> Transfer_DebitAccountID transfer
      then answer TransferExistsWithDifferentDebitAccountID 0
      else if Transfer_CreditAccountID existing \<noteq> Transfer_CreditAccountID transfer
      then answer TransferExistsWithDifferentCreditAccountID 0
      else if Transfer_Amount existing \<noteq> Transfer_Amount transfer
      then answer TransferExistsWithDifferentAmount 0
      else if Transfer_UserData128 existing \<noteq> Transfer_UserData128 transfer
      then answer TransferExistsWithDifferentUserData128 0
      else if Transfer_UserData64 existing \<noteq> Transfer_UserData64 transfer
      then answer TransferExistsWithDifferentUserData64 0
      else if Transfer_UserData32 existing \<noteq> Transfer_UserData32 transfer
      then answer TransferExistsWithDifferentUserData32 0
      else if Transfer_PendingID existing \<noteq> Transfer_PendingID transfer
      then answer TransferExistsWithDifferentPendingID 0
      else if Transfer_Ledger existing \<noteq> Transfer_Ledger transfer
      then answer TransferExistsWithDifferentLedger 0
      else if Transfer_Code existing \<noteq> Transfer_Code transfer
      then answer TransferExistsWithDifferentCode 0
      else answer TransferExists (Transfer_Timestamp existing))"

text \<open>
  The balances: the source reads the low halves of the 128-bit balances and adds them as 64-bit
  numbers.  \<open>fake_book\<close> gives the two updated accounts, \<open>fake_commit\<close> stores them and the transfer,
  \<open>fake_apply\<close> is the part of \<open>CreateTransfer\<close> after both accounts were found.
\<close>

definition low64 :: "SDK \<Rightarrow> uint128 \<Rightarrow> uint64" where
  "low64 sdk v = fst (Uint128_Uint64 sdk v)"

definition fake_book :: "SDK \<Rightarrow> Transfer \<Rightarrow> Account \<Rightarrow> Account \<Rightarrow> Account \<times> Account" where
  "fake_book sdk transfer debit credit =
     (let amount = low64 sdk (Transfer_Amount transfer) in
      if Pending (Transfer_TransferFlags sdk (Transfer_Flags transfer)) then
        (debit\<lparr>Account_DebitsPending :=
           ToUint128 sdk (low64 sdk (Account_DebitsPending debit) + amount)\<rparr>,
         credit\<lparr>Account_CreditsPending :=
           ToUint128 sdk (low64 sdk (Account_CreditsPending credit) + amount)\<rparr>)
      else
        (debit\<lparr>Account_DebitsPosted :=
           ToUint128 sdk (low64 sdk (Account_DebitsPosted debit) + amount)\<rparr>,
         credit\<lparr>Account_CreditsPosted :=
           ToUint128 sdk (low64 sdk (Account_CreditsPosted credit) + amount)\<rparr>))"

definition fake_commit ::
  "SDK \<Rightarrow> Transfer \<Rightarrow> Account \<times> Account \<Rightarrow> fakeLedger \<Rightarrow> (Error + CreateTransferResult) \<times> fakeLedger" where
  "fake_commit sdk transfer booked f =
     (let ts = fake_timestamp f + 1;
          f' = f\<lparr>fake_timestamp := ts,
            fake_accounts := (fake_accounts f)
              (Uint128_String sdk (Account_ID (fst booked)) \<mapsto> fst booked,
               Uint128_String sdk (Account_ID (snd booked)) \<mapsto> snd booked),
            fake_transfers := (fake_transfers f)
              (Uint128_String sdk (Transfer_ID transfer) \<mapsto> transfer\<lparr>Transfer_Timestamp := ts\<rparr>),
            fake_failAfterCommit := False\<rparr>
      in if fake_failAfterCommit f then (Inl (NewError ''simulated response loss''), f')
         else (Inr \<lparr>TransferResult_Status = TransferCreated, TransferResult_Timestamp = ts\<rparr>, f'))"

definition fake_apply ::
  "SDK \<Rightarrow> Transfer \<Rightarrow> Account \<Rightarrow> Account \<Rightarrow> fakeLedger \<Rightarrow> (Error + CreateTransferResult) \<times> fakeLedger" where
  "fake_apply sdk transfer debit credit f =
     (let amount = low64 sdk (Transfer_Amount transfer);
          reject = (\<lambda>st. Inr \<lparr>TransferResult_Status = st, TransferResult_Timestamp = 0\<rparr>);
          failed = f\<lparr>fake_failed := (fake_failed f)(Uint128_String sdk (Transfer_ID transfer) := True)\<rparr>
      in if snd (Uint128_Uint64 sdk (Transfer_Amount transfer)) \<noteq> 0
         then (reject TransferOverflowsDebits, f)
         else if DebitsMustNotExceedCredits (Account_AccountFlags sdk (Account_Flags debit)) \<and>
                 low64 sdk (Account_CreditsPosted debit) <
                 low64 sdk (Account_DebitsPending debit) + low64 sdk (Account_DebitsPosted debit) + amount
         then (reject TransferExceedsCredits, failed)
         else if CreditsMustNotExceedDebits (Account_AccountFlags sdk (Account_Flags credit)) \<and>
                 low64 sdk (Account_DebitsPosted credit) <
                 low64 sdk (Account_CreditsPending credit) + low64 sdk (Account_CreditsPosted credit) + amount
         then (reject TransferExceedsDebits, failed)
         else fake_commit sdk transfer (fake_book sdk transfer debit credit) f)"

definition fake_CreateTransfer ::
  "SDK \<Rightarrow> Transfer \<Rightarrow> fakeLedger \<Rightarrow> (Error + CreateTransferResult) \<times> fakeLedger" where
  "fake_CreateTransfer sdk transfer f =
     (let key = Uint128_String sdk (Transfer_ID transfer);
          reject = (\<lambda>st. Inr \<lparr>TransferResult_Status = st, TransferResult_Timestamp = 0\<rparr>);
          failed = f\<lparr>fake_failed := (fake_failed f)(key := True)\<rparr>
      in if fake_failed f key then (reject TransferIDAlreadyFailed, f)
         else case fake_transfers f key of
           Some existing \<Rightarrow> (Inr (fake_compare existing transfer), f)
         | None \<Rightarrow>
             (case fake_accounts f (Uint128_String sdk (Transfer_DebitAccountID transfer)) of
                None \<Rightarrow> (reject TransferDebitAccountNotFound, failed)
              | Some debit \<Rightarrow>
                  (case fake_accounts f (Uint128_String sdk (Transfer_CreditAccountID transfer)) of
                     None \<Rightarrow> (reject TransferCreditAccountNotFound, failed)
                   | Some credit \<Rightarrow> fake_apply sdk transfer debit credit f)))"

definition fake_LookupAccount ::
  "SDK \<Rightarrow> uint128 \<Rightarrow> fakeLedger \<Rightarrow> (Error + Account \<times> bool) \<times> fakeLedger" where
  "fake_LookupAccount sdk i f =
     (case fake_accounts f (Uint128_String sdk i) of
        None \<Rightarrow> (Inr (zeroAccount, False), f)
      | Some a \<Rightarrow> (Inr (a, True), f))"

definition fake_LookupTransfer ::
  "SDK \<Rightarrow> uint128 \<Rightarrow> fakeLedger \<Rightarrow> (Error + Transfer \<times> bool) \<times> fakeLedger" where
  "fake_LookupTransfer sdk i f =
     (case fake_transfers f (Uint128_String sdk i) of
        None \<Rightarrow> (Inr (zeroTransfer, False), f)
      | Some t \<Rightarrow> (Inr (t, True), f))"

definition fake_ops :: "SDK \<Rightarrow> fakeLedger Ledger" where
  "fake_ops sdk =
     \<lparr>Ledger_CreateAccount = fake_CreateAccount sdk, Ledger_CreateTransfer = fake_CreateTransfer sdk,
      Ledger_LookupAccount = fake_LookupAccount sdk, Ledger_LookupTransfer = fake_LookupTransfer sdk\<rparr>"

definition fake_view :: "SDK \<Rightarrow> fakeLedger \<Rightarrow> ledger_view" where
  "fake_view sdk f =
     \<lparr>view_accounts = (\<lambda>i. map_option account_meta (fake_accounts f (Uint128_String sdk i))),
      view_transfers = (\<lambda>i. fake_transfers f (Uint128_String sdk i)),
      view_failed = {i. fake_failed f (Uint128_String sdk i)}\<rparr>"

definition fake_inv :: "SDK \<Rightarrow> fakeLedger \<Rightarrow> bool" where
  "fake_inv sdk f \<longleftrightarrow>
     (\<forall>i a. fake_accounts f (Uint128_String sdk i) = Some a \<longrightarrow> Account_ID a = i) \<and>
     (\<forall>i t. fake_transfers f (Uint128_String sdk i) = Some t \<longrightarrow> Transfer_ID t = i) \<and>
     (\<forall>i. fake_failed f (Uint128_String sdk i) \<longrightarrow> fake_transfers f (Uint128_String sdk i) = None)"

section \<open>The fake ledger meets the contract\<close>

lemma fake_inv_new: "fake_inv sdk (newFakeLedger now)"
  by (simp add: fake_inv_def newFakeLedger_def)

lemma fake_view_ok: "fake_inv sdk f \<Longrightarrow> view_ok (fake_view sdk f)"
  by (auto simp: fake_inv_def fake_view_def view_ok_def)

lemma fake_compare_law:
  assumes "Transfer_ID existing = Transfer_ID transfer"
  shows "if same_payload existing transfer
    then fake_compare existing transfer =
      \<lparr>TransferResult_Status = TransferExists, TransferResult_Timestamp = Transfer_Timestamp existing\<rparr>
    else transfer_mismatch (TransferResult_Status (fake_compare existing transfer)) existing transfer"
  using assms by (cases existing; cases transfer) (simp add: fake_compare_def same_payload_def Let_def)

context tb_sdk
begin

lemma fake_CreateAccount_law:
  assumes inv: "fake_inv sdk f" and step: "fake_CreateAccount sdk a f = (r, f')"
  shows "fake_inv sdk f' \<and> account_law a r (fake_view sdk f) (fake_view sdk f')"
proof (cases "fake_accounts f (Uint128_String sdk (Account_ID a))")
  case None
  then have f': "f' = f\<lparr>fake_timestamp := fake_timestamp f + 1,
      fake_accounts := (fake_accounts f)(Uint128_String sdk (Account_ID a) \<mapsto>
        a\<lparr>Account_Timestamp := fake_timestamp f + 1\<rparr>)\<rparr>"
    and r: "r = Inr \<lparr>AccountResult_Status = AccountCreated,
      AccountResult_Timestamp = fake_timestamp f + 1\<rparr>"
    using step by (auto simp: fake_CreateAccount_def Let_def)
  have "fake_view sdk f' = add_account a (fake_timestamp f + 1) (fake_view sdk f)"
    by (auto simp: f' fake_view_def add_account_def account_meta_def fun_eq_iff)
  then show ?thesis
    using inv None by (auto simp: account_law_def r fake_view_def fake_inv_def f')
next
  case (Some a0)
  then have "Account_ID a0 = Account_ID a"
    using inv by (simp add: fake_inv_def)
  then show ?thesis
    using inv step Some
    by (cases a; cases a0) (auto simp: fake_CreateAccount_def Let_def account_law_def fake_view_def
        same_account_def account_meta_def split: if_splits)
qed

lemma fake_lookup_law:
  assumes inv: "fake_inv sdk f"
  shows "fake_LookupAccount sdk i f = (ra, f1) \<Longrightarrow> fake_inv sdk f1 \<and>
      fake_view sdk f1 = fake_view sdk f \<and> account_lookup_law i ra (fake_view sdk f)"
    and "fake_LookupTransfer sdk i f = (rt, f2) \<Longrightarrow> fake_inv sdk f2 \<and>
      fake_view sdk f2 = fake_view sdk f \<and> transfer_lookup_law i rt (fake_view sdk f)"
  using inv by (auto simp: fake_LookupAccount_def fake_LookupTransfer_def account_lookup_law_def
      transfer_lookup_law_def fake_view_def split: option.splits)

lemma fake_book_meta:
  "account_meta (fst (fake_book sdk t debit credit)) = account_meta debit"
  "account_meta (snd (fake_book sdk t debit credit)) = account_meta credit"
  by (simp_all add: fake_book_def account_meta_def Let_def)

lemma fake_new_law:
  assumes "\<not> fake_failed f (Uint128_String sdk (Transfer_ID t))"
    "fake_transfers f (Uint128_String sdk (Transfer_ID t)) = None"
    and "case r of
        Inl e \<Rightarrow> foreign_error e \<and> (\<exists>ts. K' = add_transfer t ts (fake_view sdk f))
      | Inr res \<Rightarrow>
          if TransferResult_Status res = TransferCreated
          then K' = add_transfer t (TransferResult_Timestamp res) (fake_view sdk f)
          else if transient_failure (TransferResult_Status res)
          then K' = add_failed (Transfer_ID t) (fake_view sdk f)
          else TransferResult_Status res = TransferOverflowsDebits \<and> K' = fake_view sdk f"
  shows "transfer_law t r (fake_view sdk f) K'"
proof -
  have "view_transfers (fake_view sdk f) (Transfer_ID t) = None"
      "Transfer_ID t \<notin> view_failed (fake_view sdk f)"
    using assms(1,2) by (simp_all add: fake_view_def)
  with assms(3) show ?thesis
    by (auto simp: transfer_law_def split: sum.splits if_splits)
qed

lemma fake_commit_law:
  assumes inv: "fake_inv sdk f" and new: "\<not> fake_failed f (Uint128_String sdk (Transfer_ID t))"
      "fake_transfers f (Uint128_String sdk (Transfer_ID t)) = None"
    and debit: "fake_accounts f (Uint128_String sdk d) = Some debit"
    and credit: "fake_accounts f (Uint128_String sdk c) = Some credit"
    and step: "fake_commit sdk t (fake_book sdk t debit credit) f = (r, f')"
  shows "fake_inv sdk f' \<and> transfer_law t r (fake_view sdk f) (fake_view sdk f')"
proof -
  let ?b = "fake_book sdk t debit credit" and ?ts = "fake_timestamp f + 1"
  have ids: "Account_ID (fst ?b) = d" "Account_ID (snd ?b) = c"
    using inv debit credit fake_book_meta account_meta_simps(1) by (metis fake_inv_def)+
  have f': "f' = f\<lparr>fake_timestamp := ?ts,
      fake_accounts := (fake_accounts f)(Uint128_String sdk d \<mapsto> fst ?b, Uint128_String sdk c \<mapsto> snd ?b),
      fake_transfers := (fake_transfers f)
        (Uint128_String sdk (Transfer_ID t) \<mapsto> t\<lparr>Transfer_Timestamp := ?ts\<rparr>),
      fake_failAfterCommit := False\<rparr>"
    using step by (auto simp: fake_commit_def Let_def ids split: if_splits)
  have view: "fake_view sdk f' = add_transfer t ?ts (fake_view sdk f)"
    using debit credit by (auto simp: f' fake_view_def add_transfer_def fun_eq_iff fake_book_meta)
  have r: "r = Inl (NewError ''simulated response loss'') \<or>
      r = Inr \<lparr>TransferResult_Status = TransferCreated, TransferResult_Timestamp = ?ts\<rparr>"
    using step by (auto simp: fake_commit_def Let_def split: if_splits)
  have "transfer_law t r (fake_view sdk f) (fake_view sdk f')"
    by (rule fake_new_law [OF new]) (use r view in \<open>auto simp: foreign_error_def\<close>)
  moreover have "fake_inv sdk f'"
    using inv new ids by (auto simp: f' fake_inv_def)
  ultimately show ?thesis by blast
qed

lemma fake_fail_law:
  assumes inv: "fake_inv sdk f" and new: "\<not> fake_failed f (Uint128_String sdk (Transfer_ID t))"
      "fake_transfers f (Uint128_String sdk (Transfer_ID t)) = None"
    and f': "f' = f\<lparr>fake_failed := (fake_failed f)(Uint128_String sdk (Transfer_ID t) := True)\<rparr>"
    and st: "transient_failure st"
  shows "fake_inv sdk f' \<and> transfer_law t
    (Inr \<lparr>TransferResult_Status = st, TransferResult_Timestamp = 0\<rparr>) (fake_view sdk f) (fake_view sdk f')"
proof -
  have "fake_view sdk f' = add_failed (Transfer_ID t) (fake_view sdk f)"
    by (auto simp: f' fake_view_def add_failed_def)
  then have "transfer_law t (Inr \<lparr>TransferResult_Status = st, TransferResult_Timestamp = 0\<rparr>)
      (fake_view sdk f) (fake_view sdk f')"
    by (intro fake_new_law [OF new]) (use st in \<open>auto simp: transient_failure_def\<close>)
  moreover have "fake_inv sdk f'"
    using inv new by (auto simp: f' fake_inv_def)
  ultimately show ?thesis by blast
qed

lemma fake_apply_law:
  assumes "fake_inv sdk f" "\<not> fake_failed f (Uint128_String sdk (Transfer_ID t))"
      "fake_transfers f (Uint128_String sdk (Transfer_ID t)) = None"
    and "fake_accounts f (Uint128_String sdk d) = Some debit"
    and "fake_accounts f (Uint128_String sdk c) = Some credit"
    and step: "fake_apply sdk t debit credit f = (r, f')"
  shows "fake_inv sdk f' \<and> transfer_law t r (fake_view sdk f) (fake_view sdk f')"
proof -
  have "transfer_law t (Inr \<lparr>TransferResult_Status = TransferOverflowsDebits, TransferResult_Timestamp = 0\<rparr>)
      (fake_view sdk f) (fake_view sdk f)"
    by (rule fake_new_law [OF assms(2,3)]) (simp add: transient_failure_def)
  then show ?thesis
    using assms(1) step fake_commit_law [OF assms(1-5), of r f'] fake_fail_law [OF assms(1-3), of f']
    by (auto simp: fake_apply_def Let_def transient_failure_def split: if_splits)
qed

lemma fake_CreateTransfer_law:
  assumes inv: "fake_inv sdk f" and step: "fake_CreateTransfer sdk t f = (r, f')"
  shows "fake_inv sdk f' \<and> transfer_law t r (fake_view sdk f) (fake_view sdk f')"
proof -
  let ?key = "Uint128_String sdk (Transfer_ID t)"
  consider (failed) "fake_failed f ?key"
    | (exists) t0 where "\<not> fake_failed f ?key" "fake_transfers f ?key = Some t0"
    | (new) "\<not> fake_failed f ?key" "fake_transfers f ?key = None"
    by fastforce
  then show ?thesis
  proof cases
    case failed
    then have "fake_transfers f ?key = None"
      using inv by (simp add: fake_inv_def)
    with failed step inv show ?thesis
      by (auto simp: fake_CreateTransfer_def Let_def transfer_law_def fake_view_def)
  next
    case exists
    then have "Transfer_ID t0 = Transfer_ID t"
      using inv by (simp add: fake_inv_def)
    with exists step inv fake_compare_law [of t0 t] show ?thesis
      by (auto simp: fake_CreateTransfer_def Let_def transfer_law_def fake_view_def split: if_splits)
  next
    case new
    then show ?thesis
      using step fake_fail_law [OF inv new] fake_apply_law [OF inv new]
      by (auto simp: fake_CreateTransfer_def Let_def transient_failure_def split: option.splits)
  qed
qed

end

text \<open>Every client library with the documented laws makes the fake ledger an instance.\<close>

sublocale tb_sdk \<subseteq> fake: ledger_contract "fake_ops sdk" "fake_view sdk" "fake_inv sdk"
  by unfold_locales (auto simp: fake_ops_def fake_view_ok dest: fake_CreateAccount_law
      fake_CreateTransfer_law fake_lookup_law)

context tb_sdk
begin

lemma fake_contract: "ledger_contract (fake_ops sdk) (fake_view sdk) (fake_inv sdk)"
  by (rule fake.ledger_contract_axioms)

end

end
