(* ===== verification/Example_Run.thy ===== *)
theory Example_Run
  imports Resource_Use Fake_Ledger
begin

text \<open>
  A concrete service on the fake ledger of \<open>service_test.go\<close>, with four accounts.  It serves a
  top-up and its retry, a withdrawal that fails and its retry and a top-up that reuses an ID; an
  allocation to a card; an authorization and its increment; and the creation of a card account.
  The kernel computes every response by rewriting.  The theorems about the running service are
  applied to these runs.
\<close>

section \<open>The setting\<close>

definition example_service :: Service where
  "example_service =
     \<lparr>Service_ledgerID = 1, Service_authorizationTimeout = 3600 * second,
      Service_riskDelay = 200 * millisecond, Service_riskLimitCents = 100000,
      Service_metrics = False\<rparr>"

text \<open>A clock that starts two microseconds after the Unix epoch and advances at every reading.\<close>

definition example_env :: environment where
  "example_env =
     \<lparr>env_now = (\<lambda>n. 62135596800000002000 + int n), env_ctx = (\<lambda>_. None), env_order = (\<lambda>es. es),
      env_slots = 8\<rparr>"

definition example_account :: "uint128 \<Rightarrow> uint16 \<Rightarrow> uint16 \<Rightarrow> uint128 \<Rightarrow> uint128 \<Rightarrow> uint128 \<Rightarrow> Account" where
  "example_account i code flags parent debits credits =
     zeroAccount\<lparr>Account_ID := i, Account_Ledger := 1, Account_Code := code,
       Account_UserData128 := parent, Account_Timestamp := 7, Account_Flags := flags,
       Account_DebitsPosted := debits, Account_CreditsPosted := credits\<rparr>"

definition example_ledger :: fakeLedger where
  "example_ledger = (newFakeLedger 1000)\<lparr>fake_accounts :=
     [''1'' \<mapsto> example_account 1 1001 4 0 80000 0, ''2'' \<mapsto> example_account 2 2003 2 0 0 0,
      ''a0'' \<mapsto> example_account 0xa0 2001 2 0 0 50000,
      ''c0'' \<mapsto> example_account 0xc0 2002 2 0xa0 0 30000]\<rparr>"

definition example_start :: "fakeLedger world" where
  "example_start = initial_world (2 * second) 10 False example_ledger"

text \<open>The state once \<open>EnsureSystemAccounts\<close> has found both system accounts (\<open>startup_run\<close>).\<close>

definition example_world :: "fakeLedger world" where
  "example_world = example_start
     \<lparr>w_cache := \<lparr>cache_entries =
          [(1, \<lparr>meta_kind = AccountSafeguardedCash, meta_corporateAccountID = 0\<rparr>),
           (2, \<lparr>meta_kind = AccountCardSettlementPayable, meta_corporateAccountID = 0\<rparr>)],
        cache_keys = [1, 2], cache_next = 0, cache_limit = 10\<rparr>,
      w_observed := (newObservedLedger (2 * second) False)
        \<lparr>obs_nextID := 2, obs_lastSuccess := 62135596800000002003\<rparr>,
      w_tick := 4\<rparr>"

definition json :: "'a \<Rightarrow> 'a HttpInput" where
  "json x = \<lparr>Input_ContentType = [], Input_mediaType = None, Input_decoded = Inr x, Input_atEOF = True\<rparr>"

definition example_topup :: "uint64 \<Rightarrow> HttpRequest" where
  "example_topup amount = PostTopUps (json
     \<lparr>TopUp_RequestID = ''b1'', TopUp_AccountID = ''a0'', TopUp_AmountCents = amount\<rparr>)"

definition example_withdrawal :: "uint64 \<Rightarrow> HttpRequest" where
  "example_withdrawal amount = PostWithdrawals (json
     \<lparr>Withdrawal_RequestID = ''b2'', Withdrawal_AccountID = ''a0'', Withdrawal_AmountCents = amount\<rparr>)"

definition example_allocation :: HttpRequest where
  "example_allocation = PostCardAllocations (json
     \<lparr>CardAllocation_RequestID = ''b3'', CardAllocation_AccountID = ''a0'',
      CardAllocation_CardID = ''c0'', CardAllocation_AmountCents = 1000\<rparr>)"

definition example_authorization :: HttpRequest where
  "example_authorization = PostAuthorizations (json
     \<lparr>Authorization_RequestID = ''b4'', Authorization_CardID = ''c0'',
      Authorization_MerchantID = ''shop'', Authorization_AmountCents = 2000\<rparr>)"

definition example_increment :: HttpRequest where
  "example_increment = PostIncrements (json
     \<lparr>Increment_RequestID = ''b5'', Increment_AuthorizationID = ''b4'',
      Increment_IncrementCents = 300\<rparr>)"

definition example_new_card :: HttpRequest where
  "example_new_card = PostAccounts (json
     \<lparr>CreateAccount_AccountID = ''d0'', CreateAccount_Kind = AccountCardWallet,
      CreateAccount_CorporateAccountID = ''a0''\<rparr>)"

section \<open>Serving requests one after the other\<close>

primrec serve_all ::
  "'l Ledger \<Rightarrow> environment \<Rightarrow> ('r \<Rightarrow> 'a prog) \<Rightarrow> 'r list \<Rightarrow> 'l world \<Rightarrow> 'a option list \<times> 'l world" where
  "serve_all ops env handler [] w = ([], w)"
| "serve_all ops env handler (r # rs) w =
     (case run ops env (handler r) w of (x, w1) \<Rightarrow>
        case serve_all ops env handler rs w1 of (xs, w2) \<Rightarrow> (x # xs, w2))"

lemma serve_all_steps:
  assumes "serve_all ops env handler rs w = (map Some xs, w')"
  shows "sys_steps ops env outside handler (ps, w) (ps @ zip rs (map Return xs), w')"
  using assms
proof (induction rs arbitrary: ps w xs)
  case (Cons r rs)
  then obtain x ys w1 where x: "xs = x # ys" "run ops env (handler r) w = (Some x, w1)"
      "serve_all ops env handler rs w1 = (map Some ys, w')"
    by (auto split: prod.splits)
  have "sys_steps ops env outside handler (ps, w) (ps @ [(r, Return x)], w1)"
    using x(2) by (rule sys_steps_run)
  also have "sys_steps ops env outside handler \<dots> ((ps @ [(r, Return x)]) @ zip rs (map Return ys), w')"
    using x(3) by (rule Cons.IH)
  finally show ?case by (simp add: x(1))
qed simp

lemma serve_all_append:
  "serve_all ops env handler (rs @ rs') w =
     (case serve_all ops env handler rs w of (xs, w1) \<Rightarrow>
        case serve_all ops env handler rs' w1 of (ys, w2) \<Rightarrow> (xs @ ys, w2))"
  by (induction rs arbitrary: w) (auto split: prod.splits)

lemma length_serve_all: "length (fst (serve_all ops env handler rs w)) = length rs"
  by (induction rs arbitrary: w) (simp_all add: case_prod_beta)

section \<open>Rewriting\<close>

lemma reference_sdk_simps [simp]:
  "ToUint128 reference_sdk x = ucast x"
  "Uint128_Uint64 reference_sdk v = (ucast v, ucast (drop_bit 64 v))"
  "Uint128_String reference_sdk v = hex_print (unat v)"
  "AccountFlags_ToUint16 reference_sdk = account_flags"
  "Account_AccountFlags reference_sdk = account_flags_of"
  "TransferFlags_ToUint16 reference_sdk = transfer_flags"
  "Transfer_TransferFlags reference_sdk = transfer_flags_of"
  "CreateTransferStatus_String reference_sdk = transfer_status_name"
  by (simp_all add: reference_sdk_def)

lemma example_IDs [simp]:
  "accountID reference_sdk ''account_id'' ''a0'' = Inr 0xa0"
  "accountID reference_sdk ''card_id'' ''c0'' = Inr 0xc0"
  "accountID reference_sdk ''account_id'' ''d0'' = Inr 0xd0"
  "accountID reference_sdk ''corporate_account_id'' ''a0'' = Inr 0xa0"
  "requestID reference_sdk ''b1'' = Inr 0xb1" "requestID reference_sdk ''b2'' = Inr 0xb2"
  "requestID reference_sdk ''b3'' = Inr 0xb3" "requestID reference_sdk ''b4'' = Inr 0xb4"
  "requestID reference_sdk ''b5'' = Inr 0xb5"
  "validateExternalID ''authorization_id'' ''b4'' = Inr ()"
  "validateExternalID ''merchant_id'' ''shop'' = Inr ()"
  "validateExternalID ''account_id'' ''a0'' = Inr ()"
  "parsePublicTigerBeetleID reference_sdk ''b4'' = Inr 0xb4"
  "parsePublicTigerBeetleID reference_sdk ''a0'' = Inr 0xa0"
  by code_simp+

lemma example_strings [simp]:
  "hex_print (Suc 0) = ''1''" "hex_print 2 = ''2''" "hex_print 160 = ''a0''" "hex_print 192 = ''c0''"
  "hex_print 208 = ''d0''" "hex_print 177 = ''b1''" "hex_print 178 = ''b2''" "hex_print 179 = ''b3''"
  "hex_print 180 = ''b4''" "hex_print 181 = ''b5''"
  by (simp_all add: hex_print.simps hex_digits_def)

lemma decodeJSON_json [simp]: "decodeJSON (json x) = Inr x"
  by (simp add: decodeJSON_def json_def)

lemma example_role [simp]:
  "Service_ledgerID s = 1 \<Longrightarrow> metadataForAccount reference_sdk s
     \<lparr>Account_ID = 160, Account_DebitsPending = dp, Account_DebitsPosted = d,
      Account_CreditsPending = cp, Account_CreditsPosted = c, Account_UserData128 = 0,
      Account_UserData64 = 0, Account_UserData32 = 0, Account_Ledger = 1, Account_Code = 2001,
      Account_Flags = 2, Account_Timestamp = ts\<rparr> =
   Some \<lparr>meta_kind = AccountCorporateWallet, meta_corporateAccountID = 0\<rparr>"
  "i \<in> {192, 208} \<Longrightarrow> Service_ledgerID s = 1 \<Longrightarrow> metadataForAccount reference_sdk s
     \<lparr>Account_ID = i, Account_DebitsPending = dp, Account_DebitsPosted = d,
      Account_CreditsPending = cp, Account_CreditsPosted = c, Account_UserData128 = 160,
      Account_UserData64 = 0, Account_UserData32 = 0, Account_Ledger = 1, Account_Code = 2002,
      Account_Flags = 2, Account_Timestamp = ts\<rparr> =
   Some \<lparr>meta_kind = AccountCardWallet, meta_corporateAccountID = 160\<rparr>"
  by (auto simp: metadataForAccount_def accountKind_def account_code_defs ledger_Account_def
      AccountKind_Valid_def Let_def IsSystemAccountID_def SafeguardedCashAccountID_def
      CardSettlementPayableAccountID_def account_flags_def)

lemma example_system_role [simp]:
  "Service_ledgerID s = 1 \<Longrightarrow> metadataForAccount reference_sdk s
     \<lparr>Account_ID = 1, Account_DebitsPending = dp, Account_DebitsPosted = d,
      Account_CreditsPending = cp, Account_CreditsPosted = c, Account_UserData128 = 0,
      Account_UserData64 = 0, Account_UserData32 = 0, Account_Ledger = 1, Account_Code = 1001,
      Account_Flags = 4, Account_Timestamp = ts\<rparr> =
   Some \<lparr>meta_kind = AccountSafeguardedCash, meta_corporateAccountID = 0\<rparr>"
  "Service_ledgerID s = 1 \<Longrightarrow> metadataForAccount reference_sdk s
     \<lparr>Account_ID = 2, Account_DebitsPending = dp, Account_DebitsPosted = d,
      Account_CreditsPending = cp, Account_CreditsPosted = c, Account_UserData128 = 0,
      Account_UserData64 = 0, Account_UserData32 = 0, Account_Ledger = 1, Account_Code = 2003,
      Account_Flags = 2, Account_Timestamp = ts\<rparr> =
   Some \<lparr>meta_kind = AccountCardSettlementPayable, meta_corporateAccountID = 0\<rparr>"
  by (auto simp: metadataForAccount_def accountKind_def account_code_defs ledger_Account_def
      AccountKind_Valid_def Let_def IsSystemAccountID_def SafeguardedCashAccountID_def
      CardSettlementPayableAccountID_def account_flags_def)

lemma example_service_simps [simp]:
  "Service_ledgerID example_service = 1"
  "Service_authorizationTimeout example_service = 3600000000000"
  "Service_riskDelay example_service = 200000000"
  "Service_riskLimitCents example_service = 100000" "Service_metrics example_service = False"
  by (simp_all add: example_service_def second_def millisecond_def)

lemma example_new_account [simp]:
  "ledger_Account reference_sdk AccountCardWallet 208 160 1 =
     Inr (zeroAccount\<lparr>Account_ID := 208, Account_UserData128 := 160, Account_Ledger := 1,
       Account_Code := 2002, Account_Flags := 2\<rparr>)"
  by (simp add: ledger_Account_Inr chart_code_def debit_normal_def account_flags_def AccountKind_Valid_def)

text \<open>
  Evaluation of \<open>run\<close> from the outside in: the program is unfolded one action at a time and only the
  branch that is taken is looked at.
\<close>

lemma run_unfold: "p = q \<Longrightarrow> run ops env p w = run ops env q w"
  by simp

lemma run_lazy: "w = w' \<Longrightarrow> run ops env p w = run ops env p w'"
  by simp

lemma run_branch:
  "run ops env (if b then p else q) w = (if b then run ops env p w else run ops env q w)"
  "run ops env (case x of None \<Rightarrow> p | Some y \<Rightarrow> f y) w =
     (case x of None \<Rightarrow> run ops env p w | Some y \<Rightarrow> run ops env (f y) w)"
  "run ops env (case r of Inl e \<Rightarrow> g e | Inr z \<Rightarrow> h z) w =
     (case r of Inl e \<Rightarrow> run ops env (g e) w | Inr z \<Rightarrow> run ops env (h z) w)"
  "run ops env (case_prod c u) w = (case u of (a, b) \<Rightarrow> run ops env (c a b) w)"
  "run ops env (Let v d) w = run ops env (d v) w"
  by (simp_all split: option.split sum.split prod.split)

lemma authorization_transfer_run:
  "authorization_transfer sdk s request ident cardAccountID =
     zeroTransfer\<lparr>Transfer_ID := ident,
       Transfer_DebitAccountID := cardAccountID,
       Transfer_CreditAccountID := CardSettlementPayableAccountID sdk,
       Transfer_Amount := ToUint128 sdk (Authorization_AmountCents request),
       Transfer_UserData128 := ident,
       Transfer_UserData64 := fst (merchantFingerprint (Authorization_MerchantID request)),
       Transfer_UserData32 := snd (merchantFingerprint (Authorization_MerchantID request)),
       Transfer_Timeout := word_of_int (Service_authorizationTimeout s sdiv second),
       Transfer_Ledger := Service_ledgerID s,
       Transfer_Code := TransferCodeAuthorization,
       Transfer_Flags := TransferFlags_ToUint16 sdk \<lparr>Pending = True\<rparr>\<rparr>"
  by (simp add: authorization_transfer_def Let_def case_prod_beta)

lemma wallet_kinds [simp]: "AccountCardWallet \<noteq> AccountCorporateWallet"
  by (simp add: kind_defs)

lemmas program_run = run.simps run_seq run_upon_exit run_branch

lemma example_system_account [simp]:
  "ledger_Account reference_sdk AccountSafeguardedCash 1 0 1 =
     Inr (zeroAccount\<lparr>Account_ID := 1, Account_Ledger := 1, Account_Code := 1001, Account_Flags := 4\<rparr>)"
  "ledger_Account reference_sdk AccountCardSettlementPayable 2 0 1 =
     Inr (zeroAccount\<lparr>Account_ID := 2, Account_Ledger := 1, Account_Code := 2003, Account_Flags := 2\<rparr>)"
  by (simp_all add: ledger_Account_Inr chart_code_def debit_normal_def account_flags_def
      AccountKind_Valid_def kind_defs zeroAccount_def)

lemmas http_run =
  serveHTTP_def recoverPanics_def server_handle_def HTTPMiddleware_def admission_Wrap_def
  LedgerHealth_read_def respond_def check_def attempt_def fail_def http_topUp_def
  http_withdraw_def http_allocateToCard_def http_authorize_def http_increment_def
  http_createAccount_def http_balance_def serveMux.simps

lemmas service_run =
  TopUp_def Withdraw_def AllocateToCard_def moveCardFunds_def Authorize_def Authorize_declined_def
  Authorize_submit_def IncrementAuthorization_def Increment_evaluate_def
  Increment_submit_def Increment_resolve_def increment_complete_def evaluateRisk_def
  Balance_def CreateAccount_def CreateAccount_parent_def CreateAccount_submit_def requireAccountKind_def
  storeMetadata_def rememberAccount_def executeTransaction_def observeCompletion_def
  lookupExistingIncrement_def EnsureSystemAccounts_def ensureAccounts.simps
  observed_LookupAccount_def observed_LookupTransfer_def observed_CreateTransfer_def
  observed_CreateAccount_def observed_call_def

lemmas handler_run = program_run http_run [THEN run_unfold] service_run [THEN run_unfold]

lemmas pure_run =
  authorization_transfer_run
  Authorize_answer_def Increment_answer_def increment_transfer_def
  notOpenAuthorization_def remainingSeconds_def
  ledgerTime_def isIdempotencyConflict_def errorCode_def publicID_def incrementFailure_def
  writeJSON_def writeError_def error_body_def Let_def
  newMetadataCache_def newObservedLedger_def
  observed_Health_def Time_IsZero_def observed_begin_def observed_done_def second_def
  millisecond_def w_advance_def cache_Load_def cache_Store_def findOldest_def findOldest_step_def
  Time_Sub_def Milliseconds_def sdiv_nonneg_int Time_Add_def time_Unix_nsec_def is_int64_def

lemmas fake_run =
  fake_ops_def fake_LookupAccount_def fake_LookupTransfer_def fake_CreateTransfer_def
  fake_CreateAccount_def fake_apply_def fake_commit_def fake_book_def low64_def fake_compare_def

lemmas data_run =
  zeroAccount_def zeroTransfer_def zeroTransactionResponse_def zeroAuthorizationResponse_def
  zeroIncrementAuthorizationResponse_def transfer_code_defs account_flags_def account_flags_of_def
  transfer_flags_def transfer_flags_of_def transfer_status_name_def SafeguardedCashAccountID_def
  CardSettlementPayableAccountID_def

lemmas example_run =
  example_env_def example_ledger_def example_account_def newFakeLedger_def example_world_def
  example_start_def initial_world_def
  example_topup_def example_withdrawal_def example_allocation_def example_authorization_def
  example_increment_def example_new_card_def

section \<open>The runs\<close>

definition example_serve :: "HttpRequest list \<Rightarrow> HttpResponse option list \<times> fakeLedger world" where
  "example_serve rs =
     serve_all (fake_ops reference_sdk) example_env (serveHTTP reference_sdk example_service) rs
       example_world"

definition transaction_answer :: "int \<Rightarrow> string \<Rightarrow> string \<Rightarrow> string \<Rightarrow> uint64 \<Rightarrow> string \<times> string \<Rightarrow> HttpResponse" where
  "transaction_answer status ident outcome ledgerStatus ts err =
     writeJSON status (BodyTransaction \<lparr>TxResp_RequestID = ident, TxResp_TransactionID = ident,
       TxResp_Status = outcome, TxResp_LedgerStatus = ledgerStatus, TxResp_Timestamp = ts,
       TxResp_ErrorCode = fst err, TxResp_Message = snd err\<rparr>)"

lemmas run_all = handler_run pure_run fake_run data_run example_run example_serve_def

lemma four_readings: "Suc (Suc (Suc (Suc 0))) = (4 :: nat)"
  by simp

lemma startup_run:
  "run (fake_ops reference_sdk) example_env (EnsureSystemAccounts reference_sdk example_service)
     example_start = (Some (Inr ()), example_world)"
  by (simp add: run_all four_readings cong: run_lazy)

text \<open>Requests served after others, from the state those left.\<close>

definition retry_serve :: "HttpRequest list \<Rightarrow> HttpRequest list \<Rightarrow> HttpResponse option list \<times> fakeLedger world" where
  "retry_serve rs rs' = serve_all (fake_ops reference_sdk) example_env
     (serveHTTP reference_sdk example_service) rs' (snd (example_serve rs))"

lemma split_run:
  assumes "fst (example_serve (rs @ rs')) = xs @ ys" "length xs = length rs"
  shows "fst (example_serve rs) = xs \<and> fst (retry_serve rs rs') = ys"
proof -
  have "fst (example_serve rs) @ fst (retry_serve rs rs') = xs @ ys"
    using assms(1) by (simp add: example_serve_def retry_serve_def serve_all_append split: prod.splits)
  moreover have "length (fst (example_serve rs)) = length xs"
    using assms(2) by (simp add: example_serve_def length_serve_all)
  ultimately show ?thesis by simp
qed

definition retried_topups :: "HttpRequest list" where
  "retried_topups = [example_topup 500, example_topup 500]"

definition retried_topup_responses :: "HttpResponse list" where
  "retried_topup_responses =
     [transaction_answer 200 ''b1'' ''posted'' ''created'' 1001 ([], []),
      transaction_answer 200 ''b1'' ''posted'' ''exists'' 1001 ([], [])]"

lemma retried_topups_run: "fst (example_serve retried_topups) = map Some retried_topup_responses"
  by (simp add: retried_topups_def retried_topup_responses_def transaction_answer_def run_all
      cong: run_lazy)

lemma first_run: "fst (example_serve [example_topup 500]) =
    map Some [transaction_answer 200 ''b1'' ''posted'' ''created'' 1001 ([], [])]"
  and retry_run: "fst (retry_serve [example_topup 500] [example_topup 500]) =
    map Some [transaction_answer 200 ''b1'' ''posted'' ''exists'' 1001 ([], [])]"
  using split_run [of "[example_topup 500]" "[example_topup 500]"
      "[Some (retried_topup_responses ! 0)]" "[Some (retried_topup_responses ! 1)]"] retried_topups_run
  by (simp_all add: retried_topups_def retried_topup_responses_def)

definition failed_withdrawals :: "HttpRequest list" where
  "failed_withdrawals = [example_withdrawal 900000, example_withdrawal 1]"

definition failed_withdrawal_responses :: "HttpResponse list" where
  "failed_withdrawal_responses =
     [transaction_answer 422 ''b2'' ''failed'' ''exceeds_credits'' 0
        (''insufficient_funds'', ''the debit account has insufficient available funds''),
      transaction_answer 409 ''b2'' ''failed'' ''id_already_failed'' 0
        (''previous_attempt_failed'',
         ''this transfer ID was previously rejected and cannot produce a different outcome'')]"

lemma failed_withdrawals_run: "fst (example_serve failed_withdrawals) = map Some failed_withdrawal_responses"
  by (simp add: failed_withdrawals_def failed_withdrawal_responses_def transaction_answer_def run_all
      cong: run_lazy)

definition conflicting_topups :: "HttpRequest list" where
  "conflicting_topups = [example_topup 500, example_topup 501]"

definition conflicting_topup_responses :: "HttpResponse list" where
  "conflicting_topup_responses =
     [transaction_answer 200 ''b1'' ''posted'' ''created'' 1001 ([], []),
      writeError ErrIdempotencyConflict]"

lemma conflicting_topups_run: "fst (example_serve conflicting_topups) = map Some conflicting_topup_responses"
  by (simp add: conflicting_topups_def conflicting_topup_responses_def transaction_answer_def run_all
      cong: run_lazy)

lemma allocation_run: "fst (example_serve [example_allocation]) =
    map Some [transaction_answer 200 ''b3'' ''posted'' ''created'' 1001 ([], [])]"
  by (simp add: transaction_answer_def run_all cong: run_lazy)

definition hold_responses :: "HttpResponse list" where
  "hold_responses =
     [writeJSON 200 (BodyAuthorization (zeroAuthorizationResponse\<lparr>
        AuthResp_RequestID := ''b4'', AuthResp_AuthorizationID := ''b4'',
        AuthResp_HoldTransferID := ''b4'', AuthResp_Status := ''approved'',
        AuthResp_LedgerStatus := ''created'', AuthResp_ExpiresAt := Some 62135600400000001001,
        AuthResp_Timestamp := 1001\<rparr>)),
      writeJSON 200 (BodyIncrement (zeroIncrementAuthorizationResponse\<lparr>
        IncResp_RequestID := ''b5'', IncResp_AuthorizationID := ''b4'',
        IncResp_HoldTransferID := ''b5'', IncResp_Status := ''approved'',
        IncResp_LedgerStatus := ''created'', IncResp_IncrementCents := 300,
        IncResp_Timestamp := 1002\<rparr>))]"

definition increment_retry_response :: HttpResponse where
  "increment_retry_response =
     writeJSON 200 (BodyIncrement (zeroIncrementAuthorizationResponse\<lparr>
        IncResp_RequestID := ''b5'', IncResp_AuthorizationID := ''b4'',
        IncResp_HoldTransferID := ''b5'', IncResp_Status := ''approved'',
        IncResp_LedgerStatus := ''exists'', IncResp_IncrementCents := 300,
        IncResp_Timestamp := 1002\<rparr>))"

lemma hold_runs: "fst (example_serve ([example_authorization, example_increment] @ [example_increment])) =
    map Some hold_responses @ [Some increment_retry_response]"
  by (simp add: hold_responses_def run_all sameTransferExceptTimeout_def increment_retry_response_def
      cong: run_lazy)

lemma hold_run: "fst (example_serve [example_authorization, example_increment]) = map Some hold_responses"
  and hold_retry_run: "fst (retry_serve [example_authorization, example_increment] [example_increment]) =
    map Some [increment_retry_response]"
  using split_run [OF hold_runs] by (simp_all add: hold_responses_def)

lemma card_run: "fst (example_serve [example_new_card]) =
    map Some [writeJSON 201 (BodyAccount \<lparr>AccountResp_AccountID = ''d0'',
      AccountResp_Kind = AccountCardWallet, AccountResp_CorporateAccountID = ''a0'',
      AccountResp_Status = ''created'', AccountResp_Timestamp = 1001\<rparr>)]"
  by (simp add: run_all cong: run_lazy)

lemma balance_run: "fst (example_serve [GetAccount ''a0'']) =
    map Some [writeJSON 200 (BodyBalance (balance_response reference_sdk
      (example_account 0xa0 2001 2 0 0 50000)
      \<lparr>meta_kind = AccountCorporateWallet, meta_corporateAccountID = 0\<rparr>))]"
  by (simp add: run_all cong: run_lazy)

section \<open>The runs are runs of the service\<close>

lemma example_inv: "fake_inv reference_sdk example_ledger"
proof -
  have "hex_print (unat i) = hex_print (unat j) \<longleftrightarrow> i = j" for i j :: uint128
    using ref.String_inject [of i j] by simp
  from this [of _ 1] this [of _ 2] this [of _ 160] this [of _ 192] show ?thesis
    by (auto simp: fake_inv_def example_ledger_def newFakeLedger_def example_account_def
        zeroAccount_def split: if_splits)
qed

lemma example_serves:
  assumes "fst (example_serve rs) = map Some xs"
  shows "serves reference_sdk example_service (fake_ops reference_sdk) (fake_view reference_sdk)
    (fake_inv reference_sdk) example_env (\<lambda>_ _. False) example_world (zip rs (map Return xs))
    (snd (example_serve rs))"
proof -
  have "starts reference_sdk example_service (fake_ops reference_sdk) (fake_inv reference_sdk) example_env
      (\<lambda>_ _. False) example_world"
    using starts_run [where linv = "fake_inv reference_sdk" and k = "env_slots example_env",
        OF startup_run [unfolded example_start_def] example_inv] by simp
  moreover have "sys_steps (fake_ops reference_sdk) example_env (\<lambda>_ _. False)
      (serveHTTP reference_sdk example_service) ([], example_world)
      ([] @ zip rs (map Return xs), snd (example_serve rs))"
    using assms by (intro serve_all_steps) (auto simp: example_serve_def prod_eq_iff)
  ultimately show ?thesis
    using example_inv ref.tb_sdk_axioms ref.fake.ledger_contract_axioms
    by (auto simp: serves_def outside_ok_def)
qed

lemmas topups_serves = example_serves [OF retried_topups_run]
  and withdrawals_serves = example_serves [OF failed_withdrawals_run]
  and conflict_serves = example_serves [OF conflicting_topups_run]
  and hold_serves = example_serves [OF hold_run]
  and card_serves = example_serves [OF card_run]
  and balance_serves = example_serves [OF balance_run]

lemma example_intents [simp]:
  "request_intent reference_sdk example_service (example_topup a) =
     Some (posted_transfer reference_sdk example_service 0xb1 1 0xa0 a 1001)"
  "request_intent reference_sdk example_service (example_withdrawal a) =
     Some (posted_transfer reference_sdk example_service 0xb2 0xa0 1 a 1002)"
  by (simp_all add: example_topup_def example_withdrawal_def TopUp_intent_def Withdraw_intent_def
      SafeguardedCashAccountID_def)

lemma example_success [simp]:
  "success (example_topup a) (transaction_answer status i ''posted'' ls ts e) = Some ts"
  "success (example_withdrawal a) (transaction_answer status i ''posted'' ls ts e) = Some ts"
  by (simp_all add: example_topup_def example_withdrawal_def posted_at_def transaction_answer_def
      writeJSON_def)

lemma example_failure [simp]:
  "final_failure (example_withdrawal a) (transaction_answer status i out ls ts e) \<longleftrightarrow> fst e \<in> set final_codes"
  by (simp add: example_withdrawal_def transaction_rejected_def transaction_answer_def writeJSON_def)

lemma retry_steps:
  assumes "fst (retry_serve rs rs') = map Some xs"
  shows "sys_steps (fake_ops reference_sdk) example_env (\<lambda>_ _. False)
    (serveHTTP reference_sdk example_service) (ps, snd (example_serve rs))
    (ps @ zip rs' (map Return xs), snd (retry_serve rs rs'))"
  using assms by (intro serve_all_steps) (auto simp: retry_serve_def prod_eq_iff)

lemma first_cache: "cache_Load 0xa0 (w_cache (snd (example_serve [example_topup 500]))) =
    Some \<lparr>meta_kind = AccountCorporateWallet, meta_corporateAccountID = 0\<rparr>"
  by (simp add: run_all cong: run_lazy)

lemma first_tick: "w_tick (snd (example_serve [example_topup 500])) < 2 ^ 64 - 1"
  by (simp add: run_all cong: run_lazy)

lemma example_env_ok: "env_ok example_env"
  by (simp add: env_ok_def iteration_order_def example_env_def)

end
