(* ===== verification/Request_History.thy ===== *)
theory Request_History
  imports Running_Service
begin

text \<open>
  The history of each request of the running service: the clock readings it took, the transfers it
  looked up and submitted with the answers it got, and the metrics and log lines it emitted, in
  order.  Histories do not influence the service; they are what statements about the past of a
  request refer to.  \<open>recorded\<close> follows the steps of the system, and the lemmas give what a history
  says of the ledger and what the program of a request guarantees of its submissions.
\<close>

section \<open>Histories\<close>

datatype event =
    ClockRead Time
  | LookedUp uint128 "Error + Transfer \<times> bool"
  | Submitted Transfer "Error + CreateTransferResult"
  | Counted MetricCall
  | Logged LogEntry

text \<open>What the next action of a program adds to its history.\<close>

fun observation :: "'l Ledger \<Rightarrow> environment \<Rightarrow> 'a prog \<Rightarrow> 'l world \<Rightarrow> event list" where
  "observation ops env (Now k) w = [ClockRead (env_now env (w_tick w))]"
| "observation ops env (CallLookupTransfer i k) w = [LookedUp i (fst (Ledger_LookupTransfer ops i (w_ledger w)))]"
| "observation ops env (CallCreateTransfer t k) w = [Submitted t (fst (Ledger_CreateTransfer ops t (w_ledger w)))]"
| "observation ops env (EmitMetric m k) w = [Counted m]"
| "observation ops env (EmitLog l k) w = [Logged l]"
| "observation ops env _ w = []"

text \<open>The steps of the system from \<open>w0\<close> on, with one history per request.\<close>

inductive recorded ::
  "'l Ledger \<Rightarrow> environment \<Rightarrow> ('l \<Rightarrow> 'l \<Rightarrow> bool) \<Rightarrow> ('r \<Rightarrow> 'a prog) \<Rightarrow> 'l world \<Rightarrow>
   ('r \<times> 'a prog) list \<Rightarrow> 'l world \<Rightarrow> event list list \<Rightarrow> bool"
  for ops env outside handler w0 where
  start: "recorded ops env outside handler w0 [] w0 []"
| arrives: "recorded ops env outside handler w0 ps w hs \<Longrightarrow>
     recorded ops env outside handler w0 (ps @ [(r, handler r)]) w (hs @ [[]])"
| acts: "recorded ops env outside handler w0 ps w hs \<Longrightarrow> i < length ps \<Longrightarrow> ps ! i = (r, p) \<Longrightarrow>
     act ops env p w = (p', w') \<Longrightarrow>
     recorded ops env outside handler w0 (ps[i := (r, p')]) w' (hs[i := hs ! i @ observation ops env p w])"
| outside: "recorded ops env outside handler w0 ps w hs \<Longrightarrow> outside (w_ledger w) l \<Longrightarrow>
     recorded ops env outside handler w0 ps (w\<lparr>w_ledger := l\<rparr>) hs"

lemma recorded_length: "recorded ops env outside handler w0 ps w hs \<Longrightarrow> length hs = length ps"
  by (induction rule: recorded.induct) simp_all

lemma recorded_steps:
  "recorded ops env outside handler w0 ps w hs \<Longrightarrow> sys_steps ops env outside handler ([], w0) (ps, w)"
proof (induction rule: recorded.induct)
  case (acts ps w hs i r p p' w')
  show ?case
    using acts.IH sys_step.acts [OF acts.hyps(2-4)] by (rule rtranclp.rtrancl_into_rtrancl)
qed (auto intro: rtranclp.rtrancl_into_rtrancl sys_step.arrives sys_step.outside)

text \<open>Every state the system reaches has histories.\<close>

lemma steps_recorded:
  assumes "sys_steps ops env outside handler ([], w0) (ps, w)"
  shows "\<exists>hs. recorded ops env outside handler w0 ps w hs"
  using assms
proof (induction ps w rule: rtranclp_induct2)
  case refl
  show ?case using recorded.start by blast
next
  case (step ps w ps' w')
  then obtain hs where "recorded ops env outside handler w0 ps w hs" by blast
  note next_history = recorded.arrives [OF this] recorded.acts [OF this] recorded.outside [OF this]
  from step.hyps(2) show ?case
    by (cases rule: sys_stepE) (use next_history in blast)+
qed

lemma serves_recorded:
  assumes "serves sdk s ops view linv env outside w0 ps w"
  shows "\<exists>hs. recorded ops env outside (serveHTTP sdk s) w0 ps w hs"
  using assms steps_recorded by (auto simp: serves_def)

section \<open>What a history says of the ledger\<close>

text \<open>A transfer that was found is there, and an answer to a submission stays true.\<close>

definition remembers :: "event list \<Rightarrow> ledger_view \<Rightarrow> bool" where
  "remembers h K \<longleftrightarrow>
     (\<forall>i t. LookedUp i (Inr (t, True)) \<in> set h \<longrightarrow> view_transfers K i = Some t) \<and>
     (\<forall>t a. Submitted t a \<in> set h \<longrightarrow> transfer_outcome t a K)"

lemma remembers_grows: "remembers h K \<Longrightarrow> grows K K' \<Longrightarrow> remembers h K'"
  unfolding remembers_def using grows_transfer transfer_outcome_grows by blast

lemma remembers_append: "remembers (h @ h') K \<longleftrightarrow> remembers h K \<and> remembers h' K"
  by (auto simp: remembers_def)

context ledger_contract
begin

lemma act_grows:
  assumes "act ops env p w = (p', w')" "linv (w_ledger w)"
  shows "linv (w_ledger w') \<and> grows (view (w_ledger w)) (view (w_ledger w'))"
proof -
  note vok = view_ok [OF assms(2)]
  show ?thesis
  proof (cases p)
    case (CallCreateAccount a k)
    obtain r l where c: "Ledger_CreateAccount ops a (w_ledger w) = (r, l)" by fastforce
    from CreateAccount [OF assms(2) c] account_law_grows [OF vok] c CallCreateAccount assms(1) show ?thesis by auto
  next
    case (CallCreateTransfer t k)
    obtain r l where c: "Ledger_CreateTransfer ops t (w_ledger w) = (r, l)" by fastforce
    from CreateTransfer [OF assms(2) c] transfer_law_grows [OF vok] c CallCreateTransfer assms(1) show ?thesis by auto
  next
    case (CallLookupAccount i k)
    obtain r l where c: "Ledger_LookupAccount ops i (w_ledger w) = (r, l)" by fastforce
    from LookupAccount [OF assms(2) c] vok c CallLookupAccount assms(1) show ?thesis by auto
  next
    case (CallLookupTransfer i k)
    obtain r l where c: "Ledger_LookupTransfer ops i (w_ledger w) = (r, l)" by fastforce
    from LookupTransfer [OF assms(2) c] vok c CallLookupTransfer assms(1) show ?thesis by auto
  qed (use assms vok in \<open>auto simp: w_advance_def split: prod.splits option.splits if_splits\<close>)
qed

lemma observation_true:
  assumes "act ops env p w = (p', w')" "linv (w_ledger w)"
  shows "remembers (observation ops env p w) (view (w_ledger w'))"
proof (cases p)
  case (CallCreateTransfer t k)
  obtain r l where c: "Ledger_CreateTransfer ops t (w_ledger w) = (r, l)" by fastforce
  with CreateTransfer [OF assms(2) c] transfer_outcome_law [OF view_ok [OF assms(2)]] CallCreateTransfer assms(1)
  show ?thesis by (auto simp: remembers_def)
next
  case (CallLookupTransfer i k)
  obtain r l where c: "Ledger_LookupTransfer ops i (w_ledger w) = (r, l)" by fastforce
  with LookupTransfer [OF assms(2) c] CallLookupTransfer assms(1) show ?thesis
    by (auto simp: remembers_def transfer_lookup_law_def split: option.splits)
qed (simp_all add: remembers_def)

lemma observation_new:
  assumes "act ops env p w = (p', w')" "linv (w_ledger w)"
    and "view_transfers (view (w_ledger w)) i = None" "view_transfers (view (w_ledger w')) i \<noteq> None"
  shows "\<exists>t a. Submitted t a \<in> set (observation ops env p w) \<and> Transfer_ID t = i"
proof (cases p)
  case (CallCreateAccount a k)
  obtain r l where c: "Ledger_CreateAccount ops a (w_ledger w) = (r, l)" by fastforce
  with CreateAccount [OF assms(2) c] CallCreateAccount assms show ?thesis
    by (auto simp: account_law_def add_account_def split: option.splits sum.splits if_splits)
next
  case (CallCreateTransfer t k)
  obtain r l where c: "Ledger_CreateTransfer ops t (w_ledger w) = (r, l)" by fastforce
  with CreateTransfer [OF assms(2) c] CallCreateTransfer assms show ?thesis
    by (auto simp: transfer_law_def add_transfer_def add_failed_def split: option.splits sum.splits if_splits)
next
  case (CallLookupAccount j k)
  obtain r l where c: "Ledger_LookupAccount ops j (w_ledger w) = (r, l)" by fastforce
  with LookupAccount [OF assms(2) c] CallLookupAccount assms show ?thesis by auto
next
  case (CallLookupTransfer j k)
  obtain r l where c: "Ledger_LookupTransfer ops j (w_ledger w) = (r, l)" by fastforce
  with LookupTransfer [OF assms(2) c] CallLookupTransfer assms show ?thesis by auto
qed (use assms in \<open>auto simp: w_advance_def split: prod.splits option.splits if_splits\<close>)

lemma recorded_true:
  assumes "recorded ops env outside handler w0 ps w hs" "outside_ok linv view outside" "linv (w_ledger w0)"
  shows "linv (w_ledger w) \<and> (\<forall>h \<in> set hs. remembers h (view (w_ledger w)))"
  using assms(1)
proof (induction rule: recorded.induct)
  case start
  show ?case using assms(3) by simp
next
  case (arrives ps w hs r)
  then show ?case by (simp add: remembers_def)
next
  case (acts ps w hs i r p p' w')
  have g: "linv (w_ledger w')" "grows (view (w_ledger w)) (view (w_ledger w'))"
    using act_grows [OF acts.hyps(4)] acts.IH by auto
  have "i < length hs"
    using recorded_length [OF acts.hyps(1)] acts.hyps(2) by simp
  moreover have "remembers (hs ! i @ observation ops env p w) (view (w_ledger w'))"
    using acts.IH remembers_grows [OF _ g(2)] observation_true [OF acts.hyps(4)] calculation
    by (simp add: remembers_append)
  ultimately show ?case
    using acts.IH remembers_grows [OF _ g(2)] g(1) set_update_subset_insert [of hs i] by blast
next
  case (outside ps w hs l)
  with assms(2) show ?case
    using remembers_grows by (fastforce simp: outside_ok_def)
qed

text \<open>Without other clients, every transfer that appears was submitted by some request.\<close>

lemma recorded_new:
  assumes "recorded ops env outside handler w0 ps w hs" "linv (w_ledger w0)" "\<And>l l'. \<not> outside l l'"
    and "view_transfers (view (w_ledger w)) i = Some t" "view_transfers (view (w_ledger w0)) i = None"
  shows "\<exists>n t' a. n < length ps \<and> Submitted t' a \<in> set (hs ! n) \<and> Transfer_ID t' = i"
proof -
  have out: "outside_ok linv view outside"
    using assms(3) by (simp add: outside_ok_def)
  have "view_transfers (view (w_ledger w)) i \<noteq> None \<longrightarrow>
      (\<exists>h t' a. h \<in> set hs \<and> Submitted t' a \<in> set h \<and> Transfer_ID t' = i)"
    using assms(1)
  proof (induction rule: recorded.induct)
    case start
    then show ?case using assms(5) by simp
  next
    case (arrives ps w hs r)
    then show ?case by auto
  next
    case (acts ps w hs j r p p' w')
    have inv: "linv (w_ledger w)"
      using recorded_true [OF acts.hyps(1) out assms(2)] by blast
    have j: "j < length hs"
      using recorded_length [OF acts.hyps(1)] acts.hyps(2) by simp
    have kept: "\<exists>h' \<in> set (hs[j := hs ! j @ observation ops env p w]). Submitted t' a \<in> set h'"
      if h: "h \<in> set hs" "Submitted t' a \<in> set h" for h t' a
    proof -
      obtain k where k: "k < length hs" "hs ! k = h" using h(1) by (auto simp: in_set_conv_nth)
      have "hs[j := hs ! j @ observation ops env p w] ! k \<in> set (hs[j := hs ! j @ observation ops env p w])"
        using k(1) by (intro nth_mem) simp
      moreover have "Submitted t' a \<in> set (hs[j := hs ! j @ observation ops env p w] ! k)"
        using h(2) k by (cases "k = j") auto
      ultimately show ?thesis by blast
    qed
    have new: "\<exists>t' a. Submitted t' a \<in> set (observation ops env p w) \<and> Transfer_ID t' = i"
      if "view_transfers (view (w_ledger w)) i = None" "view_transfers (view (w_ledger w')) i \<noteq> None"
      using observation_new [OF acts.hyps(4) inv that] .
    show ?case
    proof (cases "view_transfers (view (w_ledger w)) i")
      case None
      then show ?thesis
        using new j set_update_memI [OF j, of "hs ! j @ observation ops env p w"] by fastforce
    next
      case (Some u)
      with acts.IH kept show ?thesis by blast
    qed
  next
    case (outside ps w hs l)
    with assms(3) show ?case by blast
  qed
  then obtain h t' a where h: "h \<in> set hs" "Submitted t' a \<in> set h" "Transfer_ID t' = i"
    using assms(4) by auto
  then obtain n where "n < length hs" "hs ! n = h"
    by (auto simp: in_set_conv_nth)
  with h recorded_length [OF assms(1)] show ?thesis by auto
qed

end

lemma serves_remembers:
  assumes "serves sdk s ops view linv env outside w0 ps w"
    and "recorded ops env outside (serveHTTP sdk s) w0 ps w hs" "n < length ps"
  shows "remembers (hs ! n) (view (w_ledger w))"
proof -
  have "linv (w_ledger w0)" "ledger_contract ops view linv" "outside_ok linv view outside"
    using serves_world(1) [OF assms(1)] assms(1) by (auto simp: world_inv_def serves_def)
  with ledger_contract.recorded_true [OF _ assms(2)] recorded_length [OF assms(2)] assms(3) show ?thesis
    by (simp add: nth_mem)
qed

section \<open>What a program guarantees of its submissions\<close>

text \<open>
  \<open>submits P Q p h\<close>: with the history \<open>h\<close> so far, whatever the answers, every transfer that \<open>p\<close>
  submits satisfies \<open>P\<close> with the history up to the submission, and the value it returns satisfies
  \<open>Q\<close> with the history at its end.
\<close>

primrec submits ::
  "(Transfer \<Rightarrow> event list \<Rightarrow> bool) \<Rightarrow> ('a \<Rightarrow> event list \<Rightarrow> bool) \<Rightarrow> 'a prog \<Rightarrow> event list \<Rightarrow> bool" where
  "submits P Q (Return x) h \<longleftrightarrow> Q x h"
| "submits P Q Panic h \<longleftrightarrow> True"
| "submits P Q (Now k) h \<longleftrightarrow> (\<forall>t. submits P Q (k t) (h @ [ClockRead t]))"
| "submits P Q (AwaitRisk d k) h \<longleftrightarrow> (\<forall>x. submits P Q (k x) h)"
| "submits P Q (CacheLoad i k) h \<longleftrightarrow> (\<forall>x. submits P Q (k x) h)"
| "submits P Q (CacheStore i m k) h \<longleftrightarrow> (\<forall>x. submits P Q (k x) h)"
| "submits P Q (BeginCall t k) h \<longleftrightarrow> (\<forall>x. submits P Q (k x) h)"
| "submits P Q (EndCall i t b k) h \<longleftrightarrow> submits P Q k h"
| "submits P Q (CallCreateAccount a k) h \<longleftrightarrow> (\<forall>x. submits P Q (k x) h)"
| "submits P Q (CallCreateTransfer t k) h \<longleftrightarrow> P t h \<and> (\<forall>x. submits P Q (k x) (h @ [Submitted t x]))"
| "submits P Q (CallLookupAccount i k) h \<longleftrightarrow> (\<forall>x. submits P Q (k x) h)"
| "submits P Q (CallLookupTransfer i k) h \<longleftrightarrow> (\<forall>x. submits P Q (k x) (h @ [LookedUp i x]))"
| "submits P Q (ReadHealth k) h \<longleftrightarrow> (\<forall>x. submits P Q (k x) h)"
| "submits P Q (AcquireSlot k) h \<longleftrightarrow> (\<forall>x. submits P Q (k x) h)"
| "submits P Q (ReleaseSlot k) h \<longleftrightarrow> submits P Q k h"
| "submits P Q (EmitMetric m k) h \<longleftrightarrow> submits P Q k (h @ [Counted m])"
| "submits P Q (EmitLog l k) h \<longleftrightarrow> submits P Q k (h @ [Logged l])"

lemma submits_mono:
  "submits P Q p h \<Longrightarrow> (\<And>x h'. Q x h' \<Longrightarrow> Q' x h') \<Longrightarrow> submits P Q' p h"
  by (induction p arbitrary: h) simp_all

lemma submits_seq: "submits P Q (seq p f) h \<longleftrightarrow> submits P (\<lambda>x. submits P Q (f x)) p h"
  by (induction p arbitrary: h) simp_all

lemma submits_upon_exit:
  "submits P (\<lambda>x. submits P Q (f (Some x))) p h \<Longrightarrow> (\<And>h. submits P Q (f None) h) \<Longrightarrow>
   submits P Q (upon_exit p f) h"
  by (induction p arbitrary: h) simp_all

lemma submits_trivial: "(\<And>t h. P t h) \<Longrightarrow> (\<And>x h. Q x h) \<Longrightarrow> submits P Q p h"
  by (induction p arbitrary: h) simp_all

text \<open>Along the steps of the system: every submission in a history was as guaranteed.\<close>

lemma submits_act:
  assumes "submits P Q p h" "act ops env p w = (p', w')"
  shows "submits P Q p' (h @ observation ops env p w)"
  using assms by (cases p) (auto split: prod.splits option.splits if_splits)

lemma observation_submits:
  assumes "submits P Q p h" "h @ observation ops env p w = h1 @ Submitted t a # h2"
  shows "P t h1 \<or> (\<exists>h3. h = h1 @ Submitted t a # h3)"
  using assms
  by (cases p) (auto simp: append_eq_append_conv2 Cons_eq_append_conv append_eq_Cons_conv)

lemma recorded_submissions:
  assumes "recorded ops env outside handler w0 ps w hs" "\<And>r. submits (P r) (\<lambda>_ _. True) (handler r) []"
    and "n < length ps" "ps ! n = (r, p)"
  shows "submits (P r) (\<lambda>_ _. True) p (hs ! n) \<and>
    (\<forall>h t a h'. hs ! n = h @ Submitted t a # h' \<longrightarrow> P r t h)"
  using assms(1,3,4)
proof (induction arbitrary: r p rule: recorded.induct)
  case (arrives ps w hs r')
  then show ?case
    using assms(2) recorded_length [OF arrives.hyps(1)] by (cases "n < length ps") (auto simp: nth_append)
next
  case (acts ps w hs i r' q p' w')
  have len: "length hs = length ps"
    using recorded_length [OF acts.hyps(1)] .
  show ?case
  proof (cases "n = i")
    case True
    have q: "submits (P r') (\<lambda>_ _. True) q (hs ! i)" "\<forall>h t a h'. hs ! i = h @ Submitted t a # h' \<longrightarrow> P r' t h"
      using acts.IH [of r' q] True acts.hyps(2,3) by auto
    have "r = r'" "p = p'"
      using acts.prems acts.hyps(2) True by auto
    moreover have "hs[i := hs ! i @ observation ops env q w] ! n = hs ! i @ observation ops env q w"
      using True acts.hyps(2) len by simp
    ultimately show ?thesis
      using submits_act [OF q(1) acts.hyps(4)] observation_submits [OF q(1), of ops env w] q(2) by metis
  next
    case False
    then show ?thesis
      using acts.IH [of r p] acts.prems by auto
  qed
qed simp_all

section \<open>Programs that submit nothing\<close>

named_theorems reading_rules \<open>introduction rules for programs that submit no transfer\<close>

definition reading :: "'a prog \<Rightarrow> bool" where
  "reading p \<longleftrightarrow> (\<forall>h P. submits P (\<lambda>_ h'. \<exists>h''. h' = h @ h'') p h)"

lemma submits_reading:
  assumes "reading p" "\<And>x h'. Q x (h @ h')"
  shows "submits P Q p h"
proof -
  have "submits P (\<lambda>_ h'. \<exists>h''. h' = h @ h'') p h"
    using assms(1) unfolding reading_def by blast
  then show ?thesis
    by (rule submits_mono) (use assms(2) in blast)
qed

lemma reading_seq [reading_rules]:
  assumes "reading p" "\<And>x. reading (f x)"
  shows "reading (seq p f)"
  unfolding reading_def submits_seq
proof (intro allI)
  fix h P
  show "submits P (\<lambda>x. submits P (\<lambda>_ h'. \<exists>h''. h' = h @ h'') (f x)) p h"
    using assms by (intro submits_reading) (auto intro: submits_reading)
qed

lemma reading_attempt [reading_rules]: "reading p \<Longrightarrow> (\<And>x. reading (f x)) \<Longrightarrow> reading (attempt p f)"
  unfolding attempt_def
  by (intro reading_seq) (auto simp: fail_def reading_def [where p = "Return _"] split: sum.split)

lemma reading_leaf [reading_rules]: "reading (Return x)" "reading Panic" "reading (fail e)"
  by (simp_all add: reading_def fail_def)

lemma reading_action [reading_rules]:
  "(\<And>t. reading (k1 t)) \<Longrightarrow> reading (Now k1)"
  "(\<And>x. reading (k2 x)) \<Longrightarrow> reading (AwaitRisk d k2)"
  "(\<And>x. reading (k3 x)) \<Longrightarrow> reading (CacheLoad i k3)"
  "(\<And>x. reading (k4 x)) \<Longrightarrow> reading (CacheStore i m k4)"
  "(\<And>x. reading (k5 x)) \<Longrightarrow> reading (BeginCall t k5)"
  "(\<And>x. reading (k6 x)) \<Longrightarrow> reading (CallLookupAccount i k6)"
  "(\<And>x. reading (k7 x)) \<Longrightarrow> reading (CallLookupTransfer i k7)"
  "reading q \<Longrightarrow> reading (EndCall ident t b q)"
  "reading q \<Longrightarrow> reading (EmitMetric mc q)"
  "reading q \<Longrightarrow> reading (EmitLog l q)"
  by (auto simp: reading_def [where p = "Now _"] reading_def [where p = "AwaitRisk _ _"]
      reading_def [where p = "CacheLoad _ _"] reading_def [where p = "CacheStore _ _ _"]
      reading_def [where p = "BeginCall _ _"] reading_def [where p = "CallLookupAccount _ _"]
      reading_def [where p = "CallLookupTransfer _ _"] reading_def [where p = "EndCall _ _ _ _"]
      reading_def [where p = "EmitMetric _ _"] reading_def [where p = "EmitLog _ _"]
      intro!: submits_reading)

lemma reading_branch [reading_rules]:
  "(c \<Longrightarrow> reading p) \<Longrightarrow> (\<not> c \<Longrightarrow> reading q) \<Longrightarrow> reading (if c then p else q)"
  "reading p \<Longrightarrow> (\<And>y. reading (f y)) \<Longrightarrow> reading (case x of None \<Rightarrow> p | Some y \<Rightarrow> f y)"
  "(\<And>y. reading (g y)) \<Longrightarrow> (\<And>z. reading (u z)) \<Longrightarrow> reading (case r of Inl y \<Rightarrow> g y | Inr z \<Rightarrow> u z)"
  "(\<And>y z. reading (d y z)) \<Longrightarrow> reading (case_prod d pr)"
  "reading (f v) \<Longrightarrow> reading (Let v f)"
  by (auto split: option.split sum.split prod.split)

lemma reading_service [reading_rules]:
  "reading (observed_LookupAccount s i)" "reading (observed_LookupTransfer s i)"
  "reading (storeMetadata i m)" "reading (requireAccountKind sdk s i k)" "reading (evaluateRisk s am)"
  "reading (observeCompletion s kind rid st am t ls as)"
  unfolding observed_LookupAccount_def observed_LookupTransfer_def observed_call_def storeMetadata_def
    requireAccountKind_def evaluateRisk_def observeCompletion_def
  by (intro reading_rules)+

lemma reading_increment [reading_rules]:
  "reading (increment_complete sdk s req original started st ls extra)"
  "reading (lookupExistingIncrement sdk s req original i auth started ms)"
  "reading (Increment_resolve s t result)"
  unfolding increment_complete_def lookupExistingIncrement_def Increment_resolve_def
  by (intro reading_rules)+

section \<open>Increments are submitted while the hold is open\<close>

text \<open>
  What is asked of a transfer that a request to increment an authorization submits, given the
  history before: the request looked up the authorization; what it found is a pending authorization
  of this service; the last clock reading before the one with which the call itself is observed lies
  before the expiry of the authorization; and the transfer repeats the authorization, for the
  requested amount and the time that remains.
\<close>

definition hold_expiry :: "Transfer \<Rightarrow> Time" where
  "hold_expiry hold = time_Unix_nsec (sint (Transfer_Timestamp hold)) + uint (Transfer_Timeout hold) * second"

definition increment_submission ::
  "SDK \<Rightarrow> Service \<Rightarrow> IncrementAuthorizationRequest \<Rightarrow> Transfer \<Rightarrow> event list \<Rightarrow> bool" where
  "increment_submission sdk s request t h \<longleftrightarrow>
     (\<exists>auth hold now.
        requestID sdk (Increment_RequestID request) = Inr (Transfer_ID t) \<and>
        parsePublicTigerBeetleID sdk (Increment_AuthorizationID request) = Inr auth \<and>
        LookedUp auth (Inr (hold, True)) \<in> set h \<and> \<not> notOpenAuthorization sdk s hold \<and>
        (\<exists>h' begun_at. h = h' @ [ClockRead now, ClockRead begun_at]) \<and> now < hold_expiry hold \<and>
        t = increment_transfer sdk s request hold (Transfer_ID t) auth
          (remainingSeconds hold (Time_Sub (hold_expiry hold) now)))"

lemma ledgerTime_expiry:
  "ledgerTime (Transfer_Timestamp hold) (uint (Transfer_Timeout hold) * second) = hold_expiry hold"
  by (simp add: ledgerTime_def hold_expiry_def Time_Add_def)

lemma Time_Sub_pos: "0 < Time_Sub t u \<longleftrightarrow> u < t"
  by (auto simp: Time_Sub_def)

lemma Increment_submit_submits:
  assumes "\<And>begun_at. P t (h @ [ClockRead begun_at])"
  shows "submits P (\<lambda>_ _. True) (Increment_submit sdk s req original t started ms) h"
proof -
  have "reading (case r of
      Inl err \<Rightarrow> seq (increment_complete sdk s req original started ''unknown'' ''request_error''
        [(''error'', LogError err)]) (\<lambda>_. fail err)
    | Inr created \<Rightarrow> attempt (Increment_resolve s t created) (\<lambda>result.
        let ledgerStatus = CreateTransferStatus_String sdk (TransferResult_Status result) in
        if isIdempotencyConflict (TransferResult_Status result) then
          seq (increment_complete sdk s req original started ''conflict'' ledgerStatus []) (\<lambda>_. fail ErrIdempotencyConflict)
        else let answer = Increment_answer sdk req ms result
          in seq (increment_complete sdk s req original started (IncResp_Status (fst answer)) ledgerStatus [])
            (\<lambda>_. Return (Inr answer))))" for r
    by (intro reading_rules)
  then show ?thesis
    using assms unfolding Increment_submit_def Let_def submits_seq observed_CreateTransfer_def observed_call_def
    by (auto intro!: submits_reading)
qed

lemma Increment_evaluate_submits:
  assumes id: "requestID sdk (Increment_RequestID req) = Inr i"
    and auth: "parsePublicTigerBeetleID sdk (Increment_AuthorizationID req) = Inr auth"
    and hold: "LookedUp auth (Inr (hold, True)) \<in> set h" "\<not> notOpenAuthorization sdk s hold"
  shows "submits (increment_submission sdk s req) (\<lambda>_ _. True) (Increment_evaluate sdk s req hold i auth started) h"
proof -
  have ID: "Transfer_ID (increment_transfer sdk s req hold i auth n) = i" for n
    by (simp add: increment_transfer_def)
  have timeout: "Transfer_Timeout hold \<noteq> 0"
    using hold(2) by (simp add: notOpenAuthorization_def)
  have submit: "submits (increment_submission sdk s req) (\<lambda>_ _. True) (Increment_submit sdk s req hold
      (increment_transfer sdk s req hold i auth (remainingSeconds hold (Time_Sub (hold_expiry hold) now)))
      started ms) h'"
    if "\<not> Time_Sub (hold_expiry hold) now \<le> 0" "LookedUp auth (Inr (hold, True)) \<in> set h'"
      "h' \<noteq> []" "last h' = ClockRead now" for now ms h'
  proof -
    have "h' @ [ClockRead t] = butlast h' @ [ClockRead now, ClockRead t]" for t
      using append_butlast_last_id [OF that(3)] that(4) by (metis append.assoc append_Cons append_Nil)
    moreover have "now < hold_expiry hold"
      using that(1) Time_Sub_pos [of "hold_expiry hold" now] by linarith
    ultimately have "increment_submission sdk s req (increment_transfer sdk s req hold i auth
        (remainingSeconds hold (Time_Sub (hold_expiry hold) now))) (h' @ [ClockRead t])" for t
      unfolding increment_submission_def ID using that(2) id auth hold(2)
      by (intro exI [of _ auth] exI [of _ hold] exI [of _ now]) auto
    then show ?thesis by (rule Increment_submit_submits)
  qed
  have replay: "reading (attempt (lookupExistingIncrement sdk s req hold i auth started ms)
      (\<lambda>answer. case answer of Some response \<Rightarrow> Return (Inr response) | None \<Rightarrow> p))" if "reading p" for ms p
    using that by (intro reading_rules)
  show ?thesis
    unfolding Increment_evaluate_def Let_def ledgerTime_expiry submits.simps submits_seq
    using hold(1) timeout
    by (auto intro!: submits_reading [OF reading_service(5)] submits_reading [OF replay] submit reading_rules
        simp: submits_reading [OF reading_leaf(3)] split: sum.split)
qed

lemma IncrementAuthorization_submits:
  "submits (increment_submission sdk s req) (\<lambda>_ _. True) (IncrementAuthorization sdk s req) h"
  unfolding IncrementAuthorization_def check_def attempt_def fail_def submits_seq observed_LookupTransfer_def
    observed_call_def
  by (auto intro!: Increment_evaluate_submits submits_reading [OF reading_service(4)] simp: submits_seq split: sum.split)

lemma serveHTTP_submits:
  "submits (\<lambda>t h. \<forall>input. r = PostIncrements input \<longrightarrow>
     (\<exists>request. decodeJSON input = Inr request \<and> increment_submission sdk s request t h)) (\<lambda>_ _. True)
     (serveHTTP sdk s r) []"
proof (cases "\<exists>input. r = PostIncrements input")
  case True
  then obtain input where r: "r = PostIncrements input" by blast
  have handler: "submits (\<lambda>t h. \<exists>request. decodeJSON input = Inr request \<and> increment_submission sdk s request t h)
      (\<lambda>_ _. True) (http_increment sdk s input) h" for h
    by (auto simp: http_increment_def respond_def submits_seq split: sum.split
        intro!: submits_mono [OF IncrementAuthorization_submits])
  show ?thesis
    by (auto simp: r serveHTTP_def recoverPanics_def server_handle_def HTTPMiddleware_def admission_Wrap_def
        LedgerHealth_read_def submits_seq intro!: submits_upon_exit submits_mono [OF handler])
qed (auto intro!: submits_trivial)

text \<open>
  The remaining time in whole seconds, rounded up and limited to the timeout of the hold; the
  conversion to 32 bits loses nothing for less than \<open>2\<^sup>3\<^sup>2\<close> seconds.
\<close>

lemma remainingSeconds_min:
  assumes "0 < remaining" "remaining \<le> 4294967295 * second"
  shows "\<exists>c. (c - 1) * second < remaining \<and> remaining \<le> c * second \<and>
    uint (remainingSeconds hold remaining) = min (uint (Transfer_Timeout hold)) c"
proof -
  let ?c = "(remaining + second - 1) div second"
  have c: "(?c - 1) * second < remaining" "remaining \<le> ?c * second" "0 \<le> ?c" "?c < 2 ^ 32"
    using assms by (auto simp: second_def)
  have "is_int64 (remaining + second)" "is_int64 (remaining + second - 1)"
    using assms by (auto simp: is_int64_def second_def)
  then have "wrap_int64 (wrap_int64 (remaining + second) - 1) sdiv second = ?c"
    using assms by (simp add: sdiv_nonneg_int second_def)
  then have "remainingSeconds hold remaining = min (word_of_int ?c) (Transfer_Timeout hold)"
    by (simp add: remainingSeconds_def)
  moreover have "uint (word_of_int ?c :: uint32) = ?c"
    using c(3,4) by (simp add: uint_word_of_int_eq take_bit_int_eq_self)
  ultimately have "uint (remainingSeconds hold remaining) = min (uint (Transfer_Timeout hold)) ?c"
    by (auto simp: min_def word_le_def)
  with c show ?thesis by blast
qed

text \<open>
  The specification of the same in terms of the fields (\<open>docs/ledger-model.md\<close>, "Authorization
  lifecycle").  A hold is a pending transfer with code 1101, to the card settlement account, that is
  its own authorization group and has a timeout.  An increment is a pending transfer with code 1102
  between the same accounts, in the same group and with the same merchant, for the requested amount.
  Its timeout covers what remains of the hold, in whole seconds, and never exceeds that of the hold.
\<close>

definition authorization_hold :: "SDK \<Rightarrow> Service \<Rightarrow> ledger_view \<Rightarrow> uint128 \<Rightarrow> Transfer \<Rightarrow> bool" where
  "authorization_hold sdk s K auth hold \<longleftrightarrow>
     view_transfers K auth = Some hold \<and> Transfer_Code hold = 1101 \<and>
     Transfer_TransferFlags sdk (Transfer_Flags hold) = \<lparr>Pending = True\<rparr> \<and>
     Transfer_Ledger hold = Service_ledgerID s \<and> Transfer_CreditAccountID hold = CardSettlementPayableAccountID sdk \<and>
     Transfer_UserData128 hold = auth \<and> Transfer_PendingID hold = 0 \<and> Transfer_Timeout hold \<noteq> 0"

definition increment_fields ::
  "SDK \<Rightarrow> Service \<Rightarrow> uint128 \<Rightarrow> uint128 \<Rightarrow> uint64 \<Rightarrow> Transfer \<Rightarrow> Transfer \<Rightarrow> bool" where
  "increment_fields sdk s i auth cents hold t \<longleftrightarrow>
     Transfer_ID t = i \<and> Transfer_Code t = 1102 \<and>
     Transfer_TransferFlags sdk (Transfer_Flags t) = \<lparr>Pending = True\<rparr> \<and>
     Transfer_Ledger t = Service_ledgerID s \<and> Transfer_PendingID t = 0 \<and>
     Transfer_DebitAccountID t = Transfer_DebitAccountID hold \<and>
     Transfer_CreditAccountID t = Transfer_CreditAccountID hold \<and>
     uint (Transfer_Amount t) = uint cents \<and> Transfer_UserData128 t = auth \<and>
     Transfer_UserData64 t = Transfer_UserData64 hold \<and> Transfer_UserData32 t = Transfer_UserData32 hold"

definition covers_rest :: "Transfer \<Rightarrow> Time \<Rightarrow> Transfer \<Rightarrow> bool" where
  "covers_rest hold now t \<longleftrightarrow>
     now < hold_expiry hold \<and> Transfer_Timeout t \<le> Transfer_Timeout hold \<and>
     (hold_expiry hold - now \<le> 4294967295 * second \<longrightarrow>
        (\<exists>c. (c - 1) * second < hold_expiry hold - now \<and> hold_expiry hold - now \<le> c * second \<and>
           uint (Transfer_Timeout t) = min (uint (Transfer_Timeout hold)) c))"

lemma authorization_holdI:
  assumes "tb_sdk sdk" "view_transfers K auth = Some hold" "\<not> notOpenAuthorization sdk s hold" "view_ok K"
  shows "authorization_hold sdk s K auth hold"
proof -
  have "Transfer_ID hold = auth"
    using assms(2,4) by (simp add: view_ok_def)
  with assms show ?thesis
    by (auto simp: authorization_hold_def notOpenAuthorization_def transfer_code_defs tb_sdk.TransferFlags_decode)
qed

lemma increment_fieldsI:
  assumes "tb_sdk sdk"
  shows "increment_fields sdk s i auth (Increment_IncrementCents request) hold
    ((increment_transfer sdk s request hold i auth timeout)\<lparr>Transfer_Timestamp := ts\<rparr>)"
    "increment_fields sdk s i auth (Increment_IncrementCents request) hold
    (increment_transfer sdk s request hold i auth timeout)"
  using assms
  by (auto simp: increment_fields_def increment_transfer_def zeroTransfer_def transfer_code_defs
      tb_sdk.TransferFlags_decode tb_sdk.uint_ToUint128)

lemma covers_restI:
  assumes "now < hold_expiry hold" "Transfer_Timeout t = remainingSeconds hold (Time_Sub (hold_expiry hold) now)"
  shows "covers_rest hold now t"
proof -
  have "Time_Sub (hold_expiry hold) now = hold_expiry hold - now"
    if "hold_expiry hold - now \<le> 4294967295 * second"
    using that assms(1) by (simp add: Time_Sub_def second_def)
  moreover have "remainingSeconds hold d \<le> Transfer_Timeout hold" for d
    by (simp add: remainingSeconds_def)
  ultimately show ?thesis
    using assms remainingSeconds_min [of "hold_expiry hold - now" hold] by (auto simp: covers_rest_def)
qed

text \<open>What the history of a request for an increment says of each of its submissions.\<close>

lemma serves_increment_submission:
  assumes "serves sdk s ops view linv env outside w0 ps w"
    and "recorded ops env outside (serveHTTP sdk s) w0 ps w hs"
    and "n < length ps" "ps ! n = (PostIncrements input, p)" "hs ! n = h @ Submitted t a # h'"
  obtains request auth hold now h0 begun_at where "decodeJSON input = Inr request"
    "requestID sdk (Increment_RequestID request) = Inr (Transfer_ID t)"
    "parsePublicTigerBeetleID sdk (Increment_AuthorizationID request) = Inr auth"
    "authorization_hold sdk s (view (w_ledger w)) auth hold"
    "increment_fields sdk s (Transfer_ID t) auth (Increment_IncrementCents request) hold t"
    "h = h0 @ [ClockRead now, ClockRead begun_at]" "covers_rest hold now t"
proof -
  obtain request where request: "decodeJSON input = Inr request" "increment_submission sdk s request t h"
    using recorded_submissions [OF assms(2) serveHTTP_submits assms(3,4)] assms(5) by blast
  then obtain auth hold now h0 begun_at where rest: "requestID sdk (Increment_RequestID request) = Inr (Transfer_ID t)"
    "parsePublicTigerBeetleID sdk (Increment_AuthorizationID request) = Inr auth"
    "LookedUp auth (Inr (hold, True)) \<in> set h" "\<not> notOpenAuthorization sdk s hold"
    "h = h0 @ [ClockRead now, ClockRead begun_at]" "now < hold_expiry hold"
    "t = increment_transfer sdk s request hold (Transfer_ID t) auth
      (remainingSeconds hold (Time_Sub (hold_expiry hold) now))"
    unfolding increment_submission_def by blast
  have "view_transfers (view (w_ledger w)) auth = Some hold"
    using serves_remembers [OF assms(1-3)] rest(3) assms(5) by (simp add: remembers_def)
  moreover have sdk: "tb_sdk sdk"
    using assms(1) by (simp add: serves_def)
  ultimately have "authorization_hold sdk s (view (w_ledger w)) auth hold"
    using rest(4) serves_view_ok [OF assms(1)] by (intro authorization_holdI)
  moreover have "increment_fields sdk s (Transfer_ID t) auth (Increment_IncrementCents request) hold t"
    using increment_fieldsI(2) [OF sdk] rest(7) by metis
  moreover have "Transfer_Timeout t = remainingSeconds hold (Time_Sub (hold_expiry hold) now)"
    using arg_cong [OF rest(7), of Transfer_Timeout] by (simp add: increment_transfer_def)
  from covers_restI [OF rest(6) this] have "covers_rest hold now t" .
  ultimately show ?thesis
    using that request(1) rest(1,2,5) by blast
qed

end
