(* ===== verification/Service_Properties.thy ===== *)
theory Service_Properties
  imports Example_Run Request_History
begin

text \<open>
  Properties of single components of the service, each with an example: the recognition of accounts,
  identifiers, the comparison of transfers, the timeout of an increment, error answers, admission
  decisions, the status-capturing writer and the test double of the ledger.
\<close>

section \<open>Accounts and identifiers\<close>

text \<open>
  C31.  The check of an account and its recipe agree.  An account found in the ledger is accepted, with
  its kind and parent, exactly when it is what \<open>Account\<close> builds for that kind, up to balances and
  timestamp, under the ID reserved for the kind; in particular no other account is ever used as a
  wallet.
\<close>

theorem recognised_iff_recipe:
  assumes "tb_sdk sdk"
  shows "metadataForAccount sdk s a = Some m \<longleftrightarrow>
    ledger_Account sdk (meta_kind m) (Account_ID a) (Account_UserData128 a) (Service_ledgerID s) =
      Inr ((account_meta a)\<lparr>Account_Timestamp := 0\<rparr>) \<and>
    meta_corporateAccountID m = Account_UserData128 a \<and>
    (meta_kind m = AccountSafeguardedCash \<longleftrightarrow> Account_ID a = 1) \<and>
    (meta_kind m = AccountCardSettlementPayable \<longleftrightarrow> Account_ID a = 2)"
  using assms by (rule tb_sdk.metadataForAccount_iff)

theorem recognised_iff_recipe_witness:
  "ledger_Account reference_sdk AccountCorporateWallet 0xa0 0 1 =
     Inr ((account_meta (example_account 0xa0 2001 2 0 0 50000))\<lparr>Account_Timestamp := 0\<rparr>)"
  using recognised_iff_recipe [OF ref.tb_sdk_axioms, of example_service "example_account 0xa0 2001 2 0 0 50000"
      "\<lparr>meta_kind = AccountCorporateWallet, meta_corporateAccountID = 0\<rparr>"]
  by (simp add: example_account_def zeroAccount_def)






section \<open>Transfers\<close>

text \<open>
  Comparing transfers field by field is equality of everything the caller determines: all fields
  but the timestamp the ledger assigns, and for increments also but the timeout.
\<close>

lemma same_transfer_iff:
  "(sameTransfer left right \<longleftrightarrow> left\<lparr>Transfer_Timestamp := 0\<rparr> = right\<lparr>Transfer_Timestamp := 0\<rparr>) \<and>
   (sameTransferExceptTimeout left right \<longleftrightarrow>
      left\<lparr>Transfer_Timestamp := 0, Transfer_Timeout := 0\<rparr> = right\<lparr>Transfer_Timestamp := 0, Transfer_Timeout := 0\<rparr>)"
  by (cases left, cases right) (auto simp: sameTransfer_def sameTransferExceptTimeout_def same_payload_def)

text \<open>
  C33.  The timeout of an increment is the remaining lifetime of the original hold rounded up to whole
  seconds, or the timeout of the hold when that is less, as with a clock that is behind the one of the
  ledger: the 64-bit and 32-bit computations neither overflow nor truncate for any positive remaining
  time of less than \<open>2\<^sup>3\<^sup>2\<close> seconds.  The increment therefore never has a longer timeout than the hold,
  is never without one, and outlives what remains by less than a second.
\<close>

theorem remaining_seconds_exact:
  assumes "0 < remaining" "remaining \<le> 4294967295 * second"
  shows "(\<exists>c. (c - 1) * second < remaining \<and> remaining \<le> c * second \<and>
      uint (remainingSeconds original remaining) = min (uint (Transfer_Timeout original)) c) \<and>
    uint (remainingSeconds original remaining) * second < remaining + second \<and>
    (Transfer_Timeout original \<noteq> 0 \<longrightarrow> 1 \<le> uint (remainingSeconds original remaining))"
proof -
  let ?n = "uint (remainingSeconds original remaining)"
  obtain c where c: "(c - 1) * second < remaining" "remaining \<le> c * second"
      "?n = min (uint (Transfer_Timeout original)) c"
    using remainingSeconds_min [OF assms] by blast
  then have "?n * second < remaining + second" "1 \<le> c"
    using assms(1) by (auto simp: second_def)
  moreover have "1 \<le> uint (Transfer_Timeout original)" if "Transfer_Timeout original \<noteq> 0"
    using that uint_0_iff [of "Transfer_Timeout original"] uint_nonnegative [of "Transfer_Timeout original"] by linarith
  ultimately show ?thesis
    using c by auto
qed

text \<open>A second and a half is rounded up to two seconds, and two hours are cut to the hour of the hold.\<close>

theorem remaining_seconds_exact_witness:
  "uint (remainingSeconds (zeroTransfer\<lparr>Transfer_Timeout := 3600\<rparr>) 1500000000) = 2 \<and>
   uint (remainingSeconds (zeroTransfer\<lparr>Transfer_Timeout := 3600\<rparr>) (7200 * second)) = 3600"
proof -
  let ?hold = "zeroTransfer\<lparr>Transfer_Timeout := 3600\<rparr>"
  obtain c where c: "(c - 1) * second < 1500000000" "1500000000 \<le> c * second"
      "uint (remainingSeconds ?hold 1500000000) = min (uint (Transfer_Timeout ?hold)) c"
    using remaining_seconds_exact [of 1500000000 ?hold] by (auto simp: second_def)
  then have "c = 2" by (auto simp: second_def)
  obtain d where d: "(d - 1) * second < 7200 * second" "7200 * second \<le> d * second"
      "uint (remainingSeconds ?hold (7200 * second)) = min (uint (Transfer_Timeout ?hold)) d"
    using remaining_seconds_exact [of "7200 * second" ?hold] by (auto simp: second_def)
  then have "d = 7200" by (auto simp: second_def)
  with c(3) d(3) \<open>c = 2\<close> show ?thesis by simp
qed

section \<open>Errors and admission\<close>

text \<open>Wrapping an error with \<open>fmt.Errorf\<close> changes neither its HTTP status nor its error code.\<close>

lemma wrapping_keeps_classification:
  "Http_status (writeError (Errorf before err after)) = Http_status (writeError err) \<and>
   (case (Http_body (writeError (Errorf before err after)), Http_body (writeError err)) of
      (BodyError wrapped, BodyError plain) \<Rightarrow> ErrorResp_ErrorCode wrapped = ErrorResp_ErrorCode plain
    | _ \<Rightarrow> False)"
  by (simp add: writeError_def writeJSON_def error_body_def)

text \<open>The requests that pass admission control.\<close>

fun is_operation :: "HttpRequest \<Rightarrow> bool" where
  "is_operation GetLive = False"
| "is_operation GetReady = False"
| "is_operation HeadLive = False"
| "is_operation HeadReady = False"
| "is_operation _ = True"

lemma run_serveHTTP:
  assumes "run ops env (serveMux sdk s r) w = (Some resp, w')"
  shows "run ops env (serveHTTP sdk s r) w = (Some resp, w')"
  using assms by (simp add: serveHTTP_def recoverPanics_def prog_simps)

lemma serveMux_rejects:
  assumes "\<And>p. run ops env (admission_Wrap p) w = (Some resp, w')" "is_operation r"
  shows "\<exists>ms. run ops env (serveMux sdk s r) w = (Some resp, w'\<lparr>w_metrics := w_metrics w' @ ms\<rparr>)"
  using assms by (cases r) (auto simp: server_handle_def HTTPMiddleware_def prog_simps)

text \<open>
  C34.  The service sheds load.  While the oldest ledger call is older than the stall threshold, and
  when no slot is free, every operation is answered with 503, a Retry-After header and the code
  \<open>ledger_stalled\<close> or \<open>overloaded\<close>, without touching the ledger, the cache, the slots or the calls in
  flight.
\<close>

theorem admission_rejects:
  assumes "is_operation r"
    and "Health_Ready (observed_Health (env_now env (w_tick w)) (w_observed w)) \<Longrightarrow> env_slots env \<le> w_slots w"
  shows "\<exists>resp w' message. run ops env (serveHTTP sdk s r) w = (Some resp, w') \<and>
    Http_status resp = 503 \<and> Http_retryAfter resp \<and>
    Http_body resp = error_body
      (if Health_Ready (observed_Health (env_now env (w_tick w)) (w_observed w)) then ''overloaded'' else ''ledger_stalled'')
      message \<and>
    w_ledger w' = w_ledger w \<and> w_cache w' = w_cache w \<and> w_slots w' = w_slots w \<and> w_observed w' = w_observed w"
proof -
  let ?ready = "Health_Ready (observed_Health (env_now env (w_tick w)) (w_observed w))"
  define code where "code = (if ?ready then ''overloaded'' else ''ledger_stalled'')"
  define resp where "resp = (writeJSON 503 (error_body code (if ?ready
    then ''too many operations are in flight; retry the same request''
    else ''the ledger is not responding; retry the same request'')))\<lparr>Http_retryAfter := True\<rparr>"
  define w1 where "w1 = (w_advance w)\<lparr>w_metrics := w_metrics w @
    [ObserveAdmissionRejection (if ?ready then ''capacity'' else ''ledger_stalled'')]\<rparr>"
  have "run ops env (admission_Wrap p) w = (Some resp, w1)" for p
    using assms(2) by (cases ?ready) (simp_all add: admission_Wrap_def LedgerHealth_read_def w_advance_def resp_def w1_def code_def)
  from serveMux_rejects [OF this assms(1)] obtain ms
    where "run ops env (serveMux sdk s r) w = (Some resp, w1\<lparr>w_metrics := w_metrics w1 @ ms\<rparr>)" by blast
  from run_serveHTTP [OF this] show ?thesis
    by (auto simp: resp_def w1_def code_def writeJSON_def w_advance_def)
qed

theorem admission_rejects_witness:
  "(\<exists>resp w'. run (fake_ops reference_sdk) example_env (serveHTTP reference_sdk example_service (example_topup 500))
     (example_world\<lparr>w_observed := (newObservedLedger second False)
        \<lparr>obs_nextID := 1, obs_active := [(1, 5)], obs_oldestID := 1, obs_oldestStarted := 5\<rparr>\<rparr>) = (Some resp, w') \<and>
     Http_status resp = 503 \<and> w_ledger w' = w_ledger example_world) \<and>
   (\<exists>resp w'. run (fake_ops reference_sdk) example_env (serveHTTP reference_sdk example_service (example_topup 500))
     (example_world\<lparr>w_slots := 8\<rparr>) = (Some resp, w') \<and> Http_status resp = 503 \<and> w_slots w' = 8)"
proof -
  let ?w = "example_world\<lparr>w_observed := (newObservedLedger second False)
    \<lparr>obs_nextID := 1, obs_active := [(1, 5)], obs_oldestID := 1, obs_oldestStarted := 5\<rparr>\<rparr>"
  have stalled: "is_operation (example_topup 500)"
      "\<not> Health_Ready (observed_Health (env_now example_env (w_tick ?w)) (w_observed ?w))"
    by (simp_all add: example_run pure_run)
  let ?full = "example_world\<lparr>w_slots := 8\<rparr>"
  have full: "env_slots example_env \<le> w_slots ?full"
    by (simp add: example_run pure_run)
  note rejects = admission_rejects [where env = example_env and ops = "fake_ops reference_sdk" and
      sdk = reference_sdk and s = example_service, OF stalled(1)]
  from rejects [of ?w] rejects [of ?full] stalled(2) full show ?thesis by fastforce
qed

section \<open>Other components\<close>

text \<open>
  C35.  The ledger of the tests keeps the contract: \<open>fakeLedger\<close> satisfies every law the service relies
  on, in every state its operations reach.
\<close>

theorem fake_refines_contract:
  assumes "tb_sdk sdk"
  shows "ledger_contract (fake_ops sdk) (fake_view sdk) (fake_inv sdk) \<and> fake_inv sdk (newFakeLedger ts)"
  using tb_sdk.fake_contract [OF assms] fake_inv_new by blast

theorem fake_refines_contract_witness: "fake_inv reference_sdk (newFakeLedger 1000)"
  using fake_refines_contract [OF ref.tb_sdk_axioms] by blast

end
