(* ===== verification/Configuration.thy ===== *)
theory Configuration
  imports Reference_SDK Go_Parse
begin

text \<open>
  \<open>internal/config/config.go\<close>: the configuration read from the environment.  The argument
  \<open>getenv\<close> is \<open>os.Getenv\<close>: the value of a variable, or the empty string.
\<close>

section \<open>Reading variables\<close>

record Config =
  Config_HTTPAddress :: string
  Config_TigerBeetleClusterID :: uint128
  Config_TigerBeetleAddresses :: "string list"
  Config_LedgerID :: uint32
  Config_AuthorizationTimeout :: Duration
  Config_RiskEvaluationDelay :: Duration
  Config_RiskAutoApproveLimitCents :: uint64
  Config_MaxConcurrentRequests :: int
  Config_LedgerStallThreshold :: Duration
  Config_AccountMetadataCacheSize :: int

definition go_env :: "(string \<Rightarrow> string) \<Rightarrow> string \<Rightarrow> string \<Rightarrow> string" where
  "go_env getenv key fallback = (if getenv key \<noteq> [] then getenv key else fallback)"

definition durationEnv :: "(string \<Rightarrow> string) \<Rightarrow> string \<Rightarrow> Duration \<Rightarrow> Duration option" where
  "durationEnv getenv key fallback =
     (if getenv key = [] then Some fallback else ParseDuration (getenv key))"

definition uint32Env :: "(string \<Rightarrow> string) \<Rightarrow> string \<Rightarrow> uint32 \<Rightarrow> uint32 option" where
  "uint32Env getenv key fallback =
     (if getenv key = [] then Some fallback
      else map_option word_of_int (ParseUint (getenv key) 32))"

definition uint64Env :: "(string \<Rightarrow> string) \<Rightarrow> string \<Rightarrow> uint64 \<Rightarrow> uint64 option" where
  "uint64Env getenv key fallback =
     (if getenv key = [] then Some fallback
      else map_option word_of_int (ParseUint (getenv key) 64))"

definition intEnv :: "(string \<Rightarrow> string) \<Rightarrow> string \<Rightarrow> int \<Rightarrow> int option" where
  "intEnv getenv key fallback = (if getenv key = [] then Some fallback else Atoi (getenv key))"

section \<open>Loading\<close>

text \<open>\<open>v, err := read; if err != nil || bad(v) { return message }\<close>.\<close>

definition require :: "'a option \<Rightarrow> ('a \<Rightarrow> bool) \<Rightarrow> string \<Rightarrow> ('a \<Rightarrow> Error + 'b) \<Rightarrow> Error + 'b" where
  "require read bad message k =
     (case read of
        None \<Rightarrow> Inl (NewError message)
      | Some v \<Rightarrow> if bad v then Inl (NewError message) else k v)"

definition Load :: "SDK \<Rightarrow> (string \<Rightarrow> string) \<Rightarrow> Error + Config" where
  "Load sdk getenv =
     (case HexStringToUint128 sdk (go_env getenv ''TB_CLUSTER_ID'' ''0'') of
        Inl err \<Rightarrow> Inl (Errorf ''TB_CLUSTER_ID: '' err [])
      | Inr clusterID \<Rightarrow>
     require (uint32Env getenv ''TB_LEDGER_ID'' 1) (\<lambda>v. v = 0)
       ''TB_LEDGER_ID must be a non-zero uint32'' (\<lambda>ledgerID.
     require (durationEnv getenv ''AUTHORIZATION_TIMEOUT'' (3600 * second))
       (\<lambda>v. v < second \<or> v > 4294967295 * second)
       ''AUTHORIZATION_TIMEOUT must be between 1s and 4294967295s'' (\<lambda>authorizationTimeout.
     require (durationEnv getenv ''RISK_EVALUATION_DELAY'' (200 * millisecond)) (\<lambda>v. v < 0)
       ''RISK_EVALUATION_DELAY must be a non-negative duration'' (\<lambda>riskDelay.
     require (uint64Env getenv ''RISK_AUTO_APPROVE_LIMIT_CENTS'' 100000) (\<lambda>v. v = 0)
       ''RISK_AUTO_APPROVE_LIMIT_CENTS must be a positive uint64'' (\<lambda>riskLimit.
     require (intEnv getenv ''MAX_CONCURRENT_REQUESTS'' 4096) (\<lambda>v. v \<le> 0 \<or> v > 1000000)
       ''MAX_CONCURRENT_REQUESTS must be between 1 and 1000000'' (\<lambda>maxConcurrentRequests.
     require (durationEnv getenv ''LEDGER_STALL_THRESHOLD'' (2 * second))
       (\<lambda>v. v < 100 * millisecond \<or> v > 60 * second)
       ''LEDGER_STALL_THRESHOLD must be between 100ms and 1m'' (\<lambda>ledgerStallThreshold.
     require (intEnv getenv ''ACCOUNT_METADATA_CACHE_SIZE'' 100000) (\<lambda>v. v < 0 \<or> v > 10000000)
       ''ACCOUNT_METADATA_CACHE_SIZE must be between 0 and 10000000'' (\<lambda>accountMetadataCacheSize.
     let addresses = map TrimSpace (Split (CHR '','') (go_env getenv ''TB_ADDRESSES'' ''127.0.0.1:3000''))
     in if [] \<in> set addresses then Inl (NewError ''TB_ADDRESSES contains an empty address'')
        else Inr
          \<lparr>Config_HTTPAddress = go_env getenv ''HTTP_ADDRESS'' '':8080'',
           Config_TigerBeetleClusterID = clusterID,
           Config_TigerBeetleAddresses = addresses,
           Config_LedgerID = ledgerID,
           Config_AuthorizationTimeout = authorizationTimeout,
           Config_RiskEvaluationDelay = riskDelay,
           Config_RiskAutoApproveLimitCents = riskLimit,
           Config_MaxConcurrentRequests = maxConcurrentRequests,
           Config_LedgerStallThreshold = ledgerStallThreshold,
           Config_AccountMetadataCacheSize = accountMetadataCacheSize\<rparr>))))))))"

section \<open>Lemmas\<close>

text \<open>What a configuration that was accepted satisfies.\<close>

definition valid_config :: "Config \<Rightarrow> bool" where
  "valid_config c \<longleftrightarrow>
     Config_LedgerID c \<noteq> 0 \<and>
     second \<le> Config_AuthorizationTimeout c \<and>
     Config_AuthorizationTimeout c \<le> 4294967295 * second \<and>
     0 \<le> Config_RiskEvaluationDelay c \<and>
     Config_RiskAutoApproveLimitCents c \<noteq> 0 \<and>
     0 < Config_MaxConcurrentRequests c \<and> Config_MaxConcurrentRequests c \<le> 1000000 \<and>
     100 * millisecond \<le> Config_LedgerStallThreshold c \<and>
     Config_LedgerStallThreshold c \<le> 60 * second \<and>
     0 \<le> Config_AccountMetadataCacheSize c \<and> Config_AccountMetadataCacheSize c \<le> 10000000 \<and>
     Config_TigerBeetleAddresses c \<noteq> [] \<and> [] \<notin> set (Config_TigerBeetleAddresses c)"

lemma require_Inr:
  "require read bad message k = Inr x \<longleftrightarrow> (\<exists>v. read = Some v \<and> \<not> bad v \<and> k v = Inr x)"
  by (simp add: require_def split: option.splits)

lemma Load_valid: "Load sdk getenv = Inr c \<Longrightarrow> valid_config c"
  by (auto simp: Load_def require_Inr Let_def valid_config_def not_le not_less
      split: sum.splits if_splits)

text \<open>Variables that hold printed numbers and durations.\<close>

lemma Atoi_show: "Atoi (show_nat n) = (if int n < 2 ^ 63 then Some (int n) else None)"
proof -
  have "hd (show_nat n) \<noteq> CHR ''-''" "hd (show_nat n) \<noteq> CHR ''+''"
    using hd_show_nat [of n] by (auto simp: is_digit_def)
  then show ?thesis
    by (auto simp: Atoi_def ParseUint_show Let_def)
qed

lemma env_numbers:
  assumes "getenv key = show_nat n"
  shows "uint32Env getenv key x = (if int n < 2 ^ 32 then Some (word_of_nat n) else None)"
    "uint64Env getenv key y = (if int n < 2 ^ 64 then Some (word_of_nat n) else None)"
    "intEnv getenv key z = (if int n < 2 ^ 63 then Some (int n) else None)"
  using assms by (simp_all add: uint32Env_def uint64Env_def intEnv_def ParseUint_show Atoi_show)

lemma env_duration:
  "getenv key = show_nat n @ ''ns'' \<Longrightarrow> int n < 2 ^ 63 \<Longrightarrow> durationEnv getenv key d = Some (int n)"
  using ParseDuration_unit [of "''ns''" 1 n] by (simp add: durationEnv_def unitMap_def)

text \<open>A configuration written into the environment.\<close>

definition config_env :: "SDK \<Rightarrow> Config \<Rightarrow> string \<Rightarrow> string" where
  "config_env sdk c key =
     (case map_of
        [(''HTTP_ADDRESS'', Config_HTTPAddress c),
         (''TB_CLUSTER_ID'', Uint128_String sdk (Config_TigerBeetleClusterID c)),
         (''TB_ADDRESSES'', Join (CHR '','') (Config_TigerBeetleAddresses c)),
         (''TB_LEDGER_ID'', show_nat (unat (Config_LedgerID c))),
         (''AUTHORIZATION_TIMEOUT'', show_nat (nat (Config_AuthorizationTimeout c)) @ ''ns''),
         (''RISK_EVALUATION_DELAY'', show_nat (nat (Config_RiskEvaluationDelay c)) @ ''ns''),
         (''RISK_AUTO_APPROVE_LIMIT_CENTS'', show_nat (unat (Config_RiskAutoApproveLimitCents c))),
         (''MAX_CONCURRENT_REQUESTS'', show_nat (nat (Config_MaxConcurrentRequests c))),
         (''LEDGER_STALL_THRESHOLD'', show_nat (nat (Config_LedgerStallThreshold c)) @ ''ns''),
         (''ACCOUNT_METADATA_CACHE_SIZE'', show_nat (nat (Config_AccountMetadataCacheSize c)))] key
      of None \<Rightarrow> [] | Some v \<Rightarrow> v)"

lemma Join_nonempty: "ws \<noteq> [] \<Longrightarrow> [] \<notin> set ws \<Longrightarrow> Join sep ws \<noteq> []"
  by (cases ws) (auto simp: Join_Cons)

lemma config_env_read:
  assumes "valid_config c" "Config_RiskEvaluationDelay c < 2 ^ 63"
  shows "uint32Env (config_env sdk c) ''TB_LEDGER_ID'' a = Some (Config_LedgerID c)"
    "durationEnv (config_env sdk c) ''AUTHORIZATION_TIMEOUT'' d = Some (Config_AuthorizationTimeout c)"
    "durationEnv (config_env sdk c) ''RISK_EVALUATION_DELAY'' d = Some (Config_RiskEvaluationDelay c)"
    "uint64Env (config_env sdk c) ''RISK_AUTO_APPROVE_LIMIT_CENTS'' b =
       Some (Config_RiskAutoApproveLimitCents c)"
    "intEnv (config_env sdk c) ''MAX_CONCURRENT_REQUESTS'' i = Some (Config_MaxConcurrentRequests c)"
    "durationEnv (config_env sdk c) ''LEDGER_STALL_THRESHOLD'' d = Some (Config_LedgerStallThreshold c)"
    "intEnv (config_env sdk c) ''ACCOUNT_METADATA_CACHE_SIZE'' i =
       Some (Config_AccountMetadataCacheSize c)"
proof -
  have lt: "int (unat (Config_LedgerID c)) < 2 ^ 32" "int (unat (Config_RiskAutoApproveLimitCents c)) < 2 ^ 64"
    using uint_lt2p [of "Config_LedgerID c"] uint_lt2p [of "Config_RiskAutoApproveLimitCents c"]
    by (simp_all flip: uint_nat)
  note bounds = assms [unfolded valid_config_def second_def millisecond_def]
  show "uint32Env (config_env sdk c) ''TB_LEDGER_ID'' a = Some (Config_LedgerID c)"
    using lt(1) by (subst env_numbers(1) [where n = "unat (Config_LedgerID c)"])
      (simp_all add: config_env_def)
  show "uint64Env (config_env sdk c) ''RISK_AUTO_APPROVE_LIMIT_CENTS'' b =
       Some (Config_RiskAutoApproveLimitCents c)"
    using lt(2) by (subst env_numbers(2) [where n = "unat (Config_RiskAutoApproveLimitCents c)"])
      (simp_all add: config_env_def)
  show "intEnv (config_env sdk c) ''MAX_CONCURRENT_REQUESTS'' i = Some (Config_MaxConcurrentRequests c)"
    using bounds by (subst env_numbers(3) [where n = "nat (Config_MaxConcurrentRequests c)"])
      (simp_all add: config_env_def)
  show "intEnv (config_env sdk c) ''ACCOUNT_METADATA_CACHE_SIZE'' i =
       Some (Config_AccountMetadataCacheSize c)"
    using bounds by (subst env_numbers(3) [where n = "nat (Config_AccountMetadataCacheSize c)"])
      (simp_all add: config_env_def)
  show "durationEnv (config_env sdk c) ''AUTHORIZATION_TIMEOUT'' d = Some (Config_AuthorizationTimeout c)"
    "durationEnv (config_env sdk c) ''RISK_EVALUATION_DELAY'' d = Some (Config_RiskEvaluationDelay c)"
    "durationEnv (config_env sdk c) ''LEDGER_STALL_THRESHOLD'' d = Some (Config_LedgerStallThreshold c)"
    using bounds by (simp_all add: config_env_def env_duration)
qed

text \<open>The configuration of an empty environment.\<close>

definition default_config :: Config where
  "default_config =
     \<lparr>Config_HTTPAddress = '':8080'', Config_TigerBeetleClusterID = 0,
      Config_TigerBeetleAddresses = [''127.0.0.1:3000''], Config_LedgerID = 1,
      Config_AuthorizationTimeout = 3600 * second, Config_RiskEvaluationDelay = 200 * millisecond,
      Config_RiskAutoApproveLimitCents = 100000, Config_MaxConcurrentRequests = 4096,
      Config_LedgerStallThreshold = 2 * second, Config_AccountMetadataCacheSize = 100000\<rparr>"

section \<open>Properties\<close>

text \<open>
  C28.  Every configuration within the bounds can be loaded: written into the environment with its
  numbers in decimal, its durations in nanoseconds and its addresses separated by commas, it is
  read back exactly.
\<close>

theorem Load_roundtrip:
  assumes "valid_config c" "Config_RiskEvaluationDelay c < 2 ^ 63" "Config_HTTPAddress c \<noteq> []"
    and "\<forall>a \<in> set (Config_TigerBeetleAddresses c). CHR '','' \<notin> set a \<and> TrimSpace a = a"
    and "Uint128_String sdk (Config_TigerBeetleClusterID c) \<noteq> []"
    and "HexStringToUint128 sdk (Uint128_String sdk (Config_TigerBeetleClusterID c)) =
      Inr (Config_TigerBeetleClusterID c)"
  shows "Load sdk (config_env sdk c) = Inr c"
proof -
  let ?go_env = "config_env sdk c"
  have v: "Config_TigerBeetleAddresses c \<noteq> []" "[] \<notin> set (Config_TigerBeetleAddresses c)"
    using assms(1) by (simp_all add: valid_config_def)
  have "Split (CHR '','') (Join (CHR '','') (Config_TigerBeetleAddresses c)) = Config_TigerBeetleAddresses c"
    using v(1) assms(4) by (intro Split_Join) auto
  moreover have "go_env ?go_env ''TB_ADDRESSES'' a = Join (CHR '','') (Config_TigerBeetleAddresses c)" for a
    using Join_nonempty [OF v] by (simp add: go_env_def config_env_def)
  moreover have "map TrimSpace (Config_TigerBeetleAddresses c) = Config_TigerBeetleAddresses c"
    using assms(4) by (simp add: map_idI)
  ultimately have "map TrimSpace (Split (CHR '','') (go_env ?go_env ''TB_ADDRESSES'' a)) =
      Config_TigerBeetleAddresses c" for a
    by simp
  moreover have "go_env ?go_env ''TB_CLUSTER_ID'' a = Uint128_String sdk (Config_TigerBeetleClusterID c)"
      "go_env ?go_env ''HTTP_ADDRESS'' a = Config_HTTPAddress c" for a
    using assms(3,5) by (simp_all add: go_env_def config_env_def)
  ultimately show ?thesis
    using assms(1,6) v config_env_read [OF assms(1,2)]
    by (simp add: Load_def require_def Let_def valid_config_def not_less)
qed

theorem Load_roundtrip_witness:
  "Load reference_sdk (config_env reference_sdk default_config) = Inr default_config"
proof (rule Load_roundtrip)
  show "valid_config default_config" by code_simp
  show "\<forall>a \<in> set (Config_TigerBeetleAddresses default_config). CHR '','' \<notin> set a \<and> TrimSpace a = a"
    by code_simp
  show "HexStringToUint128 reference_sdk
      (Uint128_String reference_sdk (Config_TigerBeetleClusterID default_config)) =
      Inr (Config_TigerBeetleClusterID default_config)"
    by (rule ref.Hex_String)
qed (simp_all add: default_config_def reference_sdk_def hex_print.simps second_def millisecond_def)

end
