(* ===== verification/Ledger_Client.thy ===== *)
theory Ledger_Client
  imports Fake_Ledger
begin

text \<open>
  \<open>internal/ledger/client.go\<close>: the adapter between the batch calls of \<open>tigerbeetle-go\<close> and the
  interface \<open>service.Ledger\<close> of single calls.  The batch client is a parameter.  The locale
  \<open>tb_client\<close> states what the service relies on for a batch of one element, and the adapter turns
  every such client into one that meets \<open>ledger_contract\<close>.
\<close>

section \<open>The adapter\<close>

record 'l Client =
  Client_CreateAccounts :: "Account list \<Rightarrow> 'l \<Rightarrow> (Error + CreateAccountResult list) \<times> 'l"
  Client_CreateTransfers :: "Transfer list \<Rightarrow> 'l \<Rightarrow> (Error + CreateTransferResult list) \<times> 'l"
  Client_LookupAccounts :: "uint128 list \<Rightarrow> 'l \<Rightarrow> (Error + Account list) \<times> 'l"
  Client_LookupTransfers :: "uint128 list \<Rightarrow> 'l \<Rightarrow> (Error + Transfer list) \<times> 'l"
  Client_Close :: "'l \<Rightarrow> 'l"

definition NewClient ::
  "(uint128 \<Rightarrow> string list \<Rightarrow> Error + 'c) \<Rightarrow> uint128 \<Rightarrow> string list \<Rightarrow> Error + 'c" where
  "NewClient tb_NewClient clusterID addresses =
     (case tb_NewClient clusterID addresses of
        Inl err \<Rightarrow> Inl (Errorf ''initialize TigerBeetle client: '' err [])
      | Inr client \<Rightarrow> Inr client)"

definition client_CreateAccount :: "'l Client \<Rightarrow> Account \<Rightarrow> 'l \<Rightarrow> (Error + CreateAccountResult) \<times> 'l" where
  "client_CreateAccount c account l =
     (case Client_CreateAccounts c [account] l of
        (Inl err, l') \<Rightarrow> (Inl (Errorf ''create account: '' err []), l')
      | (Inr results, l') \<Rightarrow>
          if length results \<noteq> 1
          then (Inl (NewError (''create account: expected 1 result, received '' @
                  show_nat (length results))), l')
          else (Inr (results ! 0), l'))"

definition client_CreateTransfer ::
  "'l Client \<Rightarrow> Transfer \<Rightarrow> 'l \<Rightarrow> (Error + CreateTransferResult) \<times> 'l" where
  "client_CreateTransfer c transfer l =
     (case Client_CreateTransfers c [transfer] l of
        (Inl err, l') \<Rightarrow> (Inl (Errorf ''create transfer: '' err []), l')
      | (Inr results, l') \<Rightarrow>
          if length results \<noteq> 1
          then (Inl (NewError (''create transfer: expected 1 result, received '' @
                  show_nat (length results))), l')
          else (Inr (results ! 0), l'))"

definition client_LookupAccount :: "'l Client \<Rightarrow> uint128 \<Rightarrow> 'l \<Rightarrow> (Error + Account \<times> bool) \<times> 'l" where
  "client_LookupAccount c ident l =
     (case Client_LookupAccounts c [ident] l of
        (Inl err, l') \<Rightarrow> (Inl (Errorf ''lookup account: '' err []), l')
      | (Inr accounts, l') \<Rightarrow>
          if length accounts = 0 then (Inr (zeroAccount, False), l')
          else if length accounts \<noteq> 1
          then (Inl (NewError (''lookup account: expected at most 1 account, received '' @
                  show_nat (length accounts))), l')
          else (Inr (accounts ! 0, True), l'))"

definition client_LookupTransfer :: "'l Client \<Rightarrow> uint128 \<Rightarrow> 'l \<Rightarrow> (Error + Transfer \<times> bool) \<times> 'l" where
  "client_LookupTransfer c ident l =
     (case Client_LookupTransfers c [ident] l of
        (Inl err, l') \<Rightarrow> (Inl (Errorf ''lookup transfer: '' err []), l')
      | (Inr transfers, l') \<Rightarrow>
          if length transfers = 0 then (Inr (zeroTransfer, False), l')
          else if length transfers \<noteq> 1
          then (Inl (NewError (''lookup transfer: expected at most 1 transfer, received '' @
                  show_nat (length transfers))), l')
          else (Inr (transfers ! 0, True), l'))"

definition close_client :: "'l Client \<Rightarrow> 'l \<Rightarrow> 'l" where
  "close_client c l = Client_Close c l"

text \<open>The client as a \<open>service.Ledger\<close>.\<close>

definition client_ops :: "'l Client \<Rightarrow> 'l Ledger" where
  "client_ops c =
     \<lparr>Ledger_CreateAccount = client_CreateAccount c, Ledger_CreateTransfer = client_CreateTransfer c,
      Ledger_LookupAccount = client_LookupAccount c, Ledger_LookupTransfer = client_LookupTransfer c\<rparr>"

section \<open>The contract of the batch client\<close>

text \<open>
  The answer to a batch of one element.  An answer of an unexpected length says no more than a
  call that failed: the element may or may not have been accepted.
\<close>

fun batch_answer :: "Error + 'r list \<Rightarrow> Error + 'r" where
  "batch_answer (Inl e) = Inl e"
| "batch_answer (Inr [x]) = Inr x"
| "batch_answer (Inr _) = Inl (NewError [])"

fun account_batch_law :: "uint128 \<Rightarrow> Error + Account list \<Rightarrow> ledger_view \<Rightarrow> bool" where
  "account_batch_law i (Inl e) K \<longleftrightarrow> foreign_error e"
| "account_batch_law i (Inr []) K \<longleftrightarrow> view_accounts K i = None"
| "account_batch_law i (Inr [a]) K \<longleftrightarrow> view_accounts K i = Some (account_meta a)"
| "account_batch_law i (Inr _) K \<longleftrightarrow> True"

fun transfer_batch_law :: "uint128 \<Rightarrow> Error + Transfer list \<Rightarrow> ledger_view \<Rightarrow> bool" where
  "transfer_batch_law i (Inl e) K \<longleftrightarrow> foreign_error e"
| "transfer_batch_law i (Inr []) K \<longleftrightarrow> view_transfers K i = None"
| "transfer_batch_law i (Inr [t]) K \<longleftrightarrow> view_transfers K i = Some t"
| "transfer_batch_law i (Inr _) K \<longleftrightarrow> True"

locale tb_client =
  fixes client :: "'l Client"
    and view :: "'l \<Rightarrow> ledger_view"
    and linv :: "'l \<Rightarrow> bool"
  assumes batch_view_ok: "linv l \<Longrightarrow> view_ok (view l)"
    and CreateAccounts: "linv l \<Longrightarrow> Client_CreateAccounts client [a] l = (ra, l') \<Longrightarrow>
           linv l' \<and> account_law a (batch_answer ra) (view l) (view l')"
    and CreateTransfers: "linv l \<Longrightarrow> Client_CreateTransfers client [t] l = (rt, l') \<Longrightarrow>
           linv l' \<and> transfer_law t (batch_answer rt) (view l) (view l')"
    and LookupAccounts: "linv l \<Longrightarrow> Client_LookupAccounts client [i] l = (rla, l') \<Longrightarrow>
           linv l' \<and> view l' = view l \<and> account_batch_law i rla (view l)"
    and LookupTransfers: "linv l \<Longrightarrow> Client_LookupTransfers client [i] l = (rlt, l') \<Longrightarrow>
           linv l' \<and> view l' = view l \<and> transfer_batch_law i rlt (view l)"

section \<open>Lemmas\<close>

lemma foreign_simps [simp]: "foreign_error (NewError m)" "foreign_error (Errorf p e s) \<longleftrightarrow> foreign_error e"
  by (simp_all add: foreign_error_def)

text \<open>The laws allow every error that does not carry a sentinel of the service.\<close>

lemma law_wrapped:
  "account_law a (Inl e) K K' \<Longrightarrow> account_law a (Inl (Errorf p e s)) K K'"
  "transfer_law t (Inl e) K K' \<Longrightarrow> transfer_law t (Inl (Errorf p e s)) K K'"
  "account_law a (Inl (NewError m)) K K' \<Longrightarrow> account_law a (Inl (NewError m')) K K'"
  "transfer_law t (Inl (NewError m)) K K' \<Longrightarrow> transfer_law t (Inl (NewError m')) K K'"
  by (auto simp: account_law_def transfer_law_def split: option.splits if_splits)

lemma batch_answer_cases:
  obtains (failed) e where "r = Inl e" "batch_answer r = Inl e"
  | (one) x where "r = Inr [x]" "batch_answer r = Inr x"
  | (odd) xs where "r = Inr xs" "length xs \<noteq> 1" "batch_answer r = Inl (NewError [])"
  by (cases r rule: batch_answer.cases) auto

context tb_client
begin

lemma client_CreateAccount_law:
  assumes "linv l" "client_CreateAccount client a l = (r, l')"
  shows "linv l' \<and> account_law a r (view l) (view l')"
proof -
  obtain ra l1 where ra: "Client_CreateAccounts client [a] l = (ra, l1)" by fastforce
  note law = CreateAccounts [OF assms(1) ra]
  show ?thesis
    by (cases rule: batch_answer_cases [of ra])
      (use assms(2) law in \<open>auto simp: client_CreateAccount_def ra intro: law_wrapped\<close>)
qed

lemma client_CreateTransfer_law:
  assumes "linv l" "client_CreateTransfer client t l = (r, l')"
  shows "linv l' \<and> transfer_law t r (view l) (view l')"
proof -
  obtain rt l1 where rt: "Client_CreateTransfers client [t] l = (rt, l1)" by fastforce
  note law = CreateTransfers [OF assms(1) rt]
  show ?thesis
    by (cases rule: batch_answer_cases [of rt])
      (use assms(2) law in \<open>auto simp: client_CreateTransfer_def rt intro: law_wrapped\<close>)
qed

lemma client_LookupAccount_law:
  assumes "linv l" "client_LookupAccount client i l = (r, l')"
  shows "linv l' \<and> view l' = view l \<and> account_lookup_law i r (view l)"
proof -
  obtain ra l1 where ra: "Client_LookupAccounts client [i] l = (ra, l1)" by fastforce
  note law = LookupAccounts [OF assms(1) ra]
  then show ?thesis
    by (cases "(i, ra, view l)" rule: account_batch_law.cases)
      (use assms(2) in \<open>auto simp: client_LookupAccount_def ra account_lookup_law_def\<close>)
qed

lemma client_LookupTransfer_law:
  assumes "linv l" "client_LookupTransfer client i l = (r, l')"
  shows "linv l' \<and> view l' = view l \<and> transfer_lookup_law i r (view l)"
proof -
  obtain rt l1 where rt: "Client_LookupTransfers client [i] l = (rt, l1)" by fastforce
  note law = LookupTransfers [OF assms(1) rt]
  then show ?thesis
    by (cases "(i, rt, view l)" rule: transfer_batch_law.cases)
      (use assms(2) in \<open>auto simp: client_LookupTransfer_def rt transfer_lookup_law_def\<close>)
qed

end

sublocale tb_client \<subseteq> client: ledger_contract "client_ops client" view linv
  by unfold_locales (auto simp: client_ops_def batch_view_ok dest: client_CreateAccount_law
      client_CreateTransfer_law client_LookupAccount_law client_LookupTransfer_law)

context tb_client
begin

lemma client_contract: "ledger_contract (client_ops client) view linv"
  by (rule client.ledger_contract_axioms)

end

section \<open>A batch client over single calls\<close>

text \<open>
  A client that performs the elements of a batch one after the other, and stops at the first
  error; over the fake ledger it is the concrete instance of \<open>tb_client\<close>.
\<close>

primrec batch :: "('a \<Rightarrow> 'l \<Rightarrow> (Error + 'r) \<times> 'l) \<Rightarrow> 'a list \<Rightarrow> 'l \<Rightarrow> (Error + 'r list) \<times> 'l" where
  "batch f [] l = (Inr [], l)"
| "batch f (x # xs) l =
     (case f x l of
        (Inl e, l') \<Rightarrow> (Inl e, l')
      | (Inr r, l') \<Rightarrow>
          (case batch f xs l' of
             (Inl e, l'') \<Rightarrow> (Inl e, l'')
           | (Inr rs, l'') \<Rightarrow> (Inr (r # rs), l'')))"

definition batch_found :: "(Error + ('r \<times> bool) list) \<times> 'l \<Rightarrow> (Error + 'r list) \<times> 'l" where
  "batch_found p = (map_sum (\<lambda>e. e) (\<lambda>rs. map fst (filter snd rs)) (fst p), snd p)"

definition batched :: "'l Ledger \<Rightarrow> 'l Client" where
  "batched ops =
     \<lparr>Client_CreateAccounts = batch (Ledger_CreateAccount ops),
      Client_CreateTransfers = batch (Ledger_CreateTransfer ops),
      Client_LookupAccounts = (\<lambda>is l. batch_found (batch (Ledger_LookupAccount ops) is l)),
      Client_LookupTransfers = (\<lambda>is l. batch_found (batch (Ledger_LookupTransfer ops) is l)),
      Client_Close = (\<lambda>l. l)\<rparr>"

lemma batch_one:
  "batch f [x] l = (case f x l of (Inl e, l') \<Rightarrow> (Inl e, l') | (Inr r, l') \<Rightarrow> (Inr [r], l'))"
  by (simp split: prod.splits sum.splits)

context ledger_contract
begin

lemma batched_contract: "tb_client (batched ops) view linv"
proof unfold_locales
  show "view_ok (view l)" if "linv l" for l
    using that by (rule view_ok)
  show "linv l' \<and> account_law a (batch_answer ra) (view l) (view l')"
    if "linv l" "Client_CreateAccounts (batched ops) [a] l = (ra, l')" for l a ra l'
    using that CreateAccount [OF that(1)]
    by (auto simp: batched_def batch_one split: prod.splits sum.splits)
  show "linv l' \<and> transfer_law t (batch_answer rt) (view l) (view l')"
    if "linv l" "Client_CreateTransfers (batched ops) [t] l = (rt, l')" for l t rt l'
    using that CreateTransfer [OF that(1)]
    by (auto simp: batched_def batch_one split: prod.splits sum.splits)
  show "linv l' \<and> view l' = view l \<and> account_batch_law i rla (view l)"
    if "linv l" "Client_LookupAccounts (batched ops) [i] l = (rla, l')" for l i rla l'
  proof -
    obtain r l1 where r: "Ledger_LookupAccount ops i l = (r, l1)" by fastforce
    from LookupAccount [OF that(1) r] that(2) show ?thesis
      by (cases r) (auto simp: batched_def batch_found_def batch_one account_lookup_law_def r
          split: option.splits)
  qed
  show "linv l' \<and> view l' = view l \<and> transfer_batch_law i rlt (view l)"
    if "linv l" "Client_LookupTransfers (batched ops) [i] l = (rlt, l')" for l i rlt l'
  proof -
    obtain r l1 where r: "Ledger_LookupTransfer ops i l = (r, l1)" by fastforce
    from LookupTransfer [OF that(1) r] that(2) show ?thesis
      by (cases r) (auto simp: batched_def batch_found_def batch_one transfer_lookup_law_def r
          split: option.splits)
  qed
qed

end

interpretation fake_client: tb_client "batched (fake_ops reference_sdk)" "fake_view reference_sdk"
    "fake_inv reference_sdk"
  by (rule ref.fake.batched_contract)

section \<open>Properties\<close>

text \<open>
  C27.  The adapter implements the interface of the service: over every batch client that keeps its
  laws for batches of one element, the four single calls satisfy the ledger contract, also when
  the client answers a batch of one with no result or with several.
\<close>

theorem client_refines_contract:
  assumes "tb_client client view linv"
  shows "ledger_contract (client_ops client) view linv"
  using assms by (rule tb_client.client_contract)

theorem client_refines_contract_witness:
  "ledger_contract (client_ops (batched (fake_ops reference_sdk))) (fake_view reference_sdk)
     (fake_inv reference_sdk)"
  by (rule client_refines_contract [OF fake_client.tb_client_axioms])

end
