(* ===== verification/Ledger_Main.thy ===== *)
theory Ledger_Main
  imports Example_Run Configuration Ledger_Client
begin

text \<open>
  \<open>cmd/ledger-service/main.go\<close>: the process, from reading its configuration to its exit status.
  The parameters are the environment variables, the constructor of the third-party client, the
  state of the ledger, and how serving ends.  A configuration the process accepts gives a service
  in the sense of \<open>Running_Service\<close>.
\<close>

section \<open>Startup\<close>

text \<open>\<open>newAdmissionController\<close>: a channel of \<open>limit\<close> slots; \<open>make\<close> panics for a negative limit.\<close>

definition newAdmissionController :: "int \<Rightarrow> environment \<Rightarrow> environment option" where
  "newAdmissionController limit env = (if limit < 0 then None else Some (env\<lparr>env_slots := nat limit\<rparr>))"

text \<open>A process that listens: its configuration, service, ledger client, environment and state.\<close>

record 'l Process =
  Process_config :: Config
  Process_service :: Service
  Process_ledger :: "'l Ledger"
  Process_env :: environment
  Process_world :: "'l world"

text \<open>
  \<open>run\<close> up to the point where the server listens, with the state of the ledger it leaves; the
  outcome is \<^const>\<open>None\<close> for a panic.
\<close>

definition run_startup ::
  "SDK \<Rightarrow> (string \<Rightarrow> string) \<Rightarrow> (uint128 \<Rightarrow> string list \<Rightarrow> Error + 'l Client) \<Rightarrow> environment \<Rightarrow> 'l \<Rightarrow>
   (Error + 'l Process) option \<times> 'l" where
  "run_startup sdk getenv tb_NewClient env l =
     (case Load sdk getenv of
        Inl err \<Rightarrow> (Some (Inl err), l)
      | Inr configuration \<Rightarrow>
     (case NewClient tb_NewClient (Config_TigerBeetleClusterID configuration)
             (Config_TigerBeetleAddresses configuration) of
        Inl err \<Rightarrow> (Some (Inl err), l)
      | Inr client \<Rightarrow>
     (case service_New (Config_LedgerID configuration) (Config_AuthorizationTimeout configuration)
             (Config_RiskEvaluationDelay configuration) (Config_RiskAutoApproveLimitCents configuration)
             (Config_LedgerStallThreshold configuration) (Config_AccountMetadataCacheSize configuration)
             True of
        (s, accountMetadata, observed) \<Rightarrow>
     (case run (client_ops client) env (EnsureSystemAccounts sdk s)
             \<lparr>w_ledger = l, w_cache = accountMetadata, w_observed = observed, w_slots = 0,
              w_metrics = [], w_log = [], w_tick = 0\<rparr> of
        (None, w) \<Rightarrow> (None, w_ledger w)
      | (Some (Inl err), w) \<Rightarrow> (Some (Inl err), w_ledger w)
      | (Some (Inr u), w) \<Rightarrow>
          (map_option (\<lambda>e. Inr
             \<lparr>Process_config = configuration, Process_service = s, Process_ledger = client_ops client,
              Process_env = e, Process_world = w\<rparr>)
             (newAdmissionController (Config_MaxConcurrentRequests configuration) env),
           w_ledger w)))))"

section \<open>The end of the process\<close>

text \<open>
  How serving ends: a signal arrived and \<open>Shutdown\<close> returned an error or nil, or
  \<open>ListenAndServe\<close>, which never returns nil, returned an error.
\<close>

datatype ServerEnd = Interrupted "Error option" | ServerReturned Error

fun await_server :: "ServerEnd \<Rightarrow> Error option" where
  "await_server (Interrupted shutdownErr) = shutdownErr"
| "await_server (ServerReturned err) = (if errors_Is err ErrServerClosed then None else Some err)"

text \<open>The parameters of the HTTP server.\<close>

record HttpServer =
  Server_Addr :: string
  Server_ReadHeaderTimeout :: Duration
  Server_ReadTimeout :: Duration
  Server_WriteTimeout :: Duration
  Server_IdleTimeout :: Duration

definition http_server :: "Config \<Rightarrow> HttpServer" where
  "http_server configuration =
     \<lparr>Server_Addr = Config_HTTPAddress configuration, Server_ReadHeaderTimeout = 5 * second,
      Server_ReadTimeout = 5 * second, Server_WriteTimeout = 10 * second, Server_IdleTimeout = 60 * second\<rparr>"

text \<open>
  What \<open>run\<close> acquires and releases, in order.  Deferred calls run in the reverse order of their
  \<open>defer\<close> statements, also after a panic.
\<close>

datatype ProcessEvent =
    SignalsNotified
  | ClientConnected
  | Listening HttpServer uint32
  | ShutdownStarted Duration
  | ShutdownCancelled
  | ClientClosed
  | SignalsStopped

text \<open>
  \<open>run\<close>: its error (\<^const>\<open>None\<close> for a panic), its events and the ledger it leaves.  \<open>serving\<close> says
  how serving ends and what the ledger is then.
\<close>

definition main_run ::
  "SDK \<Rightarrow> (string \<Rightarrow> string) \<Rightarrow> (uint128 \<Rightarrow> string list \<Rightarrow> Error + 'l Client) \<Rightarrow> environment \<Rightarrow> 'l \<Rightarrow>
   ('l Process \<Rightarrow> ServerEnd \<times> 'l) \<Rightarrow> Error option option \<times> ProcessEvent list \<times> 'l" where
  "main_run sdk getenv tb_NewClient env l serving =
     (case Load sdk getenv of
        Inl err \<Rightarrow> (Some (Some err), [], l)
      | Inr configuration \<Rightarrow>
     (case NewClient tb_NewClient (Config_TigerBeetleClusterID configuration)
             (Config_TigerBeetleAddresses configuration) of
        Inl err \<Rightarrow> (Some (Some err), [SignalsNotified, SignalsStopped], l)
      | Inr client \<Rightarrow>
     (case run_startup sdk getenv tb_NewClient env l of
        (None, l1) \<Rightarrow>
          (None, [SignalsNotified, ClientConnected, ClientClosed, SignalsStopped], close_client client l1)
      | (Some (Inl err), l1) \<Rightarrow>
          (Some (Some err), [SignalsNotified, ClientConnected, ClientClosed, SignalsStopped],
           close_client client l1)
      | (Some (Inr p), l1) \<Rightarrow>
          (case serving p of (ending, l2) \<Rightarrow>
             (Some (await_server ending),
              [SignalsNotified, ClientConnected,
               Listening (http_server configuration) (Config_LedgerID configuration)] @
              (case ending of
                 Interrupted _ \<Rightarrow> [ShutdownStarted (10 * second), ShutdownCancelled]
               | ServerReturned _ \<Rightarrow> []) @
              [ClientClosed, SignalsStopped],
              close_client client l2)))))"

text \<open>
  \<open>main\<close>: the last log line and the exit status; \<open>flushErr\<close> is what flushing the log returned, and
  a panic that reaches \<open>main\<close> exits with status 2.
\<close>

definition ledger_main :: "Error option option \<Rightarrow> Error option \<Rightarrow> LogEntry list \<times> int" where
  "ledger_main result flushErr =
     (case result of
        None \<Rightarrow> ([], 2)
      | Some runErr \<Rightarrow>
          ((case runErr of
              None \<Rightarrow> []
            | Some err \<Rightarrow>
                [\<lparr>log_message = ''ledger service stopped'', log_fields = [(''error'', LogError err)]\<rparr>]),
           if runErr \<noteq> None \<or> flushErr \<noteq> None then 1 else 0))"

section \<open>Lemmas\<close>


text \<open>The service of a configuration, and the outcome of a startup that reaches the ledger.\<close>

abbreviation configured_service :: "Config \<Rightarrow> Service" where
  "configured_service c \<equiv> fst (service_New (Config_LedgerID c) (Config_AuthorizationTimeout c)
     (Config_RiskEvaluationDelay c) (Config_RiskAutoApproveLimitCents c)
     (Config_LedgerStallThreshold c) (Config_AccountMetadataCacheSize c) True)"

lemma run_startup_reaches:
  assumes "Load sdk getenv = Inr c"
    and "tb_NewClient (Config_TigerBeetleClusterID c) (Config_TigerBeetleAddresses c) = Inr client"
    and "run (client_ops client) env (EnsureSystemAccounts sdk (configured_service c))
      (initial_world (Config_LedgerStallThreshold c) (Config_AccountMetadataCacheSize c) True l) = (Some r, w)"
  shows "run_startup sdk getenv tb_NewClient env l =
    (Some (map_sum (\<lambda>e. e) (\<lambda>_. \<lparr>Process_config = c, Process_service = configured_service c,
       Process_ledger = client_ops client,
       Process_env = env\<lparr>env_slots := nat (Config_MaxConcurrentRequests c)\<rparr>, Process_world = w\<rparr>) r),
     w_ledger w)"
  using assms Load_valid [OF assms(1)]
  by (simp add: run_startup_def NewClient_def service_New_def initial_world_def
      newAdmissionController_def valid_config_def split: sum.split)

lemma run_startup_Inr:
  assumes "run_startup sdk getenv tb_NewClient env l = (Some (Inr p), l')"
  obtains c client s w where "Load sdk getenv = Inr c"
    and "tb_NewClient (Config_TigerBeetleClusterID c) (Config_TigerBeetleAddresses c) = Inr client"
    and "s = configured_service c"
    and "run (client_ops client) env (EnsureSystemAccounts sdk s)
      (initial_world (Config_LedgerStallThreshold c) (Config_AccountMetadataCacheSize c) True l) =
      (Some (Inr ()), w)"
    and "p = \<lparr>Process_config = c, Process_service = s, Process_ledger = client_ops client,
      Process_env = env\<lparr>env_slots := nat (Config_MaxConcurrentRequests c)\<rparr>, Process_world = w\<rparr>"
    and "l' = w_ledger w"
  using assms
  by (auto simp: run_startup_def NewClient_def service_New_def initial_world_def
      newAdmissionController_def split: sum.splits prod.splits option.splits if_splits)

lemma EnsureSystemAccounts_returns:
  assumes "ledger_contract ops view linv" "tb_sdk sdk" "linv l"
  shows "fst (run ops env (EnsureSystemAccounts sdk s) (initial_world a b m l)) \<noteq> None"
proof -
  have ok: "view_ok (view l)"
    using assms(1,3) by (rule ledger_contract.view_ok)
  have "wp (service_guar sdk s) (EnsureSystemAccounts sdk s) (EnsureSystemAccounts_post sdk s)
      (view (w_ledger (initial_world a b m l)))"
    using tb_sdk.EnsureSystemAccounts_wp [OF assms(2) ok] by (simp add: initial_world_def)
  from ledger_contract.run_sound [OF assms(1) stable_service_guar
      initial_world_inv [where view = view and linv = linv and n = b, OF ok assms(3)] this, of env]
  show ?thesis by auto
qed

lemma client_ops_contract:
  assumes "\<And>i as client. tb_NewClient i as = Inr client \<Longrightarrow> tb_client client view linv"
    and "tb_NewClient i as = Inr client"
  shows "ledger_contract (client_ops client) view linv"
  using assms by (blast intro: tb_client.client_contract)

text \<open>The service of the default configuration, started over the fake ledger of \<open>Example_Run\<close>.\<close>

definition default_service :: Service where
  "default_service = example_service\<lparr>Service_metrics := True\<rparr>"

definition fake_NewClient :: "uint128 \<Rightarrow> string list \<Rightarrow> Error + fakeLedger Client" where
  "fake_NewClient clusterID addresses = Inr (batched (fake_ops reference_sdk))"

lemma default_Load: "Load reference_sdk (\<lambda>_. []) = Inr default_config"
  by code_simp

lemma default_service_simps [simp]:
  "Service_ledgerID default_service = 1" "Service_metrics default_service = True"
  by (simp_all add: default_service_def)

lemma default_startup_run: "fst (run (client_ops (batched (fake_ops reference_sdk))) example_env
    (EnsureSystemAccounts reference_sdk default_service)
    (initial_world (2 * second) 100000 True example_ledger)) = Some (Inr ())"
  by (simp add: run_all client_ops_def client_CreateAccount_def batched_def batch_one cong: run_lazy)

lemma default_startup:
  obtains p l' where "run_startup reference_sdk (\<lambda>_. []) fake_NewClient example_env example_ledger =
    (Some (Inr p), l')" "Process_config p = default_config" "Process_service p = default_service"
proof -
  have "configured_service default_config = default_service"
    by code_simp
  moreover obtain w where "run (client_ops (batched (fake_ops reference_sdk))) example_env
      (EnsureSystemAccounts reference_sdk default_service)
      (initial_world (2 * second) 100000 True example_ledger) = (Some (Inr ()), w)"
    using default_startup_run by (metis prod.collapse)
  ultimately show ?thesis
    using run_startup_reaches [OF default_Load, of fake_NewClient "batched (fake_ops reference_sdk)"
        example_env example_ledger "Inr ()" w] that
    by (simp add: fake_NewClient_def default_config_def)
qed

section \<open>Properties\<close>

text \<open>
  C20.  A process that starts is a running service.  When the client it connects keeps the documented
  laws, a startup that reaches the listening server has a configuration within the bounds, as many
  admission slots as configured and at least one, and a state from which the properties of the
  running service hold, whatever other clients of the cluster do.
\<close>

theorem startup_serves:
  assumes "tb_sdk sdk" "\<And>i as client. tb_NewClient i as = Inr client \<Longrightarrow> tb_client client view linv"
    and "outside_ok linv view outside" "linv l"
    and "run_startup sdk getenv tb_NewClient env l = (Some (Inr p), l')"
  shows "valid_config (Process_config p) \<and> w_ledger (Process_world p) = l' \<and>
    int (env_slots (Process_env p)) = Config_MaxConcurrentRequests (Process_config p) \<and> 0 < env_slots (Process_env p) \<and>
    serves sdk (Process_service p) (Process_ledger p) view linv (Process_env p) outside
      (Process_world p) [] (Process_world p)"
  using assms(5)
proof (cases rule: run_startup_Inr)
  case (1 c client s w)
  have "starts sdk s (client_ops client) linv (env\<lparr>env_slots := n\<rparr>) outside w" for n
    using starts_run [where linv = linv, OF 1(4) assms(4)] .
  with 1 assms(1,3) Load_valid [OF 1(1)] client_ops_contract [where tb_NewClient = tb_NewClient, OF assms(2) 1(2)] show ?thesis
    by (auto simp: serves_def valid_config_def)
qed

theorem startup_serves_witness:
  "\<exists>p :: fakeLedger Process. Process_config p = default_config \<and>
     serves reference_sdk (Process_service p) (Process_ledger p) (fake_view reference_sdk)
       (fake_inv reference_sdk) (Process_env p) (\<lambda>_ _. False) (Process_world p) [] (Process_world p)"
proof (rule default_startup)
  fix p l'
  assume "run_startup reference_sdk (\<lambda>_. []) fake_NewClient example_env example_ledger = (Some (Inr p), l')"
    and "Process_config p = default_config"
  with startup_serves [where linv = "fake_inv reference_sdk" and view = "fake_view reference_sdk" and
      outside = "\<lambda>_ _. False", OF ref.tb_sdk_axioms _ _ example_inv this(1)]
  show ?thesis
    using fake_client.tb_client_axioms by (auto simp: fake_NewClient_def outside_ok_def)
qed

text \<open>
  Startup does not panic: over a client that keeps the laws and whose calls return, it ends with an
  error or with a process that can listen, whatever the environment variables hold.
\<close>

lemma startup_no_panic:
  assumes "tb_sdk sdk" "\<And>i as client. tb_NewClient i as = Inr client \<Longrightarrow> tb_client client view linv" "linv l"
  shows "fst (run_startup sdk getenv tb_NewClient env l) \<noteq> None"
proof -
  show ?thesis
  proof (cases "Load sdk getenv")
    case (Inr c)
    show ?thesis
    proof (cases "tb_NewClient (Config_TigerBeetleClusterID c) (Config_TigerBeetleAddresses c)")
      case (Inr client)
      have "fst (run (client_ops client) env (EnsureSystemAccounts sdk (configured_service c))
          (initial_world (Config_LedgerStallThreshold c) (Config_AccountMetadataCacheSize c) True l)) \<noteq> None"
        using client_ops_contract [where tb_NewClient = tb_NewClient, OF assms(2) Inr] assms(1,3)
        by (rule EnsureSystemAccounts_returns)
      then obtain r w where "run (client_ops client) env (EnsureSystemAccounts sdk (configured_service c))
          (initial_world (Config_LedgerStallThreshold c) (Config_AccountMetadataCacheSize c) True l) = (Some r, w)"
        by (metis not_None_eq prod.collapse)
      with run_startup_reaches [where tb_NewClient = tb_NewClient, OF \<open>Load sdk getenv = Inr c\<close> Inr] show ?thesis by simp
    qed (simp add: run_startup_def NewClient_def Inr)
  qed (simp add: run_startup_def)
qed






text \<open>
  The exit status.  The process exits with status 0 exactly when it started, was ended by a
  signal with a clean shutdown or by a closed server, and flushed its log.
\<close>

lemma exit_status:
  "snd (ledger_main (fst (main_run sdk getenv tb_NewClient env l serving)) flushErr) = 0 \<longleftrightarrow>
     flushErr = None \<and> (\<exists>p l1 ending l2. run_startup sdk getenv tb_NewClient env l = (Some (Inr p), l1) \<and>
       serving p = (ending, l2) \<and>
       (ending = Interrupted None \<or> (\<exists>err. ending = ServerReturned err \<and> errors_Is err ErrServerClosed)))"
proof (cases "run_startup sdk getenv tb_NewClient env l" rule: prod.exhaust)
  case (Pair r l1)
  show ?thesis
  proof (cases r)
    case None
    with Pair show ?thesis
      by (auto simp: ledger_main_def main_run_def split: sum.splits)
  next
    case (Some x)
    show ?thesis
    proof (cases x)
      case (Inl err)
      with Pair Some show ?thesis
        by (auto simp: ledger_main_def main_run_def split: sum.splits)
    next
      case (Inr p)
      obtain ending l2 where "serving p = (ending, l2)" by fastforce
      moreover have "\<exists>c client. Load sdk getenv = Inr c \<and> NewClient tb_NewClient (Config_TigerBeetleClusterID c)
          (Config_TigerBeetleAddresses c) = Inr client"
        using Pair Some Inr by (auto simp: run_startup_def split: sum.splits)
      ultimately show ?thesis
        using Pair Some Inr by (cases ending) (auto simp: ledger_main_def main_run_def split: if_splits)
    qed
  qed
qed

text \<open>
  Whatever happens, the process releases what it acquired, in the reverse order, and a client it
  connected is closed after everything else that uses the ledger.
\<close>

fun released :: "ProcessEvent list \<Rightarrow> ProcessEvent list \<Rightarrow> bool" where
  "released held [] \<longleftrightarrow> held = []"
| "released held (SignalsNotified # es) \<longleftrightarrow> released (SignalsStopped # held) es"
| "released held (ClientConnected # es) \<longleftrightarrow> released (ClientClosed # held) es"
| "released held (ShutdownStarted d # es) \<longleftrightarrow> released (ShutdownCancelled # held) es"
| "released held (Listening srv i # es) \<longleftrightarrow> released held es"
| "released held (e # es) \<longleftrightarrow> held \<noteq> [] \<and> hd held = e \<and> released (tl held) es"

lemma process_releases: "released [] (fst (snd (main_run sdk getenv tb_NewClient env l serving)))"
  by (auto simp: main_run_def split: sum.split option.split prod.split ServerEnd.split)

end
