(* ===== verification/Go_Json.thy ===== *)
theory Go_Json
  imports Go_Text
begin

text \<open>
  The part of \<open>encoding/json\<close> the service and the load generator use: the scanner that splits a
  value off the input, decoding into a struct of strings and unsigned integers, and encoding of
  structs and maps.  The scanner is the automaton of \<open>scanner.go\<close>, one step per byte, which
  here also builds the tree of the value it reads; a syntax error is found at the byte where
  Go finds it.  Literals are kept as they are written until they are stored.
\<close>

section \<open>Values and errors\<close>

datatype Json =
    JLiteral string
  | JArray "Json list"
  | JObject "(string \<times> Json) list"

datatype JsonError =
    SyntaxError char string
  | UnexpectedEnd
  | EOF
  | ErrUnexpectedEOF
  | ReadError string
  | UnknownField string
  | UnmarshalTypeError string string string string

text \<open>The message of an error; \<open>UnmarshalTypeError\<close> has the value, the struct, the field and the type.\<close>

definition quoteChar :: "(nat \<Rightarrow> bool) \<Rightarrow> char \<Rightarrow> string" where
  "quoteChar is_print c =
     (if c = CHR 0x27 then [CHR 0x27, CHR 0x5C, CHR 0x27, CHR 0x27]
      else if c = CHR 0x22 then [CHR 0x27, CHR 0x22, CHR 0x27]
      else CHR 0x27 # escaped_rune is_print (byte_of c) @ [CHR 0x27])"

fun JsonError_Error :: "(nat \<Rightarrow> bool) \<Rightarrow> JsonError \<Rightarrow> string" where
  "JsonError_Error is_print (SyntaxError c m) = ''invalid character '' @ quoteChar is_print c @ '' '' @ m"
| "JsonError_Error is_print UnexpectedEnd = ''unexpected end of JSON input''"
| "JsonError_Error is_print EOF = ''EOF''"
| "JsonError_Error is_print ErrUnexpectedEOF = ''unexpected EOF''"
| "JsonError_Error is_print (ReadError m) = m"
| "JsonError_Error is_print (UnknownField key) = ''json: unknown field '' @ Quote is_print key"
| "JsonError_Error is_print (UnmarshalTypeError v st f t) =
     ''json: cannot unmarshal '' @ v @
     (if st \<noteq> [] \<or> f \<noteq> [] then '' into Go struct field '' @ st @ ''.'' @ f else '' into Go value'') @
     '' of type '' @ t"

section \<open>The scanner\<close>

text \<open>
  The step functions of the scanner; \<open>Keyword w rest\<close> is inside the literal \<open>w\<close> with \<open>rest\<close> still
  expected, and \<open>InStringEscU n\<close> expects \<open>n\<close> more hexadecimal digits.
\<close>

datatype Step =
    BeginValue
  | BeginValueOrEmpty
  | BeginString
  | BeginStringOrEmpty
  | EndValue
  | InString
  | InStringEsc
  | InStringEscU nat
  | Neg
  | Digits
  | Zero
  | Dot
  | DotDigits
  | Exp
  | ExpSign
  | ExpDigits
  | Keyword string string

text \<open>The stack of open arrays and objects, with what has been read of them.\<close>

datatype Open =
    ParseObjectKey "(string \<times> Json) list"
  | ParseObjectValue "(string \<times> Json) list" string
  | ParseArrayValue "Json list"

text \<open>The state: the step, the stack, the literal being read (backwards) and the last value read.\<close>

datatype Scanner = Scanner Step "Open list" string Json

datatype Scan =
    Continue Scanner
  | EndBefore Json
  | EndAfter Json
  | ScanError JsonError

definition scan_start :: Scanner where
  "scan_start = Scanner BeginValue [] [] (JLiteral [])"

definition isSpace :: "char \<Rightarrow> bool" where
  "isSpace c \<longleftrightarrow> c = CHR '' '' \<or> c = CHR 0x09 \<or> c = CHR 0x0D \<or> c = CHR 0x0A"

definition maxNestingDepth :: nat where
  "maxNestingDepth = 10000"

definition pushParseState :: "char \<Rightarrow> Step \<Rightarrow> Open list \<Rightarrow> Json \<Rightarrow> Scan" where
  "pushParseState c step stack v =
     (if length stack \<le> maxNestingDepth then Continue (Scanner step stack [] v)
      else ScanError (SyntaxError c ''exceeded max depth''))"

definition stateBeginValue :: "Open list \<Rightarrow> Json \<Rightarrow> char \<Rightarrow> Scan" where
  "stateBeginValue stack v c =
     (if isSpace c then Continue (Scanner BeginValue stack [] v)
      else if c = CHR ''{'' then pushParseState c BeginStringOrEmpty (ParseObjectKey [] # stack) v
      else if c = CHR ''['' then pushParseState c BeginValueOrEmpty (ParseArrayValue [] # stack) v
      else if c = CHR 0x22 then Continue (Scanner InString stack [c] v)
      else if c = CHR ''-'' then Continue (Scanner Neg stack [c] v)
      else if c = CHR ''0'' then Continue (Scanner Zero stack [c] v)
      else if c = CHR ''t'' then Continue (Scanner (Keyword ''true'' ''rue'') stack [c] v)
      else if c = CHR ''f'' then Continue (Scanner (Keyword ''false'' ''alse'') stack [c] v)
      else if c = CHR ''n'' then Continue (Scanner (Keyword ''null'' ''ull'') stack [c] v)
      else if is_digit c then Continue (Scanner Digits stack [c] v)
      else ScanError (SyntaxError c ''looking for beginning of value''))"

definition stateBeginString :: "Open list \<Rightarrow> Json \<Rightarrow> char \<Rightarrow> Scan" where
  "stateBeginString stack v c =
     (if isSpace c then Continue (Scanner BeginString stack [] v)
      else if c = CHR 0x22 then Continue (Scanner InString stack [c] v)
      else ScanError (SyntaxError c ''looking for beginning of object key string''))"

text \<open>After a bracket that closes the outermost value, the value ends with this byte.\<close>

definition popParseState :: "Open list \<Rightarrow> Json \<Rightarrow> Scan" where
  "popParseState stack v =
     (if stack = [] then EndAfter v else Continue (Scanner EndValue stack [] v))"

fun stateEndValue :: "Open list \<Rightarrow> Json \<Rightarrow> char \<Rightarrow> Scan" where
  "stateEndValue [] v c = EndBefore v"
| "stateEndValue (frame # stack) v c =
     (if isSpace c then Continue (Scanner EndValue (frame # stack) [] v)
      else case frame of
        ParseObjectKey ms \<Rightarrow>
          if c = CHR '':'' then
            Continue (Scanner BeginValue
              (ParseObjectValue ms (case v of JLiteral key \<Rightarrow> key | _ \<Rightarrow> []) # stack) [] v)
          else ScanError (SyntaxError c ''after object key'')
      | ParseObjectValue ms key \<Rightarrow>
          if c = CHR '','' then Continue (Scanner BeginString (ParseObjectKey (ms @ [(key, v)]) # stack) [] v)
          else if c = CHR ''}'' then popParseState stack (JObject (ms @ [(key, v)]))
          else ScanError (SyntaxError c ''after object key:value pair'')
      | ParseArrayValue vs \<Rightarrow>
          if c = CHR '','' then Continue (Scanner BeginValue (ParseArrayValue (vs @ [v]) # stack) [] v)
          else if c = CHR '']'' then popParseState stack (JArray (vs @ [v]))
          else ScanError (SyntaxError c ''after array element''))"

text \<open>The end of a number, which is only seen at the byte after it.\<close>

definition endNumber :: "Open list \<Rightarrow> string \<Rightarrow> char \<Rightarrow> Scan" where
  "endNumber stack lit c = stateEndValue stack (JLiteral (rev lit)) c"

definition is_hex :: "char \<Rightarrow> bool" where
  "is_hex c \<longleftrightarrow> is_digit c \<or> 97 \<le> byte_of c \<and> byte_of c \<le> 102 \<or> 65 \<le> byte_of c \<and> byte_of c \<le> 70"

definition is_escape :: "char \<Rightarrow> bool" where
  "is_escape c \<longleftrightarrow> c \<in> set [CHR ''b'', CHR ''f'', CHR ''n'', CHR ''r'', CHR ''t'', CHR 0x5C, CHR ''/'', CHR 0x22]"

text \<open>The state functions for a number after its first digit.\<close>

definition stateNumber :: "Step \<Rightarrow> Open list \<Rightarrow> string \<Rightarrow> Json \<Rightarrow> char \<Rightarrow> Scan" where
  "stateNumber fraction stack lit v c =
     (if fraction = Digits \<and> is_digit c then Continue (Scanner Digits stack (c # lit) v)
      else if fraction = DotDigits \<and> is_digit c then Continue (Scanner DotDigits stack (c # lit) v)
      else if fraction \<noteq> DotDigits \<and> c = CHR ''.'' then Continue (Scanner Dot stack (c # lit) v)
      else if c = CHR ''e'' \<or> c = CHR ''E'' then Continue (Scanner Exp stack (c # lit) v)
      else endNumber stack lit c)"

definition stateESign :: "Open list \<Rightarrow> string \<Rightarrow> Json \<Rightarrow> char \<Rightarrow> Scan" where
  "stateESign stack lit v c =
     (if is_digit c then Continue (Scanner ExpDigits stack (c # lit) v)
      else ScanError (SyntaxError c ''in exponent of numeric literal''))"

fun scan_step :: "Scanner \<Rightarrow> char \<Rightarrow> Scan" where
  "scan_step (Scanner BeginValue stack lit v) c = stateBeginValue stack v c"
| "scan_step (Scanner BeginValueOrEmpty stack lit v) c =
     (if isSpace c then Continue (Scanner BeginValueOrEmpty stack lit v)
      else if c = CHR '']'' then popParseState (tl stack) (JArray [])
      else stateBeginValue stack v c)"
| "scan_step (Scanner BeginString stack lit v) c = stateBeginString stack v c"
| "scan_step (Scanner BeginStringOrEmpty stack lit v) c =
     (if isSpace c then Continue (Scanner BeginStringOrEmpty stack lit v)
      else if c = CHR ''}'' then popParseState (tl stack) (JObject [])
      else stateBeginString stack v c)"
| "scan_step (Scanner EndValue stack lit v) c = stateEndValue stack v c"
| "scan_step (Scanner InString stack lit v) c =
     (if c = CHR 0x22 then Continue (Scanner EndValue stack [] (JLiteral (rev (c # lit))))
      else if c = CHR 0x5C then Continue (Scanner InStringEsc stack (c # lit) v)
      else if byte_of c < 0x20 then ScanError (SyntaxError c ''in string literal'')
      else Continue (Scanner InString stack (c # lit) v))"
| "scan_step (Scanner InStringEsc stack lit v) c =
     (if is_escape c then Continue (Scanner InString stack (c # lit) v)
      else if c = CHR ''u'' then Continue (Scanner (InStringEscU 4) stack (c # lit) v)
      else ScanError (SyntaxError c ''in string escape code''))"
| "scan_step (Scanner (InStringEscU n) stack lit v) c =
     (if is_hex c then
        Continue (Scanner (if n \<le> 1 then InString else InStringEscU (n - 1)) stack (c # lit) v)
      else ScanError (SyntaxError c (CHR ''i'' # CHR ''n'' # CHR '' '' # CHR 0x5C # ''u hexadecimal character escape'')))"
| "scan_step (Scanner Neg stack lit v) c =
     (if c = CHR ''0'' then Continue (Scanner Zero stack (c # lit) v)
      else if is_digit c then Continue (Scanner Digits stack (c # lit) v)
      else ScanError (SyntaxError c ''in numeric literal''))"
| "scan_step (Scanner Digits stack lit v) c = stateNumber Digits stack lit v c"
| "scan_step (Scanner Zero stack lit v) c = stateNumber Zero stack lit v c"
| "scan_step (Scanner Dot stack lit v) c =
     (if is_digit c then Continue (Scanner DotDigits stack (c # lit) v)
      else ScanError (SyntaxError c ''after decimal point in numeric literal''))"
| "scan_step (Scanner DotDigits stack lit v) c = stateNumber DotDigits stack lit v c"
| "scan_step (Scanner Exp stack lit v) c =
     (if c = CHR ''+'' \<or> c = CHR ''-'' then Continue (Scanner ExpSign stack (c # lit) v)
      else stateESign stack lit v c)"
| "scan_step (Scanner ExpSign stack lit v) c = stateESign stack lit v c"
| "scan_step (Scanner ExpDigits stack lit v) c =
     (if is_digit c then Continue (Scanner ExpDigits stack (c # lit) v) else endNumber stack lit c)"
| "scan_step (Scanner (Keyword w rest) stack lit v) c =
     (if rest = [] then ScanError UnexpectedEnd
      else if c = hd rest then
        (if tl rest = [] then Continue (Scanner EndValue stack [] (JLiteral w))
         else Continue (Scanner (Keyword w (tl rest)) stack (c # lit) v))
      else ScanError (SyntaxError c
        (''in literal '' @ w @ '' (expecting '' @ [CHR 0x27, hd rest, CHR 0x27] @ '')'')))"

text \<open>A run over the bytes: a complete value with the bytes after it, an error, or more to read.\<close>

datatype Scanned =
    Complete Json string
  | Failed JsonError
  | More Scanner

fun scan_bytes :: "Scanner \<Rightarrow> string \<Rightarrow> Scanned" where
  "scan_bytes sc [] = More sc"
| "scan_bytes sc (c # s) =
     (case scan_step sc c of
        Continue sc' \<Rightarrow> scan_bytes sc' s
      | EndBefore v \<Rightarrow> Complete v (c # s)
      | EndAfter v \<Rightarrow> Complete v s
      | ScanError e \<Rightarrow> Failed e)"

text \<open>
  \<open>Decoder.readValue\<close> on the bytes that can be read and the error the reader returns after them
  (\<^const>\<open>EOF\<close> at the end of the input): the value with the bytes after it.  A number at the end of the input is
  ended by an invented space.
\<close>

definition readValue :: "string \<Rightarrow> JsonError \<Rightarrow> JsonError + Json \<times> string" where
  "readValue data err =
     (case scan_bytes scan_start data of
        Complete v rest \<Rightarrow> Inr (v, rest)
      | Failed e \<Rightarrow> Inl e
      | More sc \<Rightarrow>
          if err \<noteq> EOF then Inl err
          else case scan_step sc (CHR '' '') of
            EndBefore v \<Rightarrow> Inr (v, [])
          | _ \<Rightarrow> Inl (if list_all isSpace data then EOF else ErrUnexpectedEOF))"

text \<open>\<open>json.Unmarshal\<close>'s check that its argument is one value.\<close>

definition checkValid :: "string \<Rightarrow> JsonError + Json" where
  "checkValid data =
     (case scan_bytes scan_start data of
        Complete v rest \<Rightarrow>
          (case dropWhile isSpace rest of
             [] \<Rightarrow> Inr v
           | c # _ \<Rightarrow> Inl (SyntaxError c ''after top-level value''))
      | Failed e \<Rightarrow> Inl e
      | More sc \<Rightarrow>
          (case scan_step sc (CHR '' '') of
             EndBefore v \<Rightarrow> Inr v
           | _ \<Rightarrow> Inl UnexpectedEnd))"

section \<open>Strings\<close>

text \<open>\<open>getu4\<close>: the code of an escape \<open>\u\<close> with four hexadecimal digits at the head of a string.\<close>

definition hex_value :: "char \<Rightarrow> nat" where
  "hex_value c =
     (if is_digit c then byte_of c - 48
      else if 97 \<le> byte_of c \<and> byte_of c \<le> 102 then byte_of c - 87
      else byte_of c - 55)"

definition getu4 :: "string \<Rightarrow> nat option" where
  "getu4 s =
     (if 6 \<le> length s \<and> take 2 s = [CHR 0x5C, CHR ''u''] \<and> list_all is_hex (take 4 (drop 2 s))
      then Some (foldl (\<lambda>n c. n * 16 + hex_value c) 0 (take 4 (drop 2 s)))
      else None)"

text \<open>\<open>utf16.DecodeRune\<close>: a pair of surrogates, or \<^const>\<open>None\<close> for the replacement character.\<close>

definition surrogate_pair :: "nat \<Rightarrow> nat option \<Rightarrow> nat option" where
  "surrogate_pair r1 r2 =
     (case r2 of
        Some r \<Rightarrow>
          if 0xD800 \<le> r1 \<and> r1 < 0xDC00 \<and> 0xDC00 \<le> r \<and> r < 0xE000
          then Some ((r1 - 0xD800) * 1024 + (r - 0xDC00) + 0x10000) else None
      | None \<Rightarrow> None)"

definition unescape :: "char \<Rightarrow> char" where
  "unescape c =
     (if c = CHR ''b'' then CHR 0x08 else if c = CHR ''f'' then CHR 0x0C
      else if c = CHR ''n'' then CHR 0x0A else if c = CHR ''r'' then CHR 0x0D
      else if c = CHR ''t'' then CHR 0x09 else c)"

text \<open>
  The contents of a string literal.  \<open>unquoteBytes\<close> reports a failure for an escape the scanner has
  excluded; here the text ends there.
\<close>

function unquote_body :: "string \<Rightarrow> string" where
  "unquote_body [] = []"
| "unquote_body (c # s) =
     (if c = CHR 0x5C then
        (case getu4 (c # s) of
           Some rr \<Rightarrow>
             if IsSurrogate rr then
               (case surrogate_pair rr (getu4 (drop 5 s)) of
                  Some dec \<Rightarrow> EncodeRune dec @ unquote_body (drop 11 s)
                | None \<Rightarrow> EncodeRune RuneError @ unquote_body (drop 5 s))
             else EncodeRune rr @ unquote_body (drop 5 s)
         | None \<Rightarrow>
             (case s of
                [] \<Rightarrow> []
              | e # t \<Rightarrow> if is_escape e \<or> e = CHR 0x27 then unescape e # unquote_body t else []))
      else if byte_of c < 0x80 then c # unquote_body s
      else (case DecodeRune (c # s) of (r, n) \<Rightarrow> EncodeRune r @ unquote_body (drop n (c # s))))"
  by pat_completeness auto
termination
  by (relation "measure length") (auto dest: DecodeRune_size [OF sym])

declare unquote_body.simps(2) [simp del]

definition unquote :: "string \<Rightarrow> string" where
  "unquote lit = unquote_body (butlast (tl lit))"

text \<open>
  \<open>appendString\<close> with \<open>escapeHTML\<close>: characters that are not safe in HTML, the line separators
  U+2028 and U+2029 and bytes outside well-formed sequences are escaped.
\<close>

definition html_safe :: "char \<Rightarrow> bool" where
  "html_safe c \<longleftrightarrow> 0x20 \<le> byte_of c \<and> c \<notin> set [CHR 0x22, CHR 0x5C, CHR ''<'', CHR ''>'', CHR ''&'']"

definition escape_ascii :: "char \<Rightarrow> string" where
  "escape_ascii c =
     (if html_safe c then [c]
      else if c = CHR 0x5C \<or> c = CHR 0x22 then [CHR 0x5C, c]
      else if c = CHR 0x08 then [CHR 0x5C, CHR ''b'']
      else if c = CHR 0x0C then [CHR 0x5C, CHR ''f'']
      else if c = CHR 0x0A then [CHR 0x5C, CHR ''n'']
      else if c = CHR 0x0D then [CHR 0x5C, CHR ''r'']
      else if c = CHR 0x09 then [CHR 0x5C, CHR ''t'']
      else [CHR 0x5C, CHR ''u''] @ hex_digits 4 (byte_of c))"

function escape_body :: "string \<Rightarrow> string" where
  "escape_body [] = []"
| "escape_body (c # s) =
     (if byte_of c < 0x80 then escape_ascii c @ escape_body s
      else (case DecodeRune (c # s) of (r, n) \<Rightarrow>
        (if r = RuneError \<and> n = 1 \<or> r = 0x2028 \<or> r = 0x2029
         then [CHR 0x5C, CHR ''u''] @ hex_digits 4 r else take n (c # s)) @
        escape_body (drop n (c # s))))"
  by pat_completeness auto
termination
  by (relation "measure length") (auto dest: DecodeRune_size [OF sym])

declare escape_body.simps(2) [simp del]

definition appendString :: "string \<Rightarrow> string" where
  "appendString s = CHR 0x22 # escape_body s @ [CHR 0x22]"

section \<open>Decoding into a struct\<close>

text \<open>
  A struct type: its name, and for each field the name in JSON, the Go type and how to set it.
\<close>

datatype 'a FieldKind =
    StringField "string \<Rightarrow> 'a \<Rightarrow> 'a"
  | Uint64Field "uint64 \<Rightarrow> 'a \<Rightarrow> 'a"

type_synonym 'a Field = "string \<times> string \<times> 'a FieldKind"

record 'a StructType =
  Struct_name :: string
  Struct_type :: string
  Struct_fields :: "'a Field list"

definition fieldByName :: "'a Field list \<Rightarrow> string \<Rightarrow> 'a Field option" where
  "fieldByName fs key =
     (case find (\<lambda>f. fst f = key) fs of
        Some f \<Rightarrow> Some f
      | None \<Rightarrow> find (\<lambda>f. EqualFold key (fst f)) fs)"

text \<open>What kind of value a type error names.\<close>

fun value_kind :: "Json \<Rightarrow> string" where
  "value_kind (JObject _) = ''object''"
| "value_kind (JArray _) = ''array''"
| "value_kind (JLiteral lit) =
     (if hd lit = CHR ''t'' \<or> hd lit = CHR ''f'' then ''bool''
      else if hd lit = CHR 0x22 then ''string'' else ''number'')"

definition is_null :: "Json \<Rightarrow> bool" where
  "is_null v \<longleftrightarrow> (case v of JLiteral lit \<Rightarrow> hd lit = CHR ''n'' | _ \<Rightarrow> False)"

text \<open>
  Store a value in a field: \<open>null\<close> leaves it as it is, a string goes to a string field, a number
  to an integer field when it is a decimal number of 64 bits, and all else is a type error.
\<close>

definition store_value :: "string \<Rightarrow> 'a Field \<Rightarrow> Json \<Rightarrow> 'a \<Rightarrow> JsonError option \<times> 'a" where
  "store_value st f v x =
     (let err = (\<lambda>kind. (Some (UnmarshalTypeError kind st (fst f) (fst (snd f))), x))
      in if is_null v then (None, x)
         else case snd (snd f) of
           StringField set_field \<Rightarrow>
             (case v of
                JLiteral lit \<Rightarrow>
                  if hd lit = CHR 0x22 then (None, set_field (unquote lit) x) else err (value_kind v)
              | _ \<Rightarrow> err (value_kind v))
         | Uint64Field set_field \<Rightarrow>
             (case v of
                JLiteral lit \<Rightarrow>
                  if value_kind v \<noteq> ''number'' then err (value_kind v)
                  else (case ParseUint lit 64 of
                    Some n \<Rightarrow> (None, set_field (word_of_int n) x)
                  | None \<Rightarrow> err (''number '' @ lit))
              | _ \<Rightarrow> err (value_kind v)))"

text \<open>The first error is kept and decoding goes on.\<close>

definition saveError :: "JsonError option \<Rightarrow> JsonError option \<Rightarrow> JsonError option" where
  "saveError saved e = (case saved of Some _ \<Rightarrow> saved | None \<Rightarrow> e)"

fun store_members ::
  "bool \<Rightarrow> 'a StructType \<Rightarrow> (string \<times> Json) list \<Rightarrow> JsonError option \<times> 'a \<Rightarrow> JsonError option \<times> 'a" where
  "store_members disallowUnknownFields t [] (err, x) = (err, x)"
| "store_members disallowUnknownFields t ((key, v) # ms) (err, x) =
     (case fieldByName (Struct_fields t) (unquote key) of
        Some f \<Rightarrow>
          (case store_value (Struct_name t) f v x of (e, x') \<Rightarrow>
             store_members disallowUnknownFields t ms (saveError err e, x'))
      | None \<Rightarrow>
          store_members disallowUnknownFields t ms
            (if disallowUnknownFields then saveError err (Some (UnknownField (unquote key))) else err, x))"

definition unmarshal :: "bool \<Rightarrow> 'a StructType \<Rightarrow> Json \<Rightarrow> 'a \<Rightarrow> JsonError + 'a" where
  "unmarshal disallowUnknownFields t v x =
     (case (case v of
              JObject ms \<Rightarrow> store_members disallowUnknownFields t ms (None, x)
            | _ \<Rightarrow>
                if is_null v then (None, x)
                else (Some (UnmarshalTypeError (value_kind v) [] [] (Struct_type t)), x)) of
        (Some e, _) \<Rightarrow> Inl e
      | (None, x') \<Rightarrow> Inr x')"

definition json_Unmarshal :: "'a StructType \<Rightarrow> string \<Rightarrow> 'a \<Rightarrow> JsonError + 'a" where
  "json_Unmarshal t data x =
     (case checkValid data of Inl e \<Rightarrow> Inl e | Inr v \<Rightarrow> unmarshal False t v x)"

section \<open>Encoding\<close>

text \<open>The values that are encoded, and an object of them.\<close>

datatype Value =
    StringValue string
  | Uint64Value uint64
  | IntValue int

fun encode_value :: "Value \<Rightarrow> string" where
  "encode_value (StringValue s) = appendString s"
| "encode_value (Uint64Value w) = show_nat (unat w)"
| "encode_value (IntValue i) = show_int i"

fun encode_members :: "(string \<times> Value) list \<Rightarrow> string" where
  "encode_members [] = []"
| "encode_members [(key, v)] = appendString key @ CHR '':'' # encode_value v"
| "encode_members ((key, v) # ms) = appendString key @ CHR '':'' # encode_value v @ CHR '','' # encode_members ms"

definition encode_object :: "(string \<times> Value) list \<Rightarrow> string" where
  "encode_object ms = CHR ''{'' # encode_members ms @ ''}''"

text \<open>A field with \<open>omitempty\<close> is left out when its value is zero or empty.\<close>

fun is_empty_value :: "Value \<Rightarrow> bool" where
  "is_empty_value (StringValue s) = (s = [])"
| "is_empty_value (Uint64Value w) = (w = 0)"
| "is_empty_value (IntValue i) = (i = 0)"

definition omitempty :: "string \<Rightarrow> Value \<Rightarrow> (string \<times> Value) list" where
  "omitempty key v = (if is_empty_value v then [] else [(key, v)])"

section \<open>Strings survive encoding and decoding\<close>

lemma hex_digit [simp]:
  assumes "n < 16"
  shows "is_hex (hex_digit n)" "hex_value (hex_digit n) = n"
proof -
  have "\<not> is_digit (char_of (87 + n))" if "\<not> n < 10"
    using assms that of_nat_of_char [of "char_of (87 + n)", where 'a = int]
    by (simp add: is_digit_def of_char_of)
  then show "is_hex (hex_digit n)" "hex_value (hex_digit n) = n"
    using assms by (auto simp: hex_digit_def is_hex_def hex_value_def of_char_of)
qed

lemma length_hex_digits [simp]: "length (hex_digits k n) = k"
  by (induction k arbitrary: n) simp_all

lemma hex_digits_hex [simp]: "list_all is_hex (hex_digits k n)"
  by (induction k arbitrary: n) simp_all

lemma hex_digits_value: "foldl (\<lambda>x c. x * 16 + hex_value c) 0 (hex_digits k n) = n mod 16 ^ k"
  by (induction k arbitrary: n) (simp_all add: mod_mult2_eq mult.commute)

lemma getu4_hex [simp]: "r < 65536 \<Longrightarrow> getu4 (CHR 0x5C # CHR ''u'' # hex_digits 4 r @ t) = Some r"
  by (simp add: getu4_def hex_digits_value)

lemma unquote_u:
  assumes "r < 65536" "\<not> IsSurrogate r"
  shows "unquote_body (CHR 0x5C # CHR ''u'' # hex_digits 4 r @ t) = EncodeRune r @ unquote_body t"
  using assms by (simp add: unquote_body.simps)

lemma ascii_escape_cases:
  assumes "\<not> html_safe c" "byte_of c < 0x80"
  shows "c = CHR 0x5C \<or> c = CHR 0x22 \<or> c = CHR ''<'' \<or> c = CHR ''>'' \<or> c = CHR ''&'' \<or> byte_of c < 0x20"
  using assms by (auto simp: html_safe_def)

lemma unquote_escape_ascii:
  assumes "byte_of c < 0x80"
  shows "unquote_body (escape_ascii c @ t) = c # unquote_body t"
proof (cases "html_safe c \<or> c \<in> set [CHR 0x5C, CHR 0x22, CHR 0x08, CHR 0x0C, CHR 0x0A, CHR 0x0D, CHR 0x09]")
  case True
  with assms show ?thesis
    by (auto simp: escape_ascii_def html_safe_def unquote_body.simps getu4_def unescape_def is_escape_def)
next
  case False
  then have "escape_ascii c = CHR 0x5C # CHR ''u'' # hex_digits 4 (byte_of c)"
    by (simp add: escape_ascii_def)
  with assms show ?thesis
    using unquote_u [of "byte_of c" t] by (simp add: IsSurrogate_def)
qed

lemma unquote_sequence:
  assumes "DecodeRune s = (r, n)" "1 < n"
  shows "unquote_body (take n s @ t) = take n s @ unquote_body t"
proof -
  have valid: "\<not> (r = RuneError \<and> n \<le> 1)" using assms(2) by simp
  obtain c u where s: "s = c # u" using assms by (cases s) (auto simp: DecodeRune_def)
  with assms(2) obtain w where w: "take n s = c # w" by (cases n) auto
  have "length (take n s) = n"
    using DecodeRune_size [of c u r n] assms(1) s by simp
  moreover have "0x80 \<le> byte_of c"
    using DecodeRune_valid(3) [OF assms(1) valid assms(2)] w by simp
  ultimately show ?thesis
    using DecodeRune_valid(1,2) [OF assms(1) valid] w by (auto simp: unquote_body.simps)
qed

lemma unquote_escape: "unquote_body (escape_body s) = ToValidUTF8 s"
proof (induction s rule: escape_body.induct)
  case (2 c s)
  show ?case
  proof (cases "byte_of c < 0x80")
    case True
    then show ?thesis
      using 2(1) by (simp add: escape_body.simps ToValidUTF8.simps unquote_escape_ascii)
  next
    case False
    obtain r n where d: "DecodeRune (c # s) = (r, n)" by fastforce
    have ih: "unquote_body (escape_body (drop n (c # s))) = ToValidUTF8 (drop n (c # s))"
      using 2(2) [OF False] d by simp
    show ?thesis
    proof (cases "r = RuneError \<and> n = 1 \<or> r = 0x2028 \<or> r = 0x2029")
      case True
      then have "r < 65536" "\<not> IsSurrogate r" by (auto simp: IsSurrogate_def)
      with True False d ih show ?thesis
        using unquote_u [of r] by (auto simp: escape_body.simps ToValidUTF8.simps)
    next
      case valid: False
      have n: "n \<noteq> 0" using DecodeRune_size [OF d] by simp
      have "n \<noteq> 1"
        using DecodeRune_cases [OF d] valid False n by fastforce
      with n have "1 < n" by simp
      moreover from this have "EncodeRune r = take n (c # s)"
        using DecodeRune_valid(1) [OF d] by simp
      ultimately show ?thesis
        using valid False d ih unquote_sequence [OF d]
        by (simp add: escape_body.simps ToValidUTF8.simps)
    qed
  qed
qed simp

lemma unquote_appendString [simp]: "unquote (appendString s) = ToValidUTF8 s"
  by (simp add: unquote_def appendString_def unquote_escape butlast_append)

section \<open>The scanner reads what was encoded\<close>

lemma scan_bytes_More: "scan_bytes sc s = More sc' \<Longrightarrow> scan_bytes sc (s @ t) = scan_bytes sc' t"
  by (induction sc s rule: scan_bytes.induct) (auto split: Scan.splits)

text \<open>Text that the scanner passes over inside a string literal.\<close>

definition in_string :: "string \<Rightarrow> bool" where
  "in_string b \<longleftrightarrow> (\<forall>stack lit v t.
     scan_bytes (Scanner InString stack lit v) (b @ t) = scan_bytes (Scanner InString stack (rev b @ lit) v) t)"

lemma in_string_Nil [simp]: "in_string []"
  by (simp add: in_string_def)

lemma in_string_append [intro]: "in_string a \<Longrightarrow> in_string b \<Longrightarrow> in_string (a @ b)"
  by (simp add: in_string_def)

lemma in_string_char: "c \<noteq> CHR 0x22 \<Longrightarrow> c \<noteq> CHR 0x5C \<Longrightarrow> 0x20 \<le> byte_of c \<Longrightarrow> in_string [c]"
  by (simp add: in_string_def)

lemma in_string_list:
  "\<forall>c \<in> set s. c \<noteq> CHR 0x22 \<and> c \<noteq> CHR 0x5C \<and> 0x20 \<le> byte_of c \<Longrightarrow> in_string s"
proof (induction s)
  case (Cons c s)
  then show ?case using in_string_append [OF in_string_char, of c s] by simp
qed simp

lemma in_string_escape: "is_escape c \<Longrightarrow> in_string [CHR 0x5C, c]"
  by (simp add: in_string_def)

lemma in_string_u: "in_string (CHR 0x5C # CHR ''u'' # hex_digits 4 r)"
proof -
  have four: "(4 :: nat) = Suc (Suc (Suc (Suc 0)))" by simp
  obtain a b c d where h: "hex_digits 4 r = [a, b, c, d]"
    by (simp only: four hex_digits.simps append.simps)
  then have "is_hex a" "is_hex b" "is_hex c" "is_hex d"
    using hex_digits_hex [of 4 r] by simp_all
  then show ?thesis by (simp add: h in_string_def is_escape_def)
qed

lemma in_string_ascii: "byte_of c < 0x80 \<Longrightarrow> in_string (escape_ascii c)"
  using in_string_char [of c] in_string_escape in_string_u [of "byte_of c"]
  by (auto simp: escape_ascii_def html_safe_def is_escape_def)

lemma in_string_escape_body: "in_string (escape_body s)"
proof (induction s rule: escape_body.induct)
  case (2 c s)
  obtain r n where d: "DecodeRune (c # s) = (r, n)" by fastforce
  show ?case
  proof (cases "byte_of c < 0x80")
    case True
    with 2(1) show ?thesis by (auto simp: escape_body.simps intro: in_string_ascii)
  next
    case False
    have "in_string (take n (c # s))" if "\<not> (r = RuneError \<and> n = 1)"
    proof -
      have n: "n \<noteq> 0" using DecodeRune_size [OF d] by simp
      have "n \<noteq> 1" using DecodeRune_cases [OF d] that False n by fastforce
      with n have "\<forall>c \<in> set (take n (c # s)). 0x80 \<le> byte_of c"
        using DecodeRune_valid(3) [OF d] by simp
      then show ?thesis by (intro in_string_list) auto
    qed
    with False d 2(2) [OF False] show ?thesis
      using in_string_append [OF in_string_u] by (auto simp: escape_body.simps)
  qed
qed simp

lemma scan_appendString:
  "scan_bytes (Scanner InString stack [CHR 0x22] v) (escape_body s @ CHR 0x22 # t) =
     scan_bytes (Scanner EndValue stack [] (JLiteral (appendString s))) t"
  using in_string_escape_body [of s] by (simp add: in_string_def appendString_def)

lemma show_nat_head: "0 < n \<Longrightarrow> hd (show_nat n) \<noteq> CHR ''0''"
proof (induction n rule: show_nat.induct)
  case (1 n)
  show ?case
  proof (cases "n < 10")
    case True
    then have "digit_value (hd (show_nat n)) = int n"
      by (subst show_nat.simps) simp
    with 1(2) show ?thesis by (auto simp: digit_value_def)
  next
    case False
    then have "hd (show_nat n) = hd (show_nat (n div 10))"
      by (subst show_nat.simps) simp
    with 1(1) False show ?thesis by simp
  qed
qed

lemma show_nat_cases:
  obtains "show_nat n = ''0''"
  | c ds where "show_nat n = c # ds" "c \<noteq> CHR ''0''" "is_digit c" "list_all is_digit ds"
proof (cases "n = 0")
  case True
  moreover have "show_nat 0 = ''0''" by code_simp
  ultimately show ?thesis by (intro that(1)) simp
next
  case False
  obtain c ds where "show_nat n = c # ds" by (cases "show_nat n") auto
  with False show ?thesis
    using that(2) show_nat_head [of n] show_nat_digits [of n] by simp
qed

lemma is_digit_distinct:
  assumes "is_digit c"
  shows "\<not> isSpace c" "c \<noteq> CHR ''{''" "c \<noteq> CHR ''[''" "c \<noteq> CHR 0x22" "c \<noteq> CHR ''-''"
    "c \<noteq> CHR ''t''" "c \<noteq> CHR ''f''" "c \<noteq> CHR ''n''"
  using assms by (auto simp: is_digit_def isSpace_def)

lemma scan_digits:
  "list_all is_digit ds \<Longrightarrow>
   scan_bytes (Scanner Digits stack lit v) (ds @ t) = scan_bytes (Scanner Digits stack (rev ds @ lit) v) t"
  by (induction ds arbitrary: lit) (simp_all add: stateNumber_def)

text \<open>The bytes that end a number.\<close>

definition delimiter :: "char \<Rightarrow> bool" where
  "delimiter c \<longleftrightarrow> c = CHR '','' \<or> c = CHR ''}'' \<or> c = CHR '']'' \<or> isSpace c"

lemma number_delimiter:
  "delimiter c \<Longrightarrow> stateNumber Digits stack lit v c = stateEndValue stack (JLiteral (rev lit)) c"
  "delimiter c \<Longrightarrow> stateNumber Zero stack lit v c = stateEndValue stack (JLiteral (rev lit)) c"
  by (auto simp: delimiter_def stateNumber_def endNumber_def is_digit_def isSpace_def)

lemma scan_nat:
  assumes "delimiter c"
  shows "scan_bytes (Scanner BeginValue stack [] v) (show_nat n @ c # t) =
      scan_bytes (Scanner EndValue stack [] (JLiteral (show_nat n))) (c # t)"
    "scan_bytes (Scanner Neg stack lit v) (show_nat n @ c # t) =
      scan_bytes (Scanner EndValue stack [] (JLiteral (rev lit @ show_nat n))) (c # t)"
  using assms
  by (cases n rule: show_nat_cases;
      simp add: stateBeginValue_def is_digit_distinct scan_digits number_delimiter; simp add: isSpace_def)+

lemma scan_value:
  assumes "delimiter c"
  shows "scan_bytes (Scanner BeginValue stack [] x) (encode_value v @ c # t) =
    scan_bytes (Scanner EndValue stack [] (JLiteral (encode_value v))) (c # t)"
proof (cases v)
  case (StringValue s)
  then show ?thesis
    using scan_appendString [of stack x s "c # t"]
    by (simp add: appendString_def stateBeginValue_def isSpace_def)
next
  case (IntValue i)
  then show ?thesis
    using scan_nat [OF assms] by (simp add: show_int_def stateBeginValue_def isSpace_def)
qed (simp add: scan_nat [OF assms])

text \<open>The tree of an encoded object.\<close>

definition encoded_member :: "string \<times> Value \<Rightarrow> string \<times> Json" where
  "encoded_member m = (appendString (fst m), JLiteral (encode_value (snd m)))"

lemma encode_members_Cons:
  "encode_members ((key, v) # ms) =
     appendString key @ CHR '':'' # encode_value v @ (if ms = [] then [] else CHR '','' # encode_members ms)"
  by (cases ms) simp_all

lemma scan_members:
  assumes "ms \<noteq> []"
  shows "scan_bytes (Scanner BeginString (ParseObjectKey acc # []) [] x) (encode_members ms @ CHR ''}'' # t) =
    Complete (JObject (acc @ map encoded_member ms)) t"
  using assms
proof (induction ms arbitrary: acc x)
  case (Cons m ms)
  obtain key v where m: "m = (key, v)" by fastforce
  let ?rest = "(if ms = [] then [] else CHR '','' # encode_members ms) @ CHR ''}'' # t"
  obtain c u where rest: "?rest = c # u" "delimiter c" "c = CHR ''}'' \<longleftrightarrow> ms = []"
    by (cases "ms = []") (auto simp: delimiter_def)
  have "scan_bytes (Scanner BeginString (ParseObjectKey acc # []) [] x) (encode_members (m # ms) @ CHR ''}'' # t) =
      scan_bytes (Scanner InString (ParseObjectKey acc # []) [CHR 0x22] x)
        (escape_body key @ CHR 0x22 # CHR '':'' # encode_value v @ ?rest)"
    by (simp add: m encode_members_Cons appendString_def stateBeginString_def isSpace_def)
  also have "\<dots> = scan_bytes (Scanner BeginValue (ParseObjectValue acc (appendString key) # []) []
      (JLiteral (appendString key))) (encode_value v @ ?rest)"
    by (simp only: scan_appendString) (simp add: isSpace_def)
  also have "\<dots> = scan_bytes (Scanner EndValue (ParseObjectValue acc (appendString key) # []) []
      (JLiteral (encode_value v))) ?rest"
    unfolding rest(1) by (rule scan_value [OF rest(2)])
  finally show ?case
    using Cons.IH [of "acc @ [encoded_member m]"]
    by (cases "ms = []") (simp_all add: m encoded_member_def popParseState_def isSpace_def)
qed simp

lemma scan_object: "scan_bytes scan_start (encode_object ms @ t) = Complete (JObject (map encoded_member ms)) t"
proof (cases ms)
  case Nil
  then show ?thesis
    by (simp add: encode_object_def scan_start_def stateBeginValue_def isSpace_def pushParseState_def
        maxNestingDepth_def popParseState_def)
next
  case (Cons m ms')
  obtain key v where m: "m = (key, v)" by fastforce
  have step: "scan_step (Scanner BeginStringOrEmpty stack [] x) (CHR 0x22) = scan_step (Scanner BeginString stack [] x) (CHR 0x22)"
    for stack x by (simp add: isSpace_def)
  have "scan_bytes scan_start (encode_object ms @ t) =
      scan_bytes (Scanner BeginStringOrEmpty [ParseObjectKey []] [] (JLiteral [])) (encode_members ms @ CHR ''}'' # t)"
    by (simp add: encode_object_def scan_start_def stateBeginValue_def isSpace_def pushParseState_def
        maxNestingDepth_def)
  also have "\<dots> = scan_bytes (Scanner BeginString [ParseObjectKey []] [] (JLiteral [])) (encode_members ms @ CHR ''}'' # t)"
    using step by (simp add: Cons m encode_members_Cons appendString_def del: scan_step.simps)
  finally show ?thesis
    using scan_members [of ms "[]"] Cons by simp
qed

lemma readValue_object: "readValue (encode_object ms @ t) err = Inr (JObject (map encoded_member ms), t)"
  by (simp add: readValue_def scan_object)

lemma checkValid_object: "list_all isSpace t \<Longrightarrow> checkValid (encode_object ms @ t) = Inr (JObject (map encoded_member ms))"
  by (simp add: checkValid_def scan_object list_all_iff dropWhile_eq_Nil_conv [THEN iffD2])

lemma readValue_spaces: "list_all isSpace data \<Longrightarrow> readValue data EOF = Inl EOF"
proof -
  assume sp: "list_all isSpace data"
  have "scan_bytes (Scanner BeginValue [] [] v) data = More (Scanner BeginValue [] [] v)" for v
    using sp by (induction data) (simp_all add: stateBeginValue_def)
  with sp show ?thesis
    by (simp add: readValue_def scan_start_def stateBeginValue_def isSpace_def)
qed

section \<open>Storing what was encoded\<close>

lemma encode_value_kind [simp]:
  "hd (appendString s) = CHR 0x22" "\<not> is_null (JLiteral (appendString s))"
  "\<not> is_null (JLiteral (show_nat n))" "value_kind (JLiteral (show_nat n)) = ''number''"
  using hd_show_nat [of n] is_digit_distinct [of "hd (show_nat n)"]
  by (auto simp: appendString_def is_null_def)

lemma store_encoded_string [simp]:
  "store_value st (name, ty, StringField set_field) (JLiteral (appendString s)) x = (None, set_field (ToValidUTF8 s) x)"
  by (simp add: store_value_def Let_def)

lemma store_encoded_uint64 [simp]:
  "store_value st (name, ty, Uint64Field set_field) (JLiteral (show_nat (unat w))) x = (None, set_field w x)"
proof -
  have "int (unat w) < 2 ^ 64" using unsigned_less [of w, where 'a = int] by simp
  then show ?thesis
    by (simp add: store_value_def Let_def ParseUint_show del: value_kind.simps)
qed

text \<open>Storing the members of an encoded object, one by one.\<close>

lemma ToValidUTF8_lower [simp]: "lower_ascii key \<Longrightarrow> ToValidUTF8 key = key"
  by (rule ToValidUTF8_ascii) (auto simp: lower_ascii_def list_all_iff)

lemma fieldByName_lower:
  assumes "lower_ascii key" "list_all (\<lambda>f. lower_ascii (fst f)) fs"
  shows "fieldByName fs key = find (\<lambda>f. fst f = key) fs"
proof -
  have "find (\<lambda>f. EqualFold key (fst f)) fs = find (\<lambda>f. fst f = key) fs"
    using assms by (intro find_cong) (auto simp: list_all_iff EqualFold_lower)
  then show ?thesis by (simp add: fieldByName_def split: option.splits)
qed

lemma store_encoded_member:
  assumes "lower_ascii key" "list_all (\<lambda>f. lower_ascii (fst f)) (Struct_fields t)"
  shows "store_members d t (encoded_member (key, v) # ms) (err, x) =
    (case find (\<lambda>f. fst f = key) (Struct_fields t) of
       Some f \<Rightarrow>
         (case store_value (Struct_name t) f (JLiteral (encode_value v)) x of (e, x') \<Rightarrow>
            store_members d t ms (saveError err e, x'))
     | None \<Rightarrow> store_members d t ms (if d then saveError err (Some (UnknownField key)) else err, x))"
  using assms by (simp add: encoded_member_def fieldByName_lower split: option.splits)

section \<open>Decoded strings are well-formed\<close>

lemma valid_utf8_ascii_Cons: "byte_of c < 0x80 \<Longrightarrow> valid_utf8 (c # t) \<longleftrightarrow> valid_utf8 t"
  by (simp add: valid_utf8.simps)

lemma unescape_ascii: "is_escape e \<or> e = CHR 0x27 \<Longrightarrow> byte_of (unescape e) < 0x80"
  by (auto simp: is_escape_def) (simp_all add: unescape_def)

lemma unquote_body_valid: "valid_utf8 (unquote_body s)"
proof (induction s rule: unquote_body.induct)
  case (2 c s)
  show ?case
    using 2 by (subst unquote_body.simps)
      (auto simp: valid_utf8_EncodeRune valid_utf8_ascii_Cons unescape_ascii split: option.splits prod.splits list.splits)
qed simp

lemma unquote_valid: "valid_utf8 (unquote lit)"
  by (simp add: unquote_def unquote_body_valid)

section \<open>What the decoder accepts\<close>

lemma stateEndValue_error: "stateEndValue stack v c = ScanError e \<Longrightarrow> e \<noteq> EOF"
  by (cases stack) (auto simp: popParseState_def split: if_splits Open.splits)

lemma scan_step_error: "scan_step sc c = ScanError e \<Longrightarrow> e \<noteq> EOF"
  by (cases "(sc, c)" rule: scan_step.cases)
    (auto simp: stateBeginValue_def stateBeginString_def pushParseState_def popParseState_def stateNumber_def
      stateESign_def endNumber_def split: if_splits dest: stateEndValue_error)

lemma scan_bytes_error: "scan_bytes sc s = Failed e \<Longrightarrow> e \<noteq> EOF"
  by (induction sc s rule: scan_bytes.induct) (auto split: Scan.splits dest: scan_step_error)

text \<open>The end of the input is reported exactly when only white space is left.\<close>

lemma readValue_EOF: "readValue data EOF = Inl EOF \<longleftrightarrow> list_all isSpace data"
proof
  assume "readValue data EOF = Inl EOF"
  then show "list_all isSpace data"
    by (auto simp: readValue_def split: Scanned.splits Scan.splits if_splits dest: scan_bytes_error)
qed (rule readValue_spaces)

lemma readValue_no_EOF: "err \<noteq> EOF \<Longrightarrow> readValue data err \<noteq> Inl EOF"
  by (auto simp: readValue_def split: Scanned.splits dest: scan_bytes_error)

text \<open>A value that a field can store without an error.\<close>

fun fits :: "'a FieldKind \<Rightarrow> Json \<Rightarrow> bool" where
  "fits kind (JArray vs) = False"
| "fits kind (JObject ms) = False"
| "fits (StringField set_field) (JLiteral lit) \<longleftrightarrow> hd lit = CHR ''n'' \<or> hd lit = CHR 0x22"
| "fits (Uint64Field set_field) (JLiteral lit) \<longleftrightarrow> hd lit = CHR ''n'' \<or> ParseUint lit 64 \<noteq> None"

lemma store_value_fits: "store_value st f v x = (None, y) \<Longrightarrow> fits (snd (snd f)) v"
  by (cases "snd (snd f)"; cases v)
    (auto simp: store_value_def is_null_def Let_def split: if_splits option.splits)

lemma saveError_None [simp]: "saveError a b = None \<longleftrightarrow> a = None \<and> b = None"
  by (cases a) (auto simp: saveError_def)

lemma store_members_saved: "fst (store_members d t ms (Some e, x)) = Some e"
  by (induction ms arbitrary: x) (auto simp: saveError_def split: option.splits prod.splits)

lemma fieldByName_SomeD: "fieldByName fs key = Some f \<Longrightarrow> f \<in> set fs \<and> (fst f = key \<or> EqualFold key (fst f))"
  by (auto simp: fieldByName_def find_Some_iff split: option.splits)

text \<open>
  When unknown fields are disallowed and no error was saved, every member names a field, up to
  case, and has a value that fits it.
\<close>

lemma store_members_fits:
  assumes "store_members True t ms (None, x) = (None, y)" "(key, v) \<in> set ms"
  shows "\<exists>f. fieldByName (Struct_fields t) (unquote key) = Some f \<and> fits (snd (snd f)) v"
  using assms
proof (induction ms arbitrary: x)
  case (Cons m ms)
  obtain k w where m: "m = (k, w)" by fastforce
  from Cons.prems(1) obtain f where f: "fieldByName (Struct_fields t) (unquote k) = Some f"
    using store_members_saved [of True t ms "UnknownField (unquote k)" x]
    by (auto simp: m saveError_def split: option.splits)
  obtain e x' where sv: "store_value (Struct_name t) f w x = (e, x')" by fastforce
  with Cons.prems(1) have rest: "store_members True t ms (e, x') = (None, y)"
    by (simp add: m f saveError_def)
  then have "e = None"
    using store_members_saved [of True t ms _ x'] by (cases e) (auto dest: arg_cong [where f = fst])
  with sv have "fits (snd (snd f)) w" by (simp add: store_value_fits)
  moreover have "\<exists>f. fieldByName (Struct_fields t) (unquote key) = Some f \<and> fits (snd (snd f)) v" if "(key, v) \<in> set ms"
    using Cons.IH [of x'] rest \<open>e = None\<close> that by simp
  ultimately show ?case
    using Cons.prems(2) f m by (cases f) auto
qed simp

text \<open>What every setter keeps when it stores a well-formed string holds of the decoded struct.\<close>

definition kept_by_fields :: "('a \<Rightarrow> bool) \<Rightarrow> 'a Field list \<Rightarrow> bool" where
  "kept_by_fields P fs \<longleftrightarrow>
     (\<forall>f \<in> set fs. case snd (snd f) of
        StringField set_field \<Rightarrow> \<forall>s x. valid_utf8 s \<longrightarrow> P x \<longrightarrow> P (set_field s x)
      | Uint64Field set_field \<Rightarrow> \<forall>w x. P x \<longrightarrow> P (set_field w x))"

lemma store_value_keeps:
  assumes "kept_by_fields P fs" "f \<in> set fs" "P x"
  shows "P (snd (store_value st f v x))"
proof -
  have "case snd (snd f) of
        StringField set_field \<Rightarrow> \<forall>s x. valid_utf8 s \<longrightarrow> P x \<longrightarrow> P (set_field s x)
      | Uint64Field set_field \<Rightarrow> \<forall>w x. P x \<longrightarrow> P (set_field w x)"
    using assms(1,2) by (auto simp: kept_by_fields_def)
  with assms(3) show ?thesis
    by (cases "snd (snd f)"; cases v)
      (auto simp: store_value_def Let_def unquote_valid split: option.splits)
qed

lemma store_members_keeps:
  assumes "kept_by_fields P (Struct_fields t)" "P x"
  shows "P (snd (store_members d t ms (err, x)))"
  using assms(2)
proof (induction ms arbitrary: err x)
  case (Cons m ms)
  obtain key v where m: "m = (key, v)" by fastforce
  show ?case
  proof (cases "fieldByName (Struct_fields t) (unquote key)")
    case None
    with Cons m show ?thesis by simp
  next
    case (Some f)
    then have "P (snd (store_value (Struct_name t) f v x))"
      using store_value_keeps [OF assms(1)] fieldByName_SomeD Cons.prems by blast
    with Cons.IH Some m show ?thesis by (simp add: case_prod_beta)
  qed
qed simp

lemma unmarshal_keeps:
  assumes "kept_by_fields P (Struct_fields t)" "P x" "unmarshal d t v x = Inr y"
  shows "P y"
proof (cases v)
  case (JObject ms)
  with assms(3) have "store_members d t ms (None, x) = (None, y)"
    by (auto simp: unmarshal_def split: prod.splits option.splits)
  then show ?thesis
    using store_members_keeps [OF assms(1,2), of d ms None] by simp
qed (use assms in \<open>auto simp: unmarshal_def split: if_splits\<close>)

end
