(* ===== verification/Go_Http.thy ===== *)
theory Go_Http
  imports Go_Json
begin

text \<open>
  The parts of \<open>mime\<close>, \<open>net/http\<close>, \<open>net/url\<close> and \<open>time\<close> the HTTP interface relies on: media
  types, the limit on request bodies, cleaning and splitting of paths for \<open>http.ServeMux\<close>, and
  timestamps in RFC 3339.
\<close>

section \<open>Media types\<close>

definition isTSpecial :: "char \<Rightarrow> bool" where
  "isTSpecial c \<longleftrightarrow> c \<in> set (CHR 0x5C # CHR 0x22 # ''()<>@,;:/[]?='')"

definition isTokenChar :: "char \<Rightarrow> bool" where
  "isTokenChar c \<longleftrightarrow> 0x20 < byte_of c \<and> byte_of c < 0x7F \<and> \<not> isTSpecial c"

definition consumeToken :: "string \<Rightarrow> string \<times> string" where
  "consumeToken v = (takeWhile isTokenChar v, dropWhile isTokenChar v)"

text \<open>
  \<open>strings.ToLower\<close>.  Beyond ASCII, only U+0130 and the Kelvin sign have a lower case in ASCII; no
  other character beyond ASCII can become part of a token.
\<close>

fun ToLower :: "string \<Rightarrow> string" where
  "ToLower s =
     (case s of
        [] \<Rightarrow> []
      | c # t \<Rightarrow>
          if take 2 s = [CHR 0xC4, CHR 0xB0] then CHR ''i'' # ToLower (drop 2 s)
          else if take 3 s = [CHR 0xE2, CHR 0x84, CHR 0xAA] then CHR ''k'' # ToLower (drop 3 s)
          else (if 65 \<le> byte_of c \<and> byte_of c \<le> 90 then char_of (byte_of c + 32) else c) # ToLower t)"

declare ToLower.simps [simp del]

definition TrimLeftSpace :: "string \<Rightarrow> string" where
  "TrimLeftSpace s = strip_prefixes space_encodings s"

definition CutPrefix :: "char \<Rightarrow> string \<Rightarrow> string option" where
  "CutPrefix c s = (case s of [] \<Rightarrow> None | d # t \<Rightarrow> if d = c then Some t else None)"

text \<open>The rest of a quoted string after its opening quote: the value and what follows.\<close>

fun quoted_value :: "string \<Rightarrow> string \<Rightarrow> (string \<times> string) option" where
  "quoted_value buffer [] = None"
| "quoted_value buffer (c # s) =
     (if c = CHR 0x22 then Some (rev buffer, s)
      else case s of
        d # t \<Rightarrow>
          if c = CHR 0x5C \<and> isTSpecial d then quoted_value (d # buffer) t
          else if c = CHR 0x0D \<or> c = CHR 0x0A then None
          else quoted_value (c # buffer) s
      | [] \<Rightarrow> None)"

text \<open>\<open>consumeValue\<close>; \<^const>\<open>None\<close> stands for a result that consumed nothing.\<close>

definition consumeValue :: "string \<Rightarrow> (string \<times> string) option" where
  "consumeValue v =
     (case v of
        [] \<Rightarrow> None
      | c # s \<Rightarrow>
          if c = CHR 0x22 then quoted_value [] s
          else let (tok, rest) = consumeToken v in if tok = [] then None else Some (tok, rest))"

definition consumeMediaParam :: "string \<Rightarrow> (string \<times> string \<times> string) option" where
  "consumeMediaParam v =
     (case CutPrefix (CHR '';'') (TrimLeftSpace v) of
        None \<Rightarrow> None
      | Some r1 \<Rightarrow>
          let (param, r2) = consumeToken (TrimLeftSpace r1)
          in if param = [] then None
             else case CutPrefix (CHR ''='') (TrimLeftSpace r2) of
               None \<Rightarrow> None
             | Some r3 \<Rightarrow>
                 (case consumeValue (TrimLeftSpace r3) of
                    None \<Rightarrow> None
                  | Some (value, rest) \<Rightarrow> Some (ToLower param, value, rest)))"

lemma TrimLeftSpace_length: "length (TrimLeftSpace s) \<le> length s"
  unfolding TrimLeftSpace_def using strip_prefixes_suffix suffix_length_le by blast

lemma CutPrefix_length: "CutPrefix c s = Some t \<Longrightarrow> length t < length s"
  by (auto simp: CutPrefix_def split: list.splits if_splits)

lemma consumeToken_length: "consumeToken s = (tok, t) \<Longrightarrow> length t \<le> length s"
  by (auto simp: consumeToken_def length_dropWhile_le)

lemma quoted_value_length: "quoted_value b s = Some (v, t) \<Longrightarrow> length t \<le> length s"
  by (induction b s rule: quoted_value.induct) (auto split: if_splits list.splits)

lemma consumeValue_length: "consumeValue s = Some (v, t) \<Longrightarrow> length t \<le> length s"
  by (auto simp: consumeValue_def split: list.splits if_splits prod.splits
      dest: quoted_value_length consumeToken_length)

lemma consumeMediaParam_length:
  assumes "consumeMediaParam v = Some (p, x, rest)"
  shows "length rest < length v"
proof -
  obtain r1 tok r2 r3 where "CutPrefix (CHR '';'') (TrimLeftSpace v) = Some r1"
      "consumeToken (TrimLeftSpace r1) = (tok, r2)" "CutPrefix (CHR ''='') (TrimLeftSpace r2) = Some r3"
      "consumeValue (TrimLeftSpace r3) = Some (x, rest)"
    using assms by (auto simp: consumeMediaParam_def split: option.splits prod.splits if_splits)
  then have "length r1 < length (TrimLeftSpace v)" "length r2 \<le> length (TrimLeftSpace r1)"
      "length r3 < length (TrimLeftSpace r2)" "length rest \<le> length (TrimLeftSpace r3)"
    using CutPrefix_length consumeToken_length consumeValue_length by blast+
  with TrimLeftSpace_length [of v] TrimLeftSpace_length [of r1] TrimLeftSpace_length [of r2]
    TrimLeftSpace_length [of r3] show ?thesis by linarith
qed

lemma media_param_rest: "consumeMediaParam (TrimLeftSpace v) = Some (p, x, rest) \<Longrightarrow> length rest < length v"
  using consumeMediaParam_length [of "TrimLeftSpace v"] TrimLeftSpace_length [of v] by fastforce

text \<open>The loop over the parameters: whether it ends without an error.\<close>

function media_params :: "(string \<times> string) list \<Rightarrow> string \<Rightarrow> bool" where
  "media_params seen v =
     (let v1 = TrimLeftSpace v
      in if v1 = [] then True
         else case consumeMediaParam v1 of
           None \<Rightarrow> TrimSpace v1 = '';''
         | Some (key, value, rest) \<Rightarrow>
             (case map_of seen key of
                Some other \<Rightarrow> other = value \<and> media_params seen rest
              | None \<Rightarrow> media_params ((key, value) # seen) rest))"
  by pat_completeness auto
termination
  by (relation "measure (length \<circ> snd)") (auto dest!: media_param_rest)

declare media_params.simps [simp del]

definition checkMediaType :: "string \<Rightarrow> bool" where
  "checkMediaType s =
     (let (typ, rest) = consumeToken s
      in typ \<noteq> [] \<and>
         (rest = [] \<or>
          (case CutPrefix (CHR ''/'') rest of
             None \<Rightarrow> False
           | Some r \<Rightarrow> r \<noteq> [] \<and> list_all isTokenChar r)))"

definition ParseMediaType :: "string \<Rightarrow> string option" where
  "ParseMediaType v =
     (let base = takeWhile (\<lambda>c. c \<noteq> CHR '';'') v; mediatype = TrimSpace (ToLower base)
      in if checkMediaType mediatype \<and> media_params [] (drop (length base) v) then Some mediatype else None)"

section \<open>Bodies\<close>

text \<open>
  \<open>http.MaxBytesReader\<close> on a body, given by its bytes and the error after them.
\<close>

definition MaxBytesReader :: "nat \<Rightarrow> string \<times> JsonError \<Rightarrow> string \<times> JsonError" where
  "MaxBytesReader n body =
     (if length (fst body) \<le> n then body
      else (take n (fst body), ReadError ''http: request body too large''))"

section \<open>Paths\<close>

fun clean_segments :: "string list \<Rightarrow> string list \<Rightarrow> string list" where
  "clean_segments acc [] = rev acc"
| "clean_segments acc (seg # segs) =
     (if seg = [] \<or> seg = ''.'' then clean_segments acc segs
      else if seg = ''..'' then clean_segments (tl acc) segs
      else clean_segments (seg # acc) segs)"

text \<open>\<open>cleanPath\<close> of \<open>net/http\<close>: \<open>path.Clean\<close> of a rooted path that keeps a trailing slash.\<close>

definition cleanPath :: "string \<Rightarrow> string" where
  "cleanPath p =
     (if p = [] then ''/''
      else
        let p' = (if hd p = CHR ''/'' then p else CHR ''/'' # p);
            np = CHR ''/'' # Join (CHR ''/'') (clean_segments [] (Split (CHR ''/'') p'))
        in if last p' = CHR ''/'' \<and> np \<noteq> ''/'' then np @ ''/'' else np)"

fun percent_decode :: "string \<Rightarrow> string option" where
  "percent_decode [] = Some []"
| "percent_decode (c # s) =
     (if c = CHR ''%'' then
        (case s of
           a # b # t \<Rightarrow>
             if is_hex a \<and> is_hex b
             then map_option ((#) (char_of (hex_value a * 16 + hex_value b))) (percent_decode t)
             else None
         | _ \<Rightarrow> None)
      else map_option ((#) c) (percent_decode s))"

definition pathUnescape :: "string \<Rightarrow> string" where
  "pathUnescape s = (case percent_decode s of Some t \<Rightarrow> t | None \<Rightarrow> s)"

text \<open>
  The segments \<open>firstSegment\<close> takes off a path; a trailing slash is the segment \<open>/\<close>.
\<close>

function path_segments :: "string \<Rightarrow> string list" where
  "path_segments p =
     (if p = [] then []
      else if p = ''/'' then [''/'']
      else let seg = takeWhile (\<lambda>c. c \<noteq> CHR ''/'') (tl p)
        in pathUnescape seg # path_segments (drop (length seg) (tl p)))"
  by pat_completeness auto
termination
  by (relation "measure length") (auto simp: Let_def neq_Nil_conv)

declare path_segments.simps [simp del]

section \<open>Timestamps\<close>

text \<open>The date of a day, counted from January 1, year 1, in the proleptic Gregorian calendar.\<close>

definition civil_date :: "int \<Rightarrow> int \<times> int \<times> int" where
  "civil_date days =
     (let z = days + 306; era = z div 146097; doe = z mod 146097;
          yoe = (doe - doe div 1460 + doe div 36524 - doe div 146096) div 365;
          doy = doe - (365 * yoe + yoe div 4 - yoe div 100);
          mp = (5 * doy + 2) div 153;
          month = (if mp < 10 then mp + 3 else mp - 9)
      in (yoe + era * 400 + (if month \<le> 2 then 1 else 0), month, doy - (153 * mp + 2) div 5 + 1))"

text \<open>Decimal numbers with leading zeros.\<close>

definition pad :: "nat \<Rightarrow> int \<Rightarrow> string" where
  "pad width i = (let digits = show_int i in replicate (width - length digits) (CHR ''0'') @ digits)"

definition trim_zeros :: "string \<Rightarrow> string" where
  "trim_zeros s = rev (dropWhile (\<lambda>c. c = CHR ''0'') (rev s))"

text \<open>\<open>t.Format(time.RFC3339Nano)\<close> of a time in UTC.\<close>

definition RFC3339Nano :: "Time \<Rightarrow> string" where
  "RFC3339Nano t =
     (let secs = t div 1000000000; nanos = t mod 1000000000; sod = secs mod 86400
      in case civil_date (secs div 86400) of (year, month, day) \<Rightarrow>
        pad 4 year @ ''-'' @ pad 2 month @ ''-'' @ pad 2 day @ ''T'' @
        pad 2 (sod div 3600) @ '':'' @ pad 2 (sod div 60 mod 60) @ '':'' @ pad 2 (sod mod 60) @
        (if nanos = 0 then [] else CHR ''.'' # trim_zeros (pad 9 nanos)) @ ''Z'')"

text \<open>\<open>Time.MarshalJSON\<close> fails outside the years 0 to 9999.\<close>

definition marshal_time :: "Time \<Rightarrow> string option" where
  "marshal_time t =
     (let year = fst (civil_date (t div 1000000000 div 86400))
      in if 0 \<le> year \<and> year \<le> 9999 then Some (RFC3339Nano t) else None)"

end
