(* ===== verification/Http_Wire.thy ===== *)
theory Http_Wire
  imports HttpApi Go_Http
begin

text \<open>
  The HTTP interface at the level of bytes: how \<open>NewHandler\<close>'s patterns route a request, how the
  JSON tags of \<open>internal/domain/model.go\<close> decode its body, with the limit and the checks of
  \<open>decodeJSON\<close>, and how \<open>writeJSON\<close> encodes a response.  A routed request is the
  \<^typ>\<open>HttpRequest\<close> that the handlers of \<open>HttpApi\<close> serve.
\<close>

section \<open>Requests\<close>

text \<open>
  A request as it arrives: method, escaped path, \<open>Content-Type\<close> (empty when absent), the bytes of the body
  and the error of reading on after them, if it is not the end of the body.
\<close>

record WireRequest =
  Wire_Method :: string
  Wire_EscapedPath :: string
  Wire_ContentType :: string
  Wire_Body :: string
  Wire_BodyError :: "string option"

definition maxRequestBytes :: nat where
  "maxRequestBytes = 1048576"

definition body_reader :: "WireRequest \<Rightarrow> string \<times> JsonError" where
  "body_reader req = (Wire_Body req, case Wire_BodyError req of None \<Rightarrow> EOF | Some m \<Rightarrow> ReadError m)"

text \<open>The structs of the requests, with the names of their JSON tags.\<close>

definition CreateAccountRequest_type :: "CreateAccountRequest StructType" where
  "CreateAccountRequest_type =
     \<lparr>Struct_name = ''CreateAccountRequest'', Struct_type = ''domain.CreateAccountRequest'',
      Struct_fields =
        [(''account_id'', ''string'', StringField (\<lambda>x r. r\<lparr>CreateAccount_AccountID := x\<rparr>)),
         (''kind'', ''domain.AccountKind'', StringField (\<lambda>x r. r\<lparr>CreateAccount_Kind := x\<rparr>)),
         (''corporate_account_id'', ''string'', StringField (\<lambda>x r. r\<lparr>CreateAccount_CorporateAccountID := x\<rparr>))]\<rparr>"

definition TopUpRequest_type :: "TopUpRequest StructType" where
  "TopUpRequest_type =
     \<lparr>Struct_name = ''TopUpRequest'', Struct_type = ''domain.TopUpRequest'',
      Struct_fields =
        [(''request_id'', ''string'', StringField (\<lambda>x r. r\<lparr>TopUp_RequestID := x\<rparr>)),
         (''account_id'', ''string'', StringField (\<lambda>x r. r\<lparr>TopUp_AccountID := x\<rparr>)),
         (''amount_cents'', ''uint64'', Uint64Field (\<lambda>x r. r\<lparr>TopUp_AmountCents := x\<rparr>))]\<rparr>"

definition WithdrawalRequest_type :: "WithdrawalRequest StructType" where
  "WithdrawalRequest_type =
     \<lparr>Struct_name = ''WithdrawalRequest'', Struct_type = ''domain.WithdrawalRequest'',
      Struct_fields =
        [(''request_id'', ''string'', StringField (\<lambda>x r. r\<lparr>Withdrawal_RequestID := x\<rparr>)),
         (''account_id'', ''string'', StringField (\<lambda>x r. r\<lparr>Withdrawal_AccountID := x\<rparr>)),
         (''amount_cents'', ''uint64'', Uint64Field (\<lambda>x r. r\<lparr>Withdrawal_AmountCents := x\<rparr>))]\<rparr>"

definition CardAllocationRequest_type :: "CardAllocationRequest StructType" where
  "CardAllocationRequest_type =
     \<lparr>Struct_name = ''CardAllocationRequest'', Struct_type = ''domain.CardAllocationRequest'',
      Struct_fields =
        [(''request_id'', ''string'', StringField (\<lambda>x r. r\<lparr>CardAllocation_RequestID := x\<rparr>)),
         (''account_id'', ''string'', StringField (\<lambda>x r. r\<lparr>CardAllocation_AccountID := x\<rparr>)),
         (''card_id'', ''string'', StringField (\<lambda>x r. r\<lparr>CardAllocation_CardID := x\<rparr>)),
         (''amount_cents'', ''uint64'', Uint64Field (\<lambda>x r. r\<lparr>CardAllocation_AmountCents := x\<rparr>))]\<rparr>"

definition CardReturnRequest_type :: "CardReturnRequest StructType" where
  "CardReturnRequest_type =
     \<lparr>Struct_name = ''CardReturnRequest'', Struct_type = ''domain.CardReturnRequest'',
      Struct_fields =
        [(''request_id'', ''string'', StringField (\<lambda>x r. r\<lparr>CardReturn_RequestID := x\<rparr>)),
         (''account_id'', ''string'', StringField (\<lambda>x r. r\<lparr>CardReturn_AccountID := x\<rparr>)),
         (''card_id'', ''string'', StringField (\<lambda>x r. r\<lparr>CardReturn_CardID := x\<rparr>)),
         (''amount_cents'', ''uint64'', Uint64Field (\<lambda>x r. r\<lparr>CardReturn_AmountCents := x\<rparr>))]\<rparr>"

definition AuthorizationRequest_type :: "AuthorizationRequest StructType" where
  "AuthorizationRequest_type =
     \<lparr>Struct_name = ''AuthorizationRequest'', Struct_type = ''domain.AuthorizationRequest'',
      Struct_fields =
        [(''request_id'', ''string'', StringField (\<lambda>x r. r\<lparr>Authorization_RequestID := x\<rparr>)),
         (''card_id'', ''string'', StringField (\<lambda>x r. r\<lparr>Authorization_CardID := x\<rparr>)),
         (''merchant_id'', ''string'', StringField (\<lambda>x r. r\<lparr>Authorization_MerchantID := x\<rparr>)),
         (''amount_cents'', ''uint64'', Uint64Field (\<lambda>x r. r\<lparr>Authorization_AmountCents := x\<rparr>))]\<rparr>"

definition IncrementAuthorizationRequest_type :: "IncrementAuthorizationRequest StructType" where
  "IncrementAuthorizationRequest_type =
     \<lparr>Struct_name = ''IncrementAuthorizationRequest'', Struct_type = ''domain.IncrementAuthorizationRequest'',
      Struct_fields =
        [(''request_id'', ''string'', StringField (\<lambda>x r. r\<lparr>Increment_RequestID := x\<rparr>)),
         (''authorization_id'', ''string'', StringField (\<lambda>x r. r\<lparr>Increment_AuthorizationID := x\<rparr>)),
         (''increment_cents'', ''uint64'', Uint64Field (\<lambda>x r. r\<lparr>Increment_IncrementCents := x\<rparr>))]\<rparr>"

text \<open>
  What \<open>decodeJSON\<close> sees of a request: the media type, the result of the first \<open>Decode\<close> into the
  zero value \<open>x\<close> of the struct, and whether the second one finds the end of the body.
\<close>

definition read_input :: "(nat \<Rightarrow> bool) \<Rightarrow> 'a StructType \<Rightarrow> 'a \<Rightarrow> WireRequest \<Rightarrow> 'a HttpInput" where
  "read_input is_print t x req =
     (case MaxBytesReader maxRequestBytes (body_reader req) of (data, err) \<Rightarrow>
        \<lparr>Input_ContentType = Wire_ContentType req,
         Input_mediaType = ParseMediaType (Wire_ContentType req),
         Input_decoded =
           (case readValue data err of
              Inl e \<Rightarrow> Inl (JsonError_Error is_print e)
            | Inr (v, rest) \<Rightarrow>
                (case unmarshal True t v x of Inl e \<Rightarrow> Inl (JsonError_Error is_print e) | Inr y \<Rightarrow> Inr y)),
         Input_atEOF =
           (case readValue data err of
              Inl e \<Rightarrow> False
            | Inr (v, rest) \<Rightarrow> readValue rest err = Inl EOF)\<rparr>)"

section \<open>Routing\<close>

datatype Segment = Literal string | Wildcard

text \<open>The values of the wildcards when a pattern matches the segments of a path.\<close>

fun match_path :: "Segment list \<Rightarrow> string list \<Rightarrow> string list option" where
  "match_path [] [] = Some []"
| "match_path (Literal l # ps) (seg # segs) = (if seg = l then match_path ps segs else None)"
| "match_path (Wildcard # ps) (seg # segs) =
     (if seg = ''/'' then None else map_option ((#) seg) (match_path ps segs))"
| "match_path _ _ = None"

datatype Routed =
    Routed HttpRequest
  | RoutedMetrics
  | Redirected string
  | MethodNotAllowed "string list"
  | NotFound

datatype Endpoint = Operation HttpRequest | Exposition

text \<open>The patterns of \<open>NewHandler\<close>, with the request each handler gets.\<close>

definition mux_patterns ::
  "(nat \<Rightarrow> bool) \<Rightarrow> WireRequest \<Rightarrow> (string \<times> Segment list \<times> (string list \<Rightarrow> Endpoint)) list" where
  "mux_patterns is_print req =
     [(''POST'', [Literal ''v1'', Literal ''accounts''], \<lambda>_. Operation (PostAccounts
         (read_input is_print CreateAccountRequest_type
           \<lparr>CreateAccount_AccountID = [], CreateAccount_Kind = [], CreateAccount_CorporateAccountID = []\<rparr> req))),
      (''GET'', [Literal ''v1'', Literal ''accounts'', Wildcard], \<lambda>ms. Operation (GetAccount (hd ms))),
      (''POST'', [Literal ''v1'', Literal ''topups''], \<lambda>_. Operation (PostTopUps
         (read_input is_print TopUpRequest_type
           \<lparr>TopUp_RequestID = [], TopUp_AccountID = [], TopUp_AmountCents = 0\<rparr> req))),
      (''POST'', [Literal ''v1'', Literal ''withdrawals''], \<lambda>_. Operation (PostWithdrawals
         (read_input is_print WithdrawalRequest_type
           \<lparr>Withdrawal_RequestID = [], Withdrawal_AccountID = [], Withdrawal_AmountCents = 0\<rparr> req))),
      (''POST'', [Literal ''v1'', Literal ''card-allocations''], \<lambda>_. Operation (PostCardAllocations
         (read_input is_print CardAllocationRequest_type
           \<lparr>CardAllocation_RequestID = [], CardAllocation_AccountID = [], CardAllocation_CardID = [],
            CardAllocation_AmountCents = 0\<rparr> req))),
      (''POST'', [Literal ''v1'', Literal ''card-returns''], \<lambda>_. Operation (PostCardReturns
         (read_input is_print CardReturnRequest_type
           \<lparr>CardReturn_RequestID = [], CardReturn_AccountID = [], CardReturn_CardID = [],
            CardReturn_AmountCents = 0\<rparr> req))),
      (''POST'', [Literal ''v1'', Literal ''authorizations''], \<lambda>_. Operation (PostAuthorizations
         (read_input is_print AuthorizationRequest_type
           \<lparr>Authorization_RequestID = [], Authorization_CardID = [], Authorization_MerchantID = [],
            Authorization_AmountCents = 0\<rparr> req))),
      (''POST'', [Literal ''v1'', Literal ''authorizations'', Literal ''increments''], \<lambda>_. Operation (PostIncrements
         (read_input is_print IncrementAuthorizationRequest_type
           \<lparr>Increment_RequestID = [], Increment_AuthorizationID = [], Increment_IncrementCents = 0\<rparr> req))),
      (''GET'', [Literal ''health'', Literal ''live''], \<lambda>_. Operation GetLive),
      (''GET'', [Literal ''health'', Literal ''ready''], \<lambda>_. Operation GetReady),
      (''GET'', [Literal ''metrics''], \<lambda>_. Exposition)]"

text \<open>The request of a pattern for \<open>GET\<close> that was sent as \<open>HEAD\<close>.\<close>

fun head_request :: "HttpRequest \<Rightarrow> HttpRequest" where
  "head_request (GetAccount v) = HeadAccount v"
| "head_request GetLive = HeadLive"
| "head_request GetReady = HeadReady"
| "head_request r = r"

text \<open>
  \<open>http.ServeMux\<close>: a path that is not clean is redirected, a pattern for \<open>GET\<close> also matches
  \<open>HEAD\<close>, whose response is sent without its body, and a path whose patterns all have another
  method is told the methods it has.
\<close>

definition route :: "(nat \<Rightarrow> bool) \<Rightarrow> WireRequest \<Rightarrow> Routed" where
  "route is_print req =
     (let path = Wire_EscapedPath req; verb = Wire_Method req;
          clean = (if verb = ''CONNECT'' then path else cleanPath path);
          segs = path_segments clean;
          matching = filter (\<lambda>(m, ps, _). match_path ps segs \<noteq> None) (mux_patterns is_print req)
      in if clean \<noteq> path then Redirected clean
         else case find (\<lambda>(m, _). m = verb \<or> m = ''GET'' \<and> verb = ''HEAD'') matching of
           Some (m, ps, endpoint) \<Rightarrow>
             (case endpoint (the (match_path ps segs)) of
                Operation r \<Rightarrow> Routed (if verb = ''HEAD'' then head_request r else r)
              | Exposition \<Rightarrow> RoutedMetrics)
         | None \<Rightarrow>
             if matching = [] then NotFound
             else MethodNotAllowed (concat (map (\<lambda>(m, _). if m = ''GET'' then [m, ''HEAD''] else [m]) matching)))"

section \<open>Responses\<close>

text \<open>
  The members of a response: the fields of its struct in their order, those with \<open>omitempty\<close>
  left out when they are empty, and the keys of a map sorted.  The result is \<^const>\<open>None\<close> when a
  timestamp cannot be encoded.
\<close>

fun response_members :: "ResponseBody \<Rightarrow> (string \<times> Value) list option" where
  "response_members (BodyAccount r) = Some
     ([(''account_id'', StringValue (AccountResp_AccountID r)), (''kind'', StringValue (AccountResp_Kind r))] @
      omitempty ''corporate_account_id'' (StringValue (AccountResp_CorporateAccountID r)) @
      [(''status'', StringValue (AccountResp_Status r)), (''timestamp'', Uint64Value (AccountResp_Timestamp r))])"
| "response_members (BodyBalance r) = Some
     ([(''account_id'', StringValue (BalanceResp_AccountID r)), (''kind'', StringValue (BalanceResp_Kind r))] @
      omitempty ''corporate_account_id'' (StringValue (BalanceResp_CorporateAccountID r)) @
      [(''debits_pending'', StringValue (BalanceResp_DebitsPending r)),
       (''debits_posted'', StringValue (BalanceResp_DebitsPosted r)),
       (''credits_pending'', StringValue (BalanceResp_CreditsPending r)),
       (''credits_posted'', StringValue (BalanceResp_CreditsPosted r)),
       (''posted_balance'', StringValue (BalanceResp_PostedBalance r)),
       (''available_balance'', StringValue (BalanceResp_AvailableBalance r)),
       (''timestamp'', Uint64Value (BalanceResp_Timestamp r))])"
| "response_members (BodyTransaction r) = Some
     ([(''request_id'', StringValue (TxResp_RequestID r)),
       (''transaction_id'', StringValue (TxResp_TransactionID r)),
       (''status'', StringValue (TxResp_Status r)), (''ledger_status'', StringValue (TxResp_LedgerStatus r))] @
      omitempty ''timestamp'' (Uint64Value (TxResp_Timestamp r)) @
      omitempty ''error_code'' (StringValue (TxResp_ErrorCode r)) @
      omitempty ''message'' (StringValue (TxResp_Message r)))"
| "response_members (BodyAuthorization r) =
     (case (case AuthResp_ExpiresAt r of
              None \<Rightarrow> Some []
            | Some t \<Rightarrow> map_option (\<lambda>s. [(''expires_at'', StringValue s)]) (marshal_time t)) of
        None \<Rightarrow> None
      | Some expires \<Rightarrow> Some
          ([(''request_id'', StringValue (AuthResp_RequestID r)),
            (''authorization_id'', StringValue (AuthResp_AuthorizationID r))] @
           omitempty ''hold_transfer_id'' (StringValue (AuthResp_HoldTransferID r)) @
           [(''status'', StringValue (AuthResp_Status r)), (''ledger_status'', StringValue (AuthResp_LedgerStatus r)),
            (''evaluation_time_ms'', IntValue (AuthResp_EvaluationTimeMS r))] @
           expires @
           omitempty ''timestamp'' (Uint64Value (AuthResp_Timestamp r)) @
           omitempty ''error_code'' (StringValue (AuthResp_ErrorCode r)) @
           omitempty ''message'' (StringValue (AuthResp_Message r))))"
| "response_members (BodyIncrement r) = Some
     ([(''request_id'', StringValue (IncResp_RequestID r)),
       (''authorization_id'', StringValue (IncResp_AuthorizationID r))] @
      omitempty ''hold_transfer_id'' (StringValue (IncResp_HoldTransferID r)) @
      [(''status'', StringValue (IncResp_Status r)), (''ledger_status'', StringValue (IncResp_LedgerStatus r)),
       (''increment_cents'', Uint64Value (IncResp_IncrementCents r)),
       (''evaluation_time_ms'', IntValue (IncResp_EvaluationTimeMS r))] @
      omitempty ''timestamp'' (Uint64Value (IncResp_Timestamp r)) @
      omitempty ''error_code'' (StringValue (IncResp_ErrorCode r)) @
      omitempty ''message'' (StringValue (IncResp_Message r)))"
| "response_members (BodyError r) = Some
     [(''status'', StringValue (ErrorResp_Status r)), (''error_code'', StringValue (ErrorResp_ErrorCode r)),
      (''message'', StringValue (ErrorResp_Message r))]"
| "response_members (BodyLive st) = Some [(''status'', StringValue st)]"
| "response_members (BodyReady r) = Some
     ((case Ready_lastLedgerSuccess r of
         None \<Rightarrow> [] | Some t \<Rightarrow> [(''last_ledger_success'', StringValue (RFC3339Nano t))]) @
      [(''ledger_calls_in_flight'', IntValue (Ready_ledgerCallsInFlight r)),
       (''oldest_ledger_call_ms'', IntValue (Ready_oldestLedgerCallMS r))] @
      (case Ready_reason r of None \<Rightarrow> [] | Some m \<Rightarrow> [(''reason'', StringValue m)]) @
      [(''status'', StringValue (Ready_status r))])"

text \<open>\<open>Encoder.Encode\<close> ends with a newline, and writes nothing when it fails.\<close>

definition encode_body :: "ResponseBody \<Rightarrow> string" where
  "encode_body body =
     (case response_members body of None \<Rightarrow> [] | Some ms \<Rightarrow> encode_object ms @ [CHR 0x0A])"

record WireResponse =
  WireResp_status :: int
  WireResp_headers :: "(string \<times> string) list"
  WireResp_body :: string

definition wire_response :: "HttpResponse \<Rightarrow> WireResponse" where
  "wire_response resp =
     \<lparr>WireResp_status = Http_status resp,
      WireResp_headers = (if Http_retryAfter resp then [(''Retry-After'', ''1'')] else []) @
        [(''Content-Type'', ''application/json'')],
      WireResp_body = encode_body (Http_body resp)\<rparr>"

section \<open>The API as a table\<close>

text \<open>
  The documented endpoints: for the segments of a path, the method and what serves it.
\<close>

fun api_endpoint :: "(nat \<Rightarrow> bool) \<Rightarrow> WireRequest \<Rightarrow> string list \<Rightarrow> (string \<times> Endpoint) option" where
  "api_endpoint is_print req [a] = (if a = ''metrics'' then Some (''GET'', Exposition) else None)"
| "api_endpoint is_print req [a, b] =
     (if a = ''health'' then
        if b = ''live'' then Some (''GET'', Operation GetLive)
        else if b = ''ready'' then Some (''GET'', Operation GetReady) else None
      else if a = ''v1'' then
        if b = ''accounts'' then Some (''POST'', Operation (PostAccounts (read_input is_print CreateAccountRequest_type
          \<lparr>CreateAccount_AccountID = [], CreateAccount_Kind = [], CreateAccount_CorporateAccountID = []\<rparr> req)))
        else if b = ''topups'' then Some (''POST'', Operation (PostTopUps (read_input is_print TopUpRequest_type
          \<lparr>TopUp_RequestID = [], TopUp_AccountID = [], TopUp_AmountCents = 0\<rparr> req)))
        else if b = ''withdrawals'' then Some (''POST'', Operation (PostWithdrawals (read_input is_print WithdrawalRequest_type
          \<lparr>Withdrawal_RequestID = [], Withdrawal_AccountID = [], Withdrawal_AmountCents = 0\<rparr> req)))
        else if b = ''card-allocations'' then Some (''POST'', Operation (PostCardAllocations
          (read_input is_print CardAllocationRequest_type \<lparr>CardAllocation_RequestID = [],
            CardAllocation_AccountID = [], CardAllocation_CardID = [], CardAllocation_AmountCents = 0\<rparr> req)))
        else if b = ''card-returns'' then Some (''POST'', Operation (PostCardReturns
          (read_input is_print CardReturnRequest_type \<lparr>CardReturn_RequestID = [],
            CardReturn_AccountID = [], CardReturn_CardID = [], CardReturn_AmountCents = 0\<rparr> req)))
        else if b = ''authorizations'' then Some (''POST'', Operation (PostAuthorizations
          (read_input is_print AuthorizationRequest_type \<lparr>Authorization_RequestID = [],
            Authorization_CardID = [], Authorization_MerchantID = [], Authorization_AmountCents = 0\<rparr> req)))
        else None
      else None)"
| "api_endpoint is_print req [a, b, e] =
     (if a = ''v1'' \<and> b = ''accounts'' \<and> e \<noteq> ''/'' then Some (''GET'', Operation (GetAccount e))
      else if a = ''v1'' \<and> b = ''authorizations'' \<and> e = ''increments'' then Some (''POST'', Operation (PostIncrements
        (read_input is_print IncrementAuthorizationRequest_type \<lparr>Increment_RequestID = [],
          Increment_AuthorizationID = [], Increment_IncrementCents = 0\<rparr> req)))
      else None)"
| "api_endpoint is_print req _ = None"

lemma segments_cases:
  obtains "segs = []" | a where "segs = [a]" | a b where "segs = [a, b]" | a b e where "segs = [a, b, e]"
    | a b e d rest where "segs = a # b # e # d # rest"
  by (metis list.exhaust)

text \<open>The patterns that match a path: the one the table has for it, or none.\<close>

lemma matching_patterns:
  "map (\<lambda>(m, ps, f). (m, f (the (match_path ps segs))))
     (filter (\<lambda>(m, ps, _). match_path ps segs \<noteq> None) (mux_patterns is_print req)) =
   (case api_endpoint is_print req segs of None \<Rightarrow> [] | Some e \<Rightarrow> [e])"
  by (cases segs rule: segments_cases) (auto simp: mux_patterns_def)

lemma matching_cases:
  fixes is_print req segs
  defines "matching \<equiv> filter (\<lambda>(m, ps, _). match_path ps segs \<noteq> None) (mux_patterns is_print req)"
  obtains "api_endpoint is_print req segs = None" "matching = []"
  | m ps f where "api_endpoint is_print req segs = Some (m, f (the (match_path ps segs)))" "matching = [(m, ps, f)]"
  using matching_patterns [of segs is_print req] unfolding matching_def [symmetric]
  by (cases "api_endpoint is_print req segs") auto

lemma route_table:
  assumes "Wire_Method req \<noteq> ''CONNECT''"
  shows "route is_print req =
    (if cleanPath (Wire_EscapedPath req) \<noteq> Wire_EscapedPath req
     then Redirected (cleanPath (Wire_EscapedPath req))
     else case api_endpoint is_print req (path_segments (Wire_EscapedPath req)) of
       None \<Rightarrow> NotFound
     | Some (m, e) \<Rightarrow>
         if Wire_Method req = m \<or> m = ''GET'' \<and> Wire_Method req = ''HEAD'' then
           (case e of
              Operation r \<Rightarrow> Routed (if Wire_Method req = ''HEAD'' then head_request r else r)
            | Exposition \<Rightarrow> RoutedMetrics)
         else MethodNotAllowed (if m = ''GET'' then [''GET'', ''HEAD''] else [m]))"
proof (cases "cleanPath (Wire_EscapedPath req) = Wire_EscapedPath req")
  case True
  show ?thesis
    by (rule matching_cases [where is_print = is_print and req = req and
          segs = "path_segments (Wire_EscapedPath req)"]) (use assms True in \<open>auto simp: route_def Let_def\<close>)
next
  case False
  with assms show ?thesis by (simp add: route_def Let_def)
qed

text \<open>A routed request is an entry of the table.\<close>

lemma route_endpoint:
  assumes "route is_print req = Routed r"
  shows "\<exists>segs m r'. api_endpoint is_print req segs = Some (m, Operation r') \<and> (r = r' \<or> r = head_request r')"
proof -
  obtain segs where segs: "segs = path_segments (if Wire_Method req = ''CONNECT'' then Wire_EscapedPath req
      else cleanPath (Wire_EscapedPath req))" by blast
  show ?thesis
    by (rule matching_cases [where is_print = is_print and req = req and segs = segs])
      (use assms in \<open>auto simp: route_def Let_def segs split: if_splits Endpoint.splits\<close>)
qed

section \<open>What is accepted\<close>

lemma decodeJSON_Inr:
  assumes "decodeJSON (read_input is_print t x req) = Inr y"
  obtains v space where "length (Wire_Body req) \<le> maxRequestBytes" "Wire_BodyError req = None"
    "readValue (Wire_Body req) EOF = Inr (v, space)" "list_all isSpace space" "unmarshal True t v x = Inr y"
proof -
  obtain data err where b: "MaxBytesReader maxRequestBytes (body_reader req) = (data, err)" by fastforce
  then obtain v space where r: "readValue data err = Inr (v, space)" "unmarshal True t v x = Inr y"
      "readValue space err = Inl EOF"
    using assms by (auto simp: decodeJSON_def read_input_def split: if_splits sum.splits)
  then have "err = EOF" using readValue_no_EOF by blast
  then have "length (Wire_Body req) \<le> maxRequestBytes" "Wire_BodyError req = None" "data = Wire_Body req"
    using b by (auto simp: MaxBytesReader_def body_reader_def split: if_splits option.splits)
  with r \<open>err = EOF\<close> show ?thesis
    using that readValue_EOF by simp
qed

text \<open>The strings of the struct a request is decoded to.\<close>

fun request_strings :: "HttpRequest \<Rightarrow> string list" where
  "request_strings (PostAccounts input) =
     (case decodeJSON input of Inl _ \<Rightarrow> [] | Inr r \<Rightarrow>
        [CreateAccount_AccountID r, CreateAccount_Kind r, CreateAccount_CorporateAccountID r])"
| "request_strings (PostTopUps input) =
     (case decodeJSON input of Inl _ \<Rightarrow> [] | Inr r \<Rightarrow> [TopUp_RequestID r, TopUp_AccountID r])"
| "request_strings (PostWithdrawals input) =
     (case decodeJSON input of Inl _ \<Rightarrow> [] | Inr r \<Rightarrow> [Withdrawal_RequestID r, Withdrawal_AccountID r])"
| "request_strings (PostCardAllocations input) =
     (case decodeJSON input of Inl _ \<Rightarrow> [] | Inr r \<Rightarrow>
        [CardAllocation_RequestID r, CardAllocation_AccountID r, CardAllocation_CardID r])"
| "request_strings (PostCardReturns input) =
     (case decodeJSON input of Inl _ \<Rightarrow> [] | Inr r \<Rightarrow>
        [CardReturn_RequestID r, CardReturn_AccountID r, CardReturn_CardID r])"
| "request_strings (PostAuthorizations input) =
     (case decodeJSON input of Inl _ \<Rightarrow> [] | Inr r \<Rightarrow>
        [Authorization_RequestID r, Authorization_CardID r, Authorization_MerchantID r])"
| "request_strings (PostIncrements input) =
     (case decodeJSON input of Inl _ \<Rightarrow> [] | Inr r \<Rightarrow> [Increment_RequestID r, Increment_AuthorizationID r])"
| "request_strings _ = []"

lemma decoded_keeps:
  assumes "kept_by_fields P (Struct_fields t)" "P x" "decodeJSON (read_input is_print t x req) = Inr y"
  shows "P y"
  using decodeJSON_Inr [OF assms(3)] unmarshal_keeps [OF assms(1,2)] by metis

lemmas struct_types = CreateAccountRequest_type_def TopUpRequest_type_def WithdrawalRequest_type_def
  CardAllocationRequest_type_def CardReturnRequest_type_def AuthorizationRequest_type_def
  IncrementAuthorizationRequest_type_def

lemma api_endpoint_strings:
  assumes "api_endpoint is_print req segs = Some (m, Operation r)"
  shows "list_all valid_utf8 (request_strings r)"
proof -
  have ops: "list_all valid_utf8 (case decodeJSON (read_input is_print t x req) of Inl _ \<Rightarrow> [] | Inr y \<Rightarrow> strings y)"
    if "kept_by_fields (\<lambda>y. list_all valid_utf8 (strings y)) (Struct_fields t)" "list_all valid_utf8 (strings x)"
    for t :: "'a StructType" and x strings
    using decoded_keeps [OF that] by (auto split: sum.splits)
  show ?thesis
    using assms
    by (cases segs rule: segments_cases)
      (auto split: if_splits intro!: ops simp: struct_types kept_by_fields_def)
qed

text \<open>
  Text is well-formed: every string of a request that reaches a handler, from its ID to its
  merchant, is valid UTF-8, whatever bytes and escapes the body had.
\<close>

lemma request_text_valid:
  assumes "route is_print req = Routed r"
  shows "list_all valid_utf8 (request_strings r)"
proof -
  have "request_strings (head_request r') = request_strings r'" for r'
    by (cases r') simp_all
  with route_endpoint [OF assms] api_endpoint_strings show ?thesis by metis
qed

end
