(* ===== verification/Go_Flag.thy ===== *)
theory Go_Flag
  imports Go_Json
begin

text \<open>
  The part of package \<open>flag\<close> the load generator uses: \<open>FlagSet.Parse\<close> for flags that are strings,
  integers and durations, and the parsing of integers in base 0, where a prefix selects the base and
  underscores may separate digits.
\<close>

section \<open>Integers in base 0\<close>

datatype NumError = ErrSyntax | ErrRange

definition digit_of :: "char \<Rightarrow> int option" where
  "digit_of c =
     (if is_digit c then Some (digit_value c)
      else if 97 \<le> byte_of c \<and> byte_of c \<le> 122 then Some (int (byte_of c) - 87)
      else if 65 \<le> byte_of c \<and> byte_of c \<le> 90 then Some (int (byte_of c) - 55)
      else None)"

text \<open>The loop over the digits, for 64 bits; underscores are skipped here and checked afterwards.\<close>

fun parse_digits :: "int \<Rightarrow> string \<Rightarrow> int \<Rightarrow> NumError + int" where
  "parse_digits base [] n = Inr n"
| "parse_digits base (c # s) n =
     (if c = CHR ''_'' then parse_digits base s n
      else case digit_of c of
        None \<Rightarrow> Inl ErrSyntax
      | Some d \<Rightarrow>
          if base \<le> d then Inl ErrSyntax
          else if 2 ^ 64 \<le> n * base + d then Inl ErrRange
          else parse_digits base s (n * base + d))"

text \<open>The last character that \<open>underscoreOK\<close> saw.\<close>

datatype Saw = SawBegin | SawDigit | SawUnderscore | SawOther

fun underscores_between :: "bool \<Rightarrow> Saw \<Rightarrow> string \<Rightarrow> bool" where
  "underscores_between hex saw [] \<longleftrightarrow> saw \<noteq> SawUnderscore"
| "underscores_between hex saw (c # s) \<longleftrightarrow>
     (if is_digit c \<or> hex \<and> is_hex c then underscores_between hex SawDigit s
      else if c = CHR ''_'' then saw = SawDigit \<and> underscores_between hex SawUnderscore s
      else saw \<noteq> SawUnderscore \<and> underscores_between hex SawOther s)"

text \<open>The base that a prefix selects.\<close>

definition prefix_base :: "char \<Rightarrow> int option" where
  "prefix_base c =
     (if c = CHR ''b'' \<or> c = CHR ''B'' then Some 2
      else if c = CHR ''o'' \<or> c = CHR ''O'' then Some 8
      else if c = CHR ''x'' \<or> c = CHR ''X'' then Some 16
      else None)"

definition underscoreOK :: "string \<Rightarrow> bool" where
  "underscoreOK s =
     (let t = (if s \<noteq> [] \<and> (hd s = CHR ''-'' \<or> hd s = CHR ''+'') then tl s else s)
      in if 2 \<le> length t \<and> hd t = CHR ''0'' \<and> prefix_base (t ! 1) \<noteq> None
         then underscores_between (prefix_base (t ! 1) = Some 16) SawDigit (drop 2 t)
         else underscores_between False SawBegin t)"

definition ParseUint0 :: "string \<Rightarrow> NumError + int" where
  "ParseUint0 s =
     (if s = [] then Inl ErrSyntax
      else
        let (base, digits) =
              (if hd s \<noteq> CHR ''0'' then (10, s)
               else if 3 \<le> length s then
                 (case prefix_base (s ! 1) of Some b \<Rightarrow> (b, drop 2 s) | None \<Rightarrow> (8, tl s))
               else (8, tl s))
        in case parse_digits base digits 0 of
             Inl e \<Rightarrow> Inl e
           | Inr n \<Rightarrow> if CHR ''_'' \<in> set digits \<and> \<not> underscoreOK s then Inl ErrSyntax else Inr n)"

definition ParseInt0 :: "string \<Rightarrow> NumError + int" where
  "ParseInt0 s =
     (if s = [] then Inl ErrSyntax
      else
        let neg = (hd s = CHR ''-'')
        in case ParseUint0 (if hd s = CHR ''+'' \<or> neg then tl s else s) of
             Inl e \<Rightarrow> Inl e
           | Inr un \<Rightarrow>
               if \<not> neg \<and> 2 ^ 63 \<le> un \<or> neg \<and> 2 ^ 63 < un then Inl ErrRange
               else Inr (if neg then - un else un))"

section \<open>Flags\<close>

datatype 'a FlagKind =
    StringFlag "string \<Rightarrow> 'a \<Rightarrow> 'a"
  | Uint64Flag "uint64 \<Rightarrow> 'a \<Rightarrow> 'a"
  | IntFlag "int \<Rightarrow> 'a \<Rightarrow> 'a"
  | DurationFlag "Duration \<Rightarrow> 'a \<Rightarrow> 'a"

text \<open>\<open>numError\<close> shortens the error of the parser.\<close>

fun numError :: "NumError \<Rightarrow> string" where
  "numError ErrSyntax = ''parse error''"
| "numError ErrRange = ''value out of range''"

text \<open>\<open>Value.Set\<close>: a message, or the variables with the value assigned.\<close>

fun flag_set :: "'a FlagKind \<Rightarrow> string \<Rightarrow> 'a \<Rightarrow> string + 'a" where
  "flag_set (StringFlag f) v x = Inr (f v x)"
| "flag_set (Uint64Flag f) v x =
     (case ParseUint0 v of Inl e \<Rightarrow> Inl (numError e) | Inr n \<Rightarrow> Inr (f (word_of_int n) x))"
| "flag_set (IntFlag f) v x =
     (case ParseInt0 v of Inl e \<Rightarrow> Inl (numError e) | Inr i \<Rightarrow> Inr (f i x))"
| "flag_set (DurationFlag f) v x =
     (case ParseDuration v of None \<Rightarrow> Inl ''parse error'' | Some d \<Rightarrow> Inr (f d x))"

text \<open>\<open>-h\<close> and \<open>-help\<close> ask for the usage when they are not defined.\<close>

datatype FlagError =
    ErrHelp
  | FlagFailed string

definition flag_set_named ::
  "(nat \<Rightarrow> bool) \<Rightarrow> string \<Rightarrow> 'a FlagKind \<Rightarrow> string \<Rightarrow> 'a \<Rightarrow> FlagError + 'a" where
  "flag_set_named is_print name kind v x =
     (case flag_set kind v x of
        Inr y \<Rightarrow> Inr y
      | Inl msg \<Rightarrow>
          Inl (FlagFailed (''invalid value '' @ Quote is_print v @ '' for flag -'' @ name @ '': '' @ msg)))"

text \<open>\<open>Parse\<close>: flags up to the first argument that is none, or up to \<open>--\<close>.\<close>

function flag_Parse ::
  "(nat \<Rightarrow> bool) \<Rightarrow> (string \<times> 'a FlagKind) list \<Rightarrow> string list \<Rightarrow> 'a \<Rightarrow> FlagError + 'a" where
  "flag_Parse is_print formal [] x = Inr x"
| "flag_Parse is_print formal (s # args) x =
     (if length s < 2 \<or> hd s \<noteq> CHR ''-'' \<or> s = ''--'' then Inr x
      else
        let arg = (if s ! 1 = CHR ''-'' then drop 2 s else drop 1 s)
        in if arg = [] \<or> hd arg = CHR ''-'' \<or> hd arg = CHR ''=''
           then Inl (FlagFailed (''bad flag syntax: '' @ s))
           else
             let name = hd arg # takeWhile (\<lambda>c. c \<noteq> CHR ''='') (tl arg);
                 given = dropWhile (\<lambda>c. c \<noteq> CHR ''='') (tl arg)
             in case map_of formal name of
                  None \<Rightarrow>
                    Inl (if name = ''help'' \<or> name = ''h'' then ErrHelp
                      else FlagFailed (''flag provided but not defined: -'' @ name))
                | Some kind \<Rightarrow>
                    if given \<noteq> [] then
                      (case flag_set_named is_print name kind (tl given) x of
                         Inl e \<Rightarrow> Inl e
                       | Inr y \<Rightarrow> flag_Parse is_print formal args y)
                    else
                      (case args of
                         [] \<Rightarrow> Inl (FlagFailed (''flag needs an argument: -'' @ name))
                       | v # args' \<Rightarrow>
                           (case flag_set_named is_print name kind v x of
                              Inl e \<Rightarrow> Inl e
                            | Inr y \<Rightarrow> flag_Parse is_print formal args' y)))"
  by pat_completeness auto
termination
  by (relation "measure (\<lambda>(is_print, formal, args, x). length args)") auto

declare flag_Parse.simps(2) [simp del]

section \<open>Round trips\<close>

lemma digit_of_digit: "is_digit c \<Longrightarrow> c \<noteq> CHR ''_'' \<and> digit_of c = Some (digit_value c) \<and> digit_value c < 10"
  by (auto simp: digit_of_def is_digit_def digit_value_def)

lemma parse_digits_decimal:
  assumes "list_all is_digit ds" "0 \<le> n" "read_digits n ds < 2 ^ 64"
  shows "parse_digits 10 ds n = Inr (read_digits n ds)"
  using assms
proof (induction ds arbitrary: n)
  case (Cons c ds)
  have "0 \<le> n * 10 + digit_value c" "n * 10 + digit_value c \<le> read_digits n (c # ds)"
    using Cons.prems read_digits_mono [of "n * 10 + digit_value c" ds] digit_value_nonneg [of c] by simp_all
  with Cons digit_of_digit [of c] show ?case by simp
qed simp

lemma ParseUint0_show:
  assumes "int n < 2 ^ 64"
  shows "ParseUint0 (show_nat n) = Inr (int n)"
proof (cases n rule: show_nat_cases)
  case 1
  with show_nat_digits [of n] have "int n = 0" by (simp add: digit_value_def)
  with 1 show ?thesis by (simp add: ParseUint0_def)
next
  case (2 c ds)
  have "CHR ''_'' \<notin> set (show_nat n)"
    using show_nat_digits [of n] digit_of_digit by (auto simp: list_all_iff)
  moreover have "parse_digits 10 (show_nat n) 0 = Inr (int n)"
    using parse_digits_decimal [of "show_nat n" 0] show_nat_digits [of n] assms by simp
  ultimately show ?thesis
    using 2(1,2) by (simp add: ParseUint0_def Let_def)
qed

lemma ParseInt0_show:
  assumes "- (2 ^ 63) \<le> i" "i < 2 ^ 63"
  shows "ParseInt0 (show_int i) = Inr i"
proof (cases "i < 0")
  case True
  with assms have "ParseUint0 (show_nat (nat (- i))) = Inr (- i)"
    using ParseUint0_show [of "nat (- i)"] by simp
  with True assms show ?thesis by (simp add: ParseInt0_def show_int_def)
next
  case False
  with assms have "ParseUint0 (show_nat (nat i)) = Inr i"
    using ParseUint0_show [of "nat i"] by simp
  moreover have "hd (show_nat (nat i)) \<noteq> CHR ''-''" "hd (show_nat (nat i)) \<noteq> CHR ''+''"
    using hd_show_nat [of "nat i"] by (auto simp: is_digit_def)
  ultimately show ?thesis
    using False assms by (simp add: ParseInt0_def show_int_def Let_def)
qed

text \<open>An argument that names its flag and gives its value after an equals sign.\<close>

definition flag_arg :: "string \<times> string \<Rightarrow> string" where
  "flag_arg a = CHR ''-'' # fst a @ CHR ''='' # snd a"

definition flag_name :: "string \<Rightarrow> bool" where
  "flag_name name \<longleftrightarrow> name \<noteq> [] \<and> hd name \<noteq> CHR ''-'' \<and> CHR ''='' \<notin> set name"

lemma flag_Parse_arg:
  assumes "flag_name name" "map_of formal name = Some kind" "flag_set kind v x = Inr y"
  shows "flag_Parse is_print formal (flag_arg (name, v) # args) x = flag_Parse is_print formal args y"
proof -
  obtain c cs where name: "name = c # cs" "c \<noteq> CHR ''-''" "c \<noteq> CHR ''=''" "CHR ''='' \<notin> set cs"
    using assms(1) by (cases name) (auto simp: flag_name_def)
  have "takeWhile (\<lambda>c. c \<noteq> CHR ''='') (cs @ CHR ''='' # v) = cs"
    "dropWhile (\<lambda>c. c \<noteq> CHR ''='') (cs @ CHR ''='' # v) = CHR ''='' # v"
    using name(4) by (induction cs) auto
  with name assms(2,3) show ?thesis
    by (simp add: flag_Parse.simps(2) flag_arg_def flag_set_named_def Let_def)
qed

end
