(* ===== verification/Load_Test.thy ===== *)
theory Load_Test
  imports Ledger_Model Go_Flag "HOL-Library.AList" "HOL-Library.Multiset" "HOL-Library.Char_ord"
    "HOL-Library.List_Lexorder"
begin

text \<open>
  \<open>cmd/loadtest/main.go\<close>: the load generator.  Modelled are its options and their validation, the
  request it sends and the classification of the answer, the exchange of jobs and results between
  its goroutines as a step relation, and the summary with its percentiles in \<open>float64\<close>.  The HTTP
  exchange and the clock are inputs.
\<close>

section \<open>Options\<close>

record Options =
  opt_baseURL :: string
  opt_operation :: string
  opt_accountID :: string
  opt_cardID :: string
  opt_authorizationID :: string
  opt_merchantID :: string
  opt_amountCents :: uint64
  opt_requests :: int
  opt_concurrency :: int
  opt_runs :: int
  opt_warmup :: int
  opt_timeout :: Duration

definition defaultCorporateAccountID :: string where
  "defaultCorporateAccountID = ''19c5d2b61ac27dd55d9c9daff5af441''"

definition defaultCardAccountID :: string where
  "defaultCardAccountID = ''19c5d2b61ac27dd55d9c9daff5af442''"

definition defaultAuthorizationID :: string where
  "defaultAuthorizationID = ''19c5d2b61ac27dd55d9c9daff5af445''"

definition postedConcurrency :: int where
  "postedConcurrency = 256"

definition riskConcurrency :: int where
  "riskConcurrency = 4096"

definition defaultConcurrency :: "string \<Rightarrow> int" where
  "defaultConcurrency operation =
     (if operation = ''authorize'' \<or> operation = ''increment'' then riskConcurrency else postedConcurrency)"

lemmas loadtest_defaults = defaultCorporateAccountID_def defaultCardAccountID_def defaultAuthorizationID_def
  postedConcurrency_def riskConcurrency_def

text \<open>\<open>parseFlags\<close>: the defaults, the flags, and the concurrency when it is left at zero.\<close>

definition default_options :: Options where
  "default_options =
     \<lparr>opt_baseURL = ''http://127.0.0.1:8080'', opt_operation = ''authorize'',
      opt_accountID = defaultCorporateAccountID,
      opt_cardID = defaultCardAccountID,
      opt_authorizationID = defaultAuthorizationID,
      opt_merchantID = ''MRC_009'', opt_amountCents = 1, opt_requests = 10000, opt_concurrency = 0,
      opt_runs = 3, opt_warmup = 1000, opt_timeout = 15 * second\<rparr>"

definition loadtest_flags :: "(string \<times> Options FlagKind) list" where
  "loadtest_flags =
     [(''url'', StringFlag (\<lambda>v. opt_baseURL_update (\<lambda>_. v))),
      (''operation'', StringFlag (\<lambda>v. opt_operation_update (\<lambda>_. v))),
      (''account-id'', StringFlag (\<lambda>v. opt_accountID_update (\<lambda>_. v))),
      (''card-id'', StringFlag (\<lambda>v. opt_cardID_update (\<lambda>_. v))),
      (''authorization-id'', StringFlag (\<lambda>v. opt_authorizationID_update (\<lambda>_. v))),
      (''merchant-id'', StringFlag (\<lambda>v. opt_merchantID_update (\<lambda>_. v))),
      (''amount-cents'', Uint64Flag (\<lambda>v. opt_amountCents_update (\<lambda>_. v))),
      (''requests'', IntFlag (\<lambda>v. opt_requests_update (\<lambda>_. v))),
      (''concurrency'', IntFlag (\<lambda>v. opt_concurrency_update (\<lambda>_. v))),
      (''runs'', IntFlag (\<lambda>v. opt_runs_update (\<lambda>_. v))),
      (''warmup'', IntFlag (\<lambda>v. opt_warmup_update (\<lambda>_. v))),
      (''timeout'', DurationFlag (\<lambda>v. opt_timeout_update (\<lambda>_. v)))]"

definition resolve_concurrency :: "Options \<Rightarrow> Options" where
  "resolve_concurrency c =
     (if opt_concurrency c = 0 then c\<lparr>opt_concurrency := defaultConcurrency (opt_operation c)\<rparr> else c)"

definition parseFlags :: "(nat \<Rightarrow> bool) \<Rightarrow> string list \<Rightarrow> FlagError + Options" where
  "parseFlags is_print args =
     (case flag_Parse is_print loadtest_flags args default_options of
        Inl e \<Rightarrow> Inl e
      | Inr c \<Rightarrow> Inr (resolve_concurrency c))"

definition validate :: "Options \<Rightarrow> Error option" where
  "validate c =
     (if opt_operation c \<noteq> ''authorize'' \<and> opt_operation c \<noteq> ''increment'' \<and>
         opt_operation c \<noteq> ''topup'' \<and> opt_operation c \<noteq> ''withdraw''
      then Some (NewError ''operation must be authorize, increment, topup, or withdraw'')
      else if opt_operation c = ''authorize'' \<and> opt_cardID c = []
      then Some (NewError ''card-id is required for authorize'')
      else if (opt_operation c = ''topup'' \<or> opt_operation c = ''withdraw'') \<and> opt_accountID c = []
      then Some (NewError ''account-id is required for topup and withdraw'')
      else if opt_operation c = ''increment'' \<and> opt_authorizationID c = []
      then Some (NewError ''authorization-id is required for increment'')
      else if opt_amountCents c = 0 \<or> opt_requests c \<le> 0 \<or> opt_concurrency c \<le> 0 \<or> opt_runs c \<le> 0
      then Some (NewError ''amount-cents, requests, concurrency, and runs must be positive'')
      else if opt_warmup c < 0 then Some (NewError ''warmup must not be negative'')
      else None)"

section \<open>One request\<close>

record Result =
  res_duration :: Duration
  res_status :: string
  res_httpStatus :: int
  res_err :: "Error option"

definition zeroResult :: Result where
  "zeroResult = \<lparr>res_duration = 0, res_status = [], res_httpStatus = 0, res_err = None\<rparr>"

text \<open>The path and the members of the JSON object \<open>execute\<close> sends.\<close>

definition execute_request :: "Options \<Rightarrow> string \<Rightarrow> string \<times> (string \<times> Value) list" where
  "execute_request c requestID =
     (if opt_operation c = ''increment'' then
        (''/v1/authorizations/increments'',
         [(''request_id'', StringValue requestID),
          (''authorization_id'', StringValue (opt_authorizationID c)),
          (''increment_cents'', Uint64Value (opt_amountCents c))])
      else if opt_operation c = ''topup'' then
        (''/v1/topups'',
         [(''request_id'', StringValue requestID), (''account_id'', StringValue (opt_accountID c)),
          (''amount_cents'', Uint64Value (opt_amountCents c))])
      else if opt_operation c = ''withdraw'' then
        (''/v1/withdrawals'',
         [(''request_id'', StringValue requestID), (''account_id'', StringValue (opt_accountID c)),
          (''amount_cents'', Uint64Value (opt_amountCents c))])
      else
        (''/v1/authorizations'',
         [(''request_id'', StringValue requestID), (''card_id'', StringValue (opt_cardID c)),
          (''merchant_id'', StringValue (opt_merchantID c)),
          (''amount_cents'', Uint64Value (opt_amountCents c))]))"

text \<open>\<open>json.Marshal\<close> of a map, which sorts its keys; maps of strings and integers always succeed.\<close>

definition marshal_map :: "(string \<times> Value) list \<Rightarrow> string" where
  "marshal_map m = encode_object (sort_key fst m)"

text \<open>The struct \<open>outcome\<close> has the one field \<open>Status\<close>.\<close>

definition outcome_type :: "string StructType" where
  "outcome_type =
     \<lparr>Struct_name = [],
      Struct_type = ''struct { Status string '' @ [CHR 0x22] @ ''json:'' @ [CHR 0x5C, CHR 0x22] @ ''status'' @
        [CHR 0x5C, CHR 0x22, CHR 0x22] @ '' }'',
      Struct_fields = [(''status'', ''string'', StringField (\<lambda>x _. x))]\<rparr>"

text \<open>
  What happens to the request: building it fails, \<open>client.Do\<close> fails after some time, or a response
  arrives with its status, the time until its body was read, the error of reading it, and its
  body.
\<close>

datatype Exchange =
    NotSent Error
  | DoFailed Error Duration
  | Responded int Duration "Error option" string

fun execute :: "(nat \<Rightarrow> bool) \<Rightarrow> Exchange \<Rightarrow> Result" where
  "execute is_print (NotSent err) = zeroResult\<lparr>res_err := Some err\<rparr>"
| "execute is_print (DoFailed err d) = zeroResult\<lparr>res_duration := d, res_err := Some err\<rparr>"
| "execute is_print (Responded status d readErr responseBody) =
     (let measured = zeroResult\<lparr>res_duration := d, res_httpStatus := status, res_err := readErr\<rparr>
      in if readErr \<noteq> None \<or> status < 200 \<or> 300 \<le> status then
           if readErr = None then measured\<lparr>res_err := Some (NewError (''HTTP '' @ show_int status))\<rparr>
           else measured
         else case json_Unmarshal outcome_type responseBody [] of
           Inl err \<Rightarrow> measured\<lparr>res_err := Some (NewError (JsonError_Error is_print err))\<rparr>
         | Inr outcome \<Rightarrow> measured\<lparr>res_status := outcome\<rparr>)"

definition failureReason :: "Result \<Rightarrow> string" where
  "failureReason measured =
     (if res_err measured \<noteq> None then
        if res_httpStatus measured \<noteq> 0 \<and> (res_httpStatus measured < 200 \<or> 300 \<le> res_httpStatus measured)
        then ''http_'' @ show_int (res_httpStatus measured)
        else ''request_error''
      else if res_status measured = [] then ''missing_outcome''
      else ''outcome_'' @ res_status measured)"

section \<open>The summary\<close>

text \<open>\<open>d.Microseconds()\<close> and \<open>d.Seconds()\<close>; times are not negative.\<close>

definition Microseconds :: "Duration \<Rightarrow> int" where
  "Microseconds d = d sdiv 1000"

definition Seconds :: "Duration \<Rightarrow> rat" where
  "Seconds d = float64 (float64 (of_int (d sdiv second)) + float64 (float64 (of_int (d smod second)) / 1000000000))"

text \<open>The index is out of range, which panics, when the result is \<^const>\<open>None\<close>.\<close>

definition percentile_index :: "nat \<Rightarrow> rat \<Rightarrow> int" where
  "percentile_index n percentile = \<lfloor>float64 (float64 (of_int (int n - 1)) * percentile)\<rfloor>"

definition percentileMS :: "Duration list \<Rightarrow> rat \<Rightarrow> rat option" where
  "percentileMS values percentile =
     (if values = [] then Some 0
      else let index = percentile_index (length values) percentile
        in if 0 \<le> index \<and> index < int (length values)
           then Some (float64 (float64 (of_int (Microseconds (values ! nat index))) / 1000))
           else None)"

text \<open>\<open>RequestsPerSec\<close> is \<^const>\<open>None\<close> for an elapsed time of zero, where the quotient is infinite.\<close>

record Summary =
  sum_Run :: int
  sum_Operation :: string
  sum_Requests :: int
  sum_Concurrency :: int
  sum_WarmupRequests :: int
  sum_Successful :: int
  sum_Failed :: int
  sum_DurationMS :: int
  sum_RequestsPerSec :: "rat option"
  sum_P50MS :: "rat option"
  sum_P95MS :: "rat option"
  sum_P99MS :: "rat option"
  sum_MaxMS :: "rat option"
  sum_FailureReasons :: "(string \<times> int) list"
  sum_SampleError :: string

definition succeeded :: "Result \<Rightarrow> bool" where
  "succeeded r \<longleftrightarrow> res_err r = None \<and> (res_status r = ''posted'' \<or> res_status r = ''approved'')"

definition count_reason :: "string \<Rightarrow> (string \<times> int) list \<Rightarrow> (string \<times> int) list" where
  "count_reason reason m =
     AList.update reason ((case map_of m reason of None \<Rightarrow> 0 | Some n \<Rightarrow> n) + 1) m"

text \<open>The loop over the results, in the order they arrive.\<close>

fun collect :: "Result list \<Rightarrow> Duration list \<times> int \<times> (string \<times> int) list \<times> string \<Rightarrow>
    Duration list \<times> int \<times> (string \<times> int) list \<times> string" where
  "collect [] acc = acc"
| "collect (r # rs) (latencies, successful, reasons, sampleError) =
     (if succeeded r then collect rs (latencies @ [res_duration r], successful + 1, reasons, sampleError)
      else collect rs (latencies @ [res_duration r], successful, count_reason (failureReason r) reasons,
        (case res_err r of
           Some err \<Rightarrow> if sampleError = [] then Error_Error err else sampleError
         | None \<Rightarrow> sampleError)))"

definition benchmark_summary :: "Options \<Rightarrow> Result list \<Rightarrow> Duration \<Rightarrow> Summary" where
  "benchmark_summary c results elapsed =
     (case collect results ([], 0, [], []) of (latencies, successful, reasons, sampleError) \<Rightarrow>
        let sorted_latencies = sort latencies
        in \<lparr>sum_Run = 0, sum_Operation = opt_operation c, sum_Requests = opt_requests c,
            sum_Concurrency = opt_concurrency c, sum_WarmupRequests = opt_warmup c,
            sum_Successful = successful, sum_Failed = opt_requests c - successful,
            sum_DurationMS = Milliseconds elapsed,
            sum_RequestsPerSec = (if Seconds elapsed = 0 then None
              else Some (float64 (float64 (of_int (opt_requests c)) / Seconds elapsed))),
            sum_P50MS = percentileMS sorted_latencies (1 / 2),
            sum_P95MS = percentileMS sorted_latencies (float64 (95 / 100)),
            sum_P99MS = percentileMS sorted_latencies (float64 (99 / 100)),
            sum_MaxMS = percentileMS sorted_latencies 1,
            sum_FailureReasons = reasons, sum_SampleError = sampleError\<rparr>)"

section \<open>Workers\<close>

text \<open>
  The goroutines of \<open>benchmark\<close>: jobs that are still to be handed out, workers that wait for a job
  or execute one, the buffered channel of results, whether it is closed, and the results the main
  loop has received.
\<close>

record Bench =
  bench_jobs :: nat
  bench_waiting :: nat
  bench_executing :: nat
  bench_channel :: "Result list"
  bench_closed :: bool
  bench_received :: "Result list"

definition bench_start :: "Options \<Rightarrow> Bench" where
  "bench_start c =
     \<lparr>bench_jobs = nat (opt_requests c), bench_waiting = nat (opt_concurrency c), bench_executing = 0,
      bench_channel = [], bench_closed = False, bench_received = []\<rparr>"

text \<open>
  \<open>jobs\<close> is unbuffered: a job passes when a worker waits for it.  A worker that has executed its job
  sends the result when the channel has room.  The channel is closed when all jobs are handed out
  and every worker has ended, which it does when it finds \<open>jobs\<close> closed.
\<close>

inductive bench_step :: "Options \<Rightarrow> Bench \<Rightarrow> Bench \<Rightarrow> bool" for c where
  job: "0 < bench_jobs b \<Longrightarrow> 0 < bench_waiting b \<Longrightarrow>
    bench_step c b (b\<lparr>bench_jobs := bench_jobs b - 1, bench_waiting := bench_waiting b - 1,
      bench_executing := bench_executing b + 1\<rparr>)"
| executed: "0 < bench_executing b \<Longrightarrow> int (length (bench_channel b)) < opt_concurrency c \<Longrightarrow>
    bench_step c b (b\<lparr>bench_executing := bench_executing b - 1, bench_waiting := bench_waiting b + 1,
      bench_channel := bench_channel b @ [execute is_print e]\<rparr>)"
| received: "bench_channel b = r # rs \<Longrightarrow>
    bench_step c b (b\<lparr>bench_channel := rs, bench_received := bench_received b @ [r]\<rparr>)"
| closed: "bench_jobs b = 0 \<Longrightarrow> bench_executing b = 0 \<Longrightarrow> \<not> bench_closed b \<Longrightarrow>
    bench_step c b (b\<lparr>bench_closed := True\<rparr>)"

text \<open>The main loop ends when the channel is closed and empty.\<close>

definition bench_done :: "Bench \<Rightarrow> bool" where
  "bench_done b \<longleftrightarrow> bench_closed b \<and> bench_channel b = []"

section \<open>Lemmas\<close>

text \<open>The generator reads the status member of an encoded object, wherever it stands.\<close>

definition last_status :: "(string \<times> Value) list \<Rightarrow> string \<Rightarrow> string" where
  "last_status ms st = fold (\<lambda>(key, v) x. case v of StringValue s \<Rightarrow> if key = ''status'' then ToValidUTF8 s else x | _ \<Rightarrow> x) ms st"

lemma outcome_members:
  assumes "list_all (\<lambda>(key, v). lower_ascii key \<and> (key = ''status'' \<longrightarrow> (\<exists>s. v = StringValue s))) ms"
  shows "store_members False outcome_type (map encoded_member ms) (None, st) = (None, last_status ms st)"
  using assms
proof (induction ms arbitrary: st)
  case (Cons m ms)
  obtain key v where m: "m = (key, v)" by fastforce
  have "lower_ascii ''status''" by (simp add: lower_ascii_def)
  with Cons.prems m have key: "lower_ascii key" "list_all (\<lambda>f. lower_ascii (fst f)) (Struct_fields outcome_type)"
    by (simp_all add: outcome_type_def)
  show ?case
  proof (cases "key = ''status''")
    case True
    with Cons.prems m obtain s where "v = StringValue s" by auto
    with True Cons show ?thesis
      using store_encoded_member [OF key] by (simp add: m outcome_type_def saveError_def last_status_def)
  next
    case False
    with Cons show ?thesis
      using store_encoded_member [OF key] by (simp add: m outcome_type_def last_status_def split: Value.splits)
  qed
qed (simp add: last_status_def)

lemma Unmarshal_outcome:
  assumes "list_all (\<lambda>(key, v). lower_ascii key \<and> (key = ''status'' \<longrightarrow> (\<exists>s. v = StringValue s))) ms"
    "list_all isSpace t"
  shows "json_Unmarshal outcome_type (encode_object ms @ t) [] = Inr (last_status ms [])"
  using outcome_members [OF assms(1)] assms(2)
  by (simp add: json_Unmarshal_def checkValid_object unmarshal_def)

lemma sum_count_reason: "(\<Sum>e\<leftarrow>count_reason reason m. snd e) = (\<Sum>e\<leftarrow>m. snd e) + 1"
  by (induction m) (auto simp: count_reason_def)

lemma collect_eq:
  assumes "collect rs (latencies, successful, reasons, err) = (latencies', successful', reasons', err')"
  shows "latencies' = latencies @ map res_duration rs \<and>
    successful' = successful + int (length (filter succeeded rs)) \<and>
    (\<Sum>e\<leftarrow>reasons'. snd e) = (\<Sum>e\<leftarrow>reasons. snd e) + int (length (filter (\<lambda>r. \<not> succeeded r) rs))"
  using assms
proof (induction rs arbitrary: latencies successful reasons err)
  case (Cons r rs)
  then show ?case
    by (cases "succeeded r") (fastforce simp: sum_count_reason)+
qed simp

lemma percentile_index_mono:
  assumes "0 < n" "0 \<le> p" "p \<le> q"
  shows "0 \<le> percentile_index n p \<and> percentile_index n p \<le> percentile_index n q"
proof -
  have n: "0 \<le> float64 (of_int (int n - 1))"
    using float64_mono [of 0 "of_int (int n - 1)"] assms(1) by simp
  have "0 \<le> float64 (of_int (int n - 1)) * p" "float64 (of_int (int n - 1)) * p \<le> float64 (of_int (int n - 1)) * q"
    using n assms by (simp_all add: mult_left_mono)
  then show ?thesis
    using float64_mono [of 0] float64_mono by (simp add: percentile_index_def floor_mono)
qed

lemma percentile_index_1: "0 < n \<Longrightarrow> int n \<le> 2 ^ 53 \<Longrightarrow> percentile_index n 1 = int n - 1"
  using float64_int [of "int n - 1"] by (simp add: percentile_index_def del: of_int_diff)

lemma float64_ratios: "float64 (1 / 2) = 1 / 2" "1 / 2 \<le> float64 (95 / 100)"
  "float64 (95 / 100) \<le> float64 (99 / 100)" "float64 (99 / 100) \<le> 1"
proof -
  show half: "float64 (1 / 2) = 1 / 2" by code_simp
  show "1 / 2 \<le> float64 (95 / 100)" using float64_mono [of "1 / 2" "95 / 100"] half by simp
  show "float64 (95 / 100) \<le> float64 (99 / 100)" by (rule float64_mono) simp_all
  show "float64 (99 / 100) \<le> 1" using float64_mono [of "99 / 100" 1] float64_int [of 1] by simp
qed

definition in_milliseconds :: "Duration \<Rightarrow> rat" where
  "in_milliseconds d = float64 (float64 (of_int (Microseconds d)) / 1000)"

lemma in_milliseconds_mono: "0 \<le> d \<Longrightarrow> d \<le> d' \<Longrightarrow> in_milliseconds d \<le> in_milliseconds d'"
proof -
  assume d: "0 \<le> d" "d \<le> d'"
  then have m: "0 \<le> Microseconds d" "Microseconds d \<le> Microseconds d'"
    by (simp_all add: Microseconds_def sdiv_nonneg_int zdiv_mono1)
  have "float64 (of_int (Microseconds d)) \<le> float64 (of_int (Microseconds d'))" "0 \<le> float64 (of_int (Microseconds d))"
    using m float64_mono [of 0 "of_int (Microseconds d)"] by (simp_all add: float64_mono)
  then show ?thesis
    unfolding in_milliseconds_def by (intro float64_mono) (simp_all add: divide_right_mono)
qed

lemma sorted_last:
  assumes "sorted vs" "vs \<noteq> []"
  shows "last vs = Max (set vs)"
proof (rule Max_eqI [symmetric])
  fix v assume "v \<in> set vs"
  then obtain i where "i < length vs" "v = vs ! i" by (auto simp: in_set_conv_nth)
  with assms show "v \<le> last vs" by (auto simp: last_conv_nth intro!: sorted_nth_mono)
qed (use assms in auto)

lemma percentileMS_sorted:
  assumes vs: "sorted vs" "vs \<noteq> []" "int (length vs) \<le> 2 ^ 53" "\<forall>d \<in> set vs. 0 \<le> d"
    and p: "0 \<le> p" "p \<le> q" "q \<le> 1"
  shows "\<exists>x y. percentileMS vs p = Some x \<and> percentileMS vs q = Some y \<and> x \<le> y"
proof -
  let ?i = "percentile_index (length vs)"
  have "0 \<le> ?i p" "?i p \<le> ?i q" "?i q \<le> int (length vs) - 1"
    using percentile_index_mono [of "length vs" p q] percentile_index_mono [of "length vs" q 1]
      percentile_index_1 [of "length vs"] vs p by auto
  moreover from this have "in_milliseconds (vs ! nat (?i p)) \<le> in_milliseconds (vs ! nat (?i q))"
    using vs by (intro in_milliseconds_mono sorted_nth_mono) auto
  ultimately show ?thesis
    using vs by (simp add: percentileMS_def Let_def in_milliseconds_def)
qed

text \<open>The workers: nothing is lost, and the exchange never stops before it is done.\<close>

definition bench_inv :: "Options \<Rightarrow> Bench \<Rightarrow> bool" where
  "bench_inv c b \<longleftrightarrow>
     int (bench_jobs b + bench_executing b + length (bench_channel b) + length (bench_received b)) = opt_requests c \<and>
     int (bench_waiting b + bench_executing b) = opt_concurrency c \<and>
     (bench_closed b \<longrightarrow> bench_jobs b = 0 \<and> bench_executing b = 0)"

definition bench_measure :: "Bench \<Rightarrow> nat" where
  "bench_measure b = 3 * bench_jobs b + 2 * bench_executing b + length (bench_channel b) + of_bool (\<not> bench_closed b)"

lemma bench_inv_start: "validate c = None \<Longrightarrow> bench_inv c (bench_start c)"
  by (auto simp: bench_inv_def bench_start_def validate_def split: if_splits)

lemma bench_inv_step: "bench_step c b b' \<Longrightarrow> bench_inv c b \<Longrightarrow> bench_inv c b'"
  by (induction rule: bench_step.induct) (auto simp: bench_inv_def)

lemma bench_measure_step: "bench_step c b b' \<Longrightarrow> bench_measure b' < bench_measure b"
  by (induction rule: bench_step.induct) (auto simp: bench_measure_def)

lemma bench_inv_reach: "(bench_step c)\<^sup>*\<^sup>* b b' \<Longrightarrow> bench_inv c b \<Longrightarrow> bench_inv c b'"
  by (induction rule: rtranclp_induct) (auto intro: bench_inv_step)

lemma bench_progress:
  assumes "bench_inv c b" "0 < opt_concurrency c" "\<not> bench_done b"
  shows "\<exists>b'. bench_step c b b'"
proof (cases "bench_channel b")
  case (Cons r rs)
  then show ?thesis using bench_step.received by blast
next
  case Nil
  consider "0 < bench_executing b" | "bench_executing b = 0" "0 < bench_jobs b" | "bench_executing b = 0" "bench_jobs b = 0"
    by blast
  then show ?thesis
  proof cases
    case 1
    with Nil assms(2) show ?thesis using bench_step.executed [of b c] by auto
  next
    case 2
    with assms(1,2) have "0 < bench_waiting b" by (auto simp: bench_inv_def)
    with 2 show ?thesis using bench_step.job [of b c] by blast
  next
    case 3
    with Nil assms(3) show ?thesis using bench_step.closed [of b c] by (auto simp: bench_done_def)
  qed
qed

section \<open>Properties\<close>

text \<open>
  C37.  The load generator loses no result and never hangs: whatever the order in which its goroutines
  run, as long as the loop over the results has not ended some goroutine can go on, every step brings
  the end closer, and when the loop ends it has received exactly one result per request.
\<close>

theorem benchmark_collects_all:
  assumes "validate c = None" "(bench_step c)\<^sup>*\<^sup>* (bench_start c) b"
  shows "(if bench_done b then int (length (bench_received b)) = opt_requests c else \<exists>b'. bench_step c b b') \<and>
    (\<forall>b'. bench_step c b b' \<longrightarrow> bench_measure b' < bench_measure b)"
proof -
  have inv: "bench_inv c b"
    using bench_inv_reach [OF assms(2) bench_inv_start [OF assms(1)]] .
  moreover have "0 < opt_concurrency c"
    using assms(1) by (auto simp: validate_def split: if_splits)
  ultimately show ?thesis
    using bench_progress bench_measure_step by (auto simp: bench_inv_def bench_done_def)
qed

theorem benchmark_collects_all_witness:
  "\<exists>b'. bench_step (resolve_concurrency default_options) (bench_start (resolve_concurrency default_options)) b'"
proof -
  have "validate (resolve_concurrency default_options) = None"
    by code_simp
  from benchmark_collects_all [OF this rtranclp.rtrancl_refl] show ?thesis
    by (simp add: bench_done_def bench_start_def)
qed

text \<open>
  The counters of a summary add up: over one result per request, successes and failures together
  are the requests, and the failure reasons sum up to the failures.
\<close>

lemma summary_adds_up:
  assumes "int (length results) = opt_requests c"
  shows "sum_Successful (benchmark_summary c results elapsed) = int (length (filter succeeded results)) \<and>
    sum_Failed (benchmark_summary c results elapsed) = int (length (filter (\<lambda>r. \<not> succeeded r) results)) \<and>
    (\<Sum>e\<leftarrow>sum_FailureReasons (benchmark_summary c results elapsed). snd e) =
      sum_Failed (benchmark_summary c results elapsed)"
proof -
  obtain l n m e where col: "collect results ([], 0, [], []) = (l, n, m, e)"
    by (metis prod_cases4)
  have "length results = length (filter succeeded results) + length (filter (\<lambda>r. \<not> succeeded r) results)"
    by (simp add: sum_length_filter_compl)
  with collect_eq [OF col] assms show ?thesis
    by (simp add: benchmark_summary_def col Let_def)
qed

text \<open>Three results of a top-up run: a success, a rejection and a broken connection.\<close>

definition example_results :: "Result list" where
  "example_results = map (execute (\<lambda>_. True))
     [Responded 200 3000000 None (encode_object [(''status'', StringValue ''posted'')]),
      Responded 422 1000000 None (encode_object [(''status'', StringValue ''failed'')]),
      DoFailed (NewError ''EOF'') 2000000]"

lemma example_posted:
  "json_Unmarshal outcome_type (encode_object [(''status'', StringValue ''posted'')]) [] = Inr ''posted''"
  using Unmarshal_outcome [of "[(''status'', StringValue ''posted'')]" "[]"]
  by (simp add: last_status_def lower_ascii_def)

definition example_options :: Options where
  "example_options = resolve_concurrency (default_options\<lparr>opt_operation := ''topup'', opt_requests := 3\<rparr>)"

lemma summary_adds_up_witness:
  "sum_Failed (benchmark_summary example_options example_results second) = 2"
proof -
  have "int (length example_results) = opt_requests example_options"
    by code_simp
  from summary_adds_up [OF this, of second] show ?thesis
    by (simp add: example_results_def succeeded_def zeroResult_def Let_def example_posted)
qed

text \<open>
  C40.  The percentiles are ordered.  For at least one and at most \<open>2\<^sup>5\<^sup>3\<close> results, the index
  computed in \<open>float64\<close> is always within the list, the four figures are ordered as their names say, and
  the last one is the largest latency.
\<close>

theorem percentiles_ordered:
  assumes "results \<noteq> []" "int (length results) \<le> 2 ^ 53" "\<forall>r \<in> set results. 0 \<le> res_duration r"
  shows "\<exists>p50 p95 p99 mx. sum_P50MS (benchmark_summary c results elapsed) = Some p50 \<and>
    sum_P95MS (benchmark_summary c results elapsed) = Some p95 \<and>
    sum_P99MS (benchmark_summary c results elapsed) = Some p99 \<and>
    sum_MaxMS (benchmark_summary c results elapsed) = Some mx \<and> p50 \<le> p95 \<and> p95 \<le> p99 \<and> p99 \<le> mx \<and>
    mx = in_milliseconds (Max (res_duration ` set results))"
proof -
  let ?vs = "sort (map res_duration results)"
  obtain l n m e where col: "collect results ([], 0, [], []) = (l, n, m, e)"
    by (metis prod_cases4)
  with collect_eq [OF col] have l: "l = map res_duration results" by simp
  have len: "length ?vs = length results" by simp
  then have vs: "sorted ?vs" "?vs \<noteq> []" "int (length ?vs) \<le> 2 ^ 53" "\<forall>d \<in> set ?vs. 0 \<le> d"
    using assms by (force, metis length_0_conv, simp, simp)
  have index: "nat (int (length results) - 1) = length results - 1" by linarith
  have "last ?vs = Max (set ?vs)"
    using sorted_last [OF vs(1,2)] .
  then have "percentileMS ?vs 1 = Some (in_milliseconds (Max (res_duration ` set results)))"
    using vs percentile_index_1 [of "length ?vs"] assms(1) index
    by (simp add: percentileMS_def in_milliseconds_def last_conv_nth)
  with percentileMS_sorted [OF vs, of "1 / 2" "float64 (95 / 100)"]
    percentileMS_sorted [OF vs, of "float64 (95 / 100)" "float64 (99 / 100)"]
    percentileMS_sorted [OF vs, of "float64 (99 / 100)" 1] float64_ratios
  show ?thesis
    by (fastforce simp: benchmark_summary_def col l Let_def)
qed

theorem percentiles_ordered_witness:
  "sum_MaxMS (benchmark_summary example_options example_results second) = Some (in_milliseconds 3000000)"
proof -
  have "example_results \<noteq> []" "int (length example_results) \<le> 2 ^ 53"
      "\<forall>r \<in> set example_results. 0 \<le> res_duration r"
    by (simp_all add: example_results_def zeroResult_def example_posted)
  from percentiles_ordered [OF this, of example_options second] show ?thesis
    by (auto simp: example_results_def zeroResult_def example_posted)
qed

end
