(* ===== verification/Audit_Trail.thy ===== *)
theory Audit_Trail
  imports Resource_Use Request_History "HOL-Library.Multiset"
begin

text \<open>
  What requests leave behind for operators: the transaction log of \<open>observeCompletion\<close>
  (\<open>internal/service/operations.go\<close>) and the operation and HTTP counters of
  \<open>internal/observability\<close>.  The trail of one request, the part of its history that concerns
  operators, is followed along its program (\<open>traced\<close>), and the log and the counters of the running
  service are the trails of its requests, whatever their interleaving.
\<close>

section \<open>The trail of a request\<close>

type_synonym submission = "Transfer \<times> (Error + CreateTransferResult)"

type_synonym trail = "LogEntry list \<times> MetricCall list \<times> submission list"

text \<open>The calls that count outcomes, of an operation or of a request.\<close>

fun reported :: "MetricCall \<Rightarrow> bool" where
  "reported (ObserveOperation k st d) = True"
| "reported (ObserveHTTP verb route st) = True"
| "reported _ = False"

text \<open>The log lines, the outcome metrics and the submissions in a history.\<close>

fun event_lines :: "event \<Rightarrow> LogEntry list" where
  "event_lines (Logged l) = [l]"
| "event_lines _ = []"

fun event_outcomes :: "event \<Rightarrow> MetricCall list" where
  "event_outcomes (Counted m) = (if reported m then [m] else [])"
| "event_outcomes _ = []"

fun event_submissions :: "event \<Rightarrow> submission list" where
  "event_submissions (Submitted t r) = [(t, r)]"
| "event_submissions _ = []"

definition trail_of :: "event list \<Rightarrow> trail" where
  "trail_of h = (concat (map event_lines h), concat (map event_outcomes h), concat (map event_submissions h))"

text \<open>A submission whose answer never arrived: the call of the ledger ended in an error.\<close>

definition lost :: "submission list \<Rightarrow> bool" where
  "lost us \<longleftrightarrow> (\<exists>t e. (t, Inl e) \<in> set us)"

text \<open>At most one transfer was submitted, under the ID of the request.\<close>

definition sent :: "SDK \<Rightarrow> string \<Rightarrow> submission list \<Rightarrow> bool" where
  "sent sdk rid us \<longleftrightarrow> length us \<le> 1 \<and> (\<forall>(t, r) \<in> set us. requestID sdk rid = Inr (Transfer_ID t))"

definition foreign :: "Error + 'a \<Rightarrow> bool" where
  "foreign r \<longleftrightarrow> (case r of Inl e \<Rightarrow> foreign_error e | Inr _ \<Rightarrow> True)"

text \<open>
  \<open>traced Q p tr\<close>: with the trail \<open>tr\<close> so far, \<open>p\<close> does not panic and returns a value and a trail that
  satisfy \<open>Q\<close>, whatever the answers, of which the errors of the ledger are not the service's own
  and the stores in the cache succeed.
\<close>

primrec traced :: "('a \<Rightarrow> trail \<Rightarrow> bool) \<Rightarrow> 'a prog \<Rightarrow> trail \<Rightarrow> bool" where
  "traced Q (Return x) tr \<longleftrightarrow> Q x tr"
| "traced Q Panic tr \<longleftrightarrow> False"
| "traced Q (Now k) tr \<longleftrightarrow> (\<forall>t. traced Q (k t) tr)"
| "traced Q (AwaitRisk d k) tr \<longleftrightarrow> (\<forall>x. traced Q (k x) tr)"
| "traced Q (CacheLoad i k) tr \<longleftrightarrow> (\<forall>x. traced Q (k x) tr)"
| "traced Q (CacheStore i m k) tr \<longleftrightarrow> traced Q (k True) tr"
| "traced Q (BeginCall t k) tr \<longleftrightarrow> (\<forall>i. traced Q (k i) tr)"
| "traced Q (EndCall i t b k) tr \<longleftrightarrow> traced Q k tr"
| "traced Q (CallCreateAccount a k) tr \<longleftrightarrow> (\<forall>r. foreign r \<longrightarrow> traced Q (k r) tr)"
| "traced Q (CallCreateTransfer t k) tr \<longleftrightarrow>
     (\<forall>r. foreign r \<longrightarrow> traced Q (k r) (fst tr, fst (snd tr), snd (snd tr) @ [(t, r)]))"
| "traced Q (CallLookupAccount i k) tr \<longleftrightarrow> (\<forall>r. foreign r \<longrightarrow> traced Q (k r) tr)"
| "traced Q (CallLookupTransfer i k) tr \<longleftrightarrow> (\<forall>r. foreign r \<longrightarrow> traced Q (k r) tr)"
| "traced Q (ReadHealth k) tr \<longleftrightarrow> (\<forall>x. traced Q (k x) tr)"
| "traced Q (AcquireSlot k) tr \<longleftrightarrow> (\<forall>x. traced Q (k x) tr)"
| "traced Q (ReleaseSlot k) tr \<longleftrightarrow> traced Q k tr"
| "traced Q (EmitMetric m k) tr \<longleftrightarrow> 
     traced Q k (if reported m then (fst tr, fst (snd tr) @ [m], snd (snd tr)) else tr)"
| "traced Q (EmitLog l k) tr \<longleftrightarrow> traced Q k (fst tr @ [l], snd tr)"

text \<open>A program that leaves nothing behind and whose value satisfies \<open>P\<close>.\<close>

definition silent :: "('a \<Rightarrow> bool) \<Rightarrow> 'a prog \<Rightarrow> bool" where
  "silent P p \<longleftrightarrow> traced (\<lambda>x tr. tr = ([], [], []) \<and> P x) p ([], [], [])"

text \<open>The line and the metric of one completed attempt.\<close>

definition completion_line :: "string \<Rightarrow> string \<Rightarrow> string \<Rightarrow> LogEntry \<Rightarrow> bool" where
  "completion_line kind rid status l \<longleftrightarrow>
     log_message l = ''ledger operation completed'' \<and>
     map_of (log_fields l) ''kind'' = Some (LogString kind) \<and>
     map_of (log_fields l) ''request_id'' = Some (LogString rid) \<and>
     map_of (log_fields l) ''status'' = Some (LogString status)"

definition completed :: "Service \<Rightarrow> string \<Rightarrow> string \<Rightarrow> string \<Rightarrow> trail \<Rightarrow> bool" where
  "completed s kind rid status tr \<longleftrightarrow>
     (\<exists>l. fst tr = [l] \<and> completion_line kind rid status l) \<and>
     (if Service_metrics s then \<exists>d. fst (snd tr) = [ObserveOperation kind status d] else fst (snd tr) = [])"

text \<open>
  The trail of an operation.  At most one transfer was submitted, under the request's ID.  A response is logged once with its
  status, except for the responses in \<open>unlogged\<close>, for which nothing was submitted.  An idempotency
  conflict is logged as such.  Another error is logged as unknown exactly when the answer to the
  submission was lost; otherwise nothing is logged.
\<close>

definition operation_trail ::
  "SDK \<Rightarrow> Service \<Rightarrow> string \<Rightarrow> string \<Rightarrow> ('r \<Rightarrow> string) \<Rightarrow> ('r \<Rightarrow> bool) \<Rightarrow> ('r \<Rightarrow> int \<Rightarrow> bool) \<Rightarrow>
   Error + 'r \<times> int \<Rightarrow> trail \<Rightarrow> bool" where
  "operation_trail sdk s kind rid status unlogged typed r tr \<longleftrightarrow>
     sent sdk rid (snd (snd tr)) \<and>
     (case r of
        Inr (x, n) \<Rightarrow> typed x n \<and>
          (if unlogged x then tr = ([], [], []) else completed s kind rid (status x) tr)
      | Inl e \<Rightarrow>
          if errors_Is e ErrIdempotencyConflict then completed s kind rid ''conflict'' tr
          else if lost (snd (snd tr)) then completed s kind rid ''unknown'' tr
          else fst tr = [] \<and> fst (snd tr) = [])"

section \<open>Rules\<close>

lemma traced_mono: "traced Q p tr \<Longrightarrow> (\<And>x tr'. Q x tr' \<Longrightarrow> Q' x tr') \<Longrightarrow> traced Q' p tr"
  by (induction p arbitrary: tr) simp_all

lemma traced_seq: "traced Q (seq p f) tr \<longleftrightarrow> traced (\<lambda>x. traced Q (f x)) p tr"
  by (induction p arbitrary: tr) simp_all

lemma traced_upon_exit: "traced (\<lambda>x. traced Q (f (Some x))) p tr \<Longrightarrow> traced Q (upon_exit p f) tr"
  by (induction p arbitrary: tr) simp_all

text \<open>What a program adds to its trail does not depend on the trail before.\<close>

definition extend :: "trail \<Rightarrow> trail \<Rightarrow> trail" where
  "extend tr0 tr = (fst tr0 @ fst tr, fst (snd tr0) @ fst (snd tr), snd (snd tr0) @ snd (snd tr))"

lemma extend_nil [simp]: "extend tr ([], [], []) = tr"
  by (simp add: extend_def)

lemma traced_extend: "traced (\<lambda>x tr'. Q x (extend tr0 tr')) p tr \<Longrightarrow> traced Q p (extend tr0 tr)"
  by (induction p arbitrary: tr) (force simp: extend_def split: if_splits)+

lemma traced_silent:
  assumes "silent P p" "\<And>x. P x \<Longrightarrow> traced Q (f x) tr"
  shows "traced Q (seq p f) tr"
proof -
  have "traced (\<lambda>x tr'. traced Q (f x) (extend tr tr')) p ([], [], [])"
    using assms(1) unfolding silent_def by (rule traced_mono) (use assms(2) in auto)
  from traced_extend [OF this] show ?thesis
    by (simp add: traced_seq)
qed

lemma traced_attempt:
  assumes "silent P p" "\<And>e. P (Inl e) \<Longrightarrow> Q (Inl e) tr" "\<And>x. P (Inr x) \<Longrightarrow> traced Q (f x) tr"
  shows "traced Q (attempt p f) tr"
  unfolding attempt_def by (rule traced_silent [OF assms(1)]) (auto simp: fail_def assms split: sum.split)

lemma traced_check:
  "(\<And>e. r = Inl e \<Longrightarrow> Q (Inl e) tr) \<Longrightarrow> (\<And>x. r = Inr x \<Longrightarrow> traced Q (f x) tr) \<Longrightarrow> traced Q (check r f) tr"
  by (auto simp: check_def fail_def split: sum.split)

lemma traced_fail [simp]: "traced Q (fail e) tr \<longleftrightarrow> Q (Inl e) tr"
  by (simp add: fail_def)

lemma silent_mono: "silent P p \<Longrightarrow> (\<And>x. P x \<Longrightarrow> P' x) \<Longrightarrow> silent P' p"
  unfolding silent_def by (erule traced_mono) auto

section \<open>What leaves nothing behind\<close>

text \<open>Errors that are not conflicts.\<close>

definition no_conflict :: "Error + 'a \<Rightarrow> bool" where
  "no_conflict r \<longleftrightarrow> (\<forall>e. r = Inl e \<longrightarrow> \<not> errors_Is e ErrIdempotencyConflict)"

lemma no_conflict_simps [simp]:
  "no_conflict (Inl e) \<longleftrightarrow> \<not> errors_Is e ErrIdempotencyConflict" "no_conflict (Inr x)"
  by (auto simp: no_conflict_def)

lemma foreign_answer: "foreign r \<Longrightarrow> no_conflict r"
  by (auto simp: foreign_def no_conflict_def foreign_error_def)

lemma silent_observed:
  "silent no_conflict (observed_CreateAccount s a)" "silent no_conflict (observed_LookupAccount s i)"
  "silent no_conflict (observed_LookupTransfer s i)"
  by (auto simp: silent_def observed_CreateAccount_def
      observed_LookupAccount_def observed_LookupTransfer_def observed_call_def intro: foreign_answer)

lemma traced_CreateTransfer:
  assumes "\<And>r. no_conflict r \<Longrightarrow> traced Q (f r) ([], [], [(t, r)])"
  shows "traced Q (seq (observed_CreateTransfer s t) f) ([], [], [])"
  using assms foreign_answer by (auto simp: observed_CreateTransfer_def observed_call_def)

lemma silent_LedgerHealth_read: "silent (\<lambda>_. True) LedgerHealth_read"
  by (simp add: silent_def LedgerHealth_read_def)

lemma silent_remember:
  "silent (\<lambda>_. True) (storeMetadata i m)" "silent (\<lambda>_. True) (rememberAccount sdk s a)"
  by (auto simp: silent_def rememberAccount_def storeMetadata_def split: option.split)

lemma silent_require: "silent no_conflict (requireAccountKind sdk s i k)"
proof -
  let ?Q = "\<lambda>x tr. tr = ([], [], []) \<and> no_conflict x"
  have "traced ?Q (attempt (observed_LookupAccount s i) (\<lambda>(account, found).
           (case metadataForAccount sdk s account of
              None \<Rightarrow> fail ErrAccountNotFound
            | Some metadata \<Rightarrow>
                if \<not> found \<or> meta_kind metadata \<noteq> k then fail ErrAccountNotFound
                else seq (storeMetadata i metadata) (\<lambda>_. Return (Inr metadata))))) ([], [], [])"
    by (rule traced_attempt [OF silent_observed(2)])
      (auto split: option.split intro!: traced_silent [OF silent_remember(1)])
  then show ?thesis
    unfolding requireAccountKind_def silent_def by (auto split: option.split)
qed

lemma silent_evaluateRisk: "silent no_conflict (evaluateRisk s n)"
  by (auto simp: silent_def evaluateRisk_def Let_def split: option.split)
    (metis ContextError.exhaust ctx_Err.simps errors_Is.simps Error.distinct)

lemma silent_ensureAccounts: "silent (\<lambda>_. True) (ensureAccounts sdk s xs)"
  unfolding silent_def
proof (induction xs)
  case (Cons x xs)
  then show ?case
    by (cases x) (auto intro!: traced_check traced_attempt [OF silent_observed(1)] traced_silent [OF silent_remember(2)])
qed simp

text \<open>Accounts: no operation of the journal, so no line.\<close>

fun account_typed :: "Error + AccountResponse \<times> int \<Rightarrow> bool" where
  "account_typed (Inr (r, n)) \<longleftrightarrow> (AccountResp_Status r, n) \<in> {(''created'', 201), (''exists'', 200)}"
| "account_typed (Inl e) \<longleftrightarrow> True"

lemma silent_CreateAccount: "silent account_typed (CreateAccount sdk s request)"
proof -
  have parent: "silent (\<lambda>_. True) (CreateAccount_parent sdk s request i)" for i
    unfolding CreateAccount_parent_def silent_def
    by (auto intro!: traced_check traced_attempt [OF silent_require])
  have submit: "silent account_typed (CreateAccount_submit sdk s request i c)" for i c
    unfolding CreateAccount_submit_def silent_def Let_def
    by (auto intro!: traced_check traced_attempt [OF silent_observed(1)] traced_silent [OF silent_remember(2)])
  show ?thesis
    unfolding CreateAccount_def silent_def
    by (auto intro!: traced_check traced_attempt [OF parent] submit [unfolded silent_def])
qed

lemma silent_Balance: "silent (\<lambda>_. True) (Balance sdk s v)"
  unfolding Balance_def silent_def
  by (auto intro!: traced_check traced_attempt [OF silent_observed(2)] traced_silent [OF silent_remember(2)]
      split: sum.split option.split)

section \<open>Operations leave one line\<close>

lemma traced_completion:
  assumes "\<And>tr. completed s kind rid status tr \<Longrightarrow> snd (snd tr) = us \<Longrightarrow> traced Q (f ()) tr"
  shows "traced Q (seq (observeCompletion s kind rid status am started ls attrs) f) ([], [], us)"
  using assms by (auto simp: observeCompletion_def Let_def completed_def completion_line_def)

fun transaction_typed :: "TransactionResponse \<Rightarrow> int \<Rightarrow> bool" where
  "transaction_typed r n \<longleftrightarrow>
     TxResp_Status r = ''posted'' \<and> n = 200 \<or> TxResp_Status r = ''failed'' \<and> n \<in> {404, 409, 422, 500}"

fun authorization_typed :: "AuthorizationResponse \<Rightarrow> int \<Rightarrow> bool" where
  "authorization_typed r n \<longleftrightarrow>
     AuthResp_Status r \<in> {''approved'', ''declined''} \<and> n = 200 \<or>
     AuthResp_Status r = ''failed'' \<and> n \<in> {404, 409, 500}"

fun increment_typed :: "IncrementAuthorizationResponse \<Rightarrow> int \<Rightarrow> bool" where
  "increment_typed r n \<longleftrightarrow>
     IncResp_Status r \<in> {''approved'', ''declined''} \<and> n = 200 \<or>
     IncResp_Status r = ''declined'' \<and> IncResp_ErrorCode r = ''authorization_not_open'' \<and> n = 409 \<or>
     IncResp_Status r = ''failed'' \<and> n \<in> {404, 409, 500}"

abbreviation transaction_trail where
  "transaction_trail sdk s kind rid \<equiv> operation_trail sdk s kind rid TxResp_Status (\<lambda>_. False) transaction_typed"

abbreviation authorization_trail where
  "authorization_trail sdk s rid \<equiv>
     operation_trail sdk s OperationAuthorization rid AuthResp_Status (\<lambda>_. False) authorization_typed"

abbreviation increment_trail where
  "increment_trail sdk s rid \<equiv>
     operation_trail sdk s OperationAuthorizationIncrement rid IncResp_Status
       (\<lambda>r. IncResp_ErrorCode r = ''authorization_not_open'') increment_typed"

lemma sent_simps [simp]: "sent sdk rid []" "sent sdk rid [(t, r)] \<longleftrightarrow> requestID sdk rid = Inr (Transfer_ID t)"
  by (auto simp: sent_def)

lemma lost_simps [simp]: "\<not> lost []" "lost [(t, Inl e)]" "\<not> lost [(t, Inr x)]"
  by (auto simp: lost_def)

lemma operation_trail_simps [simp]:
  "operation_trail sdk s kind rid st ul ty (Inl e) ([], [], []) \<longleftrightarrow> \<not> errors_Is e ErrIdempotencyConflict"
  "operation_trail sdk s kind rid st ul ty (Inl e) ([], [], [(t, Inr a)]) \<longleftrightarrow>
     \<not> errors_Is e ErrIdempotencyConflict \<and> requestID sdk rid = Inr (Transfer_ID t)"
  "operation_trail sdk s kind rid st ul ty (Inr (x, n)) tr \<longleftrightarrow> sent sdk rid (snd (snd tr)) \<and>
     ty x n \<and> (if ul x then tr = ([], [], []) else completed s kind rid (st x) tr)"
  by (auto simp: operation_trail_def completed_def)

lemma operation_trail_error:
  "\<not> errors_Is e ErrIdempotencyConflict \<Longrightarrow> completed s kind rid ''unknown'' tr \<Longrightarrow> snd (snd tr) = [(t, Inl e')] \<Longrightarrow>
   requestID sdk rid = Inr (Transfer_ID t) \<Longrightarrow>
   operation_trail sdk s kind rid st ul ty (Inl e) tr"
  "completed s kind rid ''conflict'' tr \<Longrightarrow> sent sdk rid (snd (snd tr)) \<Longrightarrow>
   operation_trail sdk s kind rid st ul ty (Inl ErrIdempotencyConflict) tr"
  by (auto simp: operation_trail_def)

lemma errorCode_status:
  assumes "errorCode st = (code, m, n)"
  shows "n \<in> {404, 409, 422, 500}" "code \<noteq> ''insufficient_funds'' \<Longrightarrow> n \<noteq> 422"
    "code \<noteq> ''authorization_not_open''"
  using assms by (auto simp: errorCode_def split: CreateTransferStatus.splits)

lemma answers_typed:
  "authorization_typed (fst (Authorize_answer sdk s areq ms result)) (snd (Authorize_answer sdk s areq ms result))"
  "increment_typed (fst (Increment_answer sdk ireq ms result)) (snd (Increment_answer sdk ireq ms result))"
  using errorCode_status [of "TransferResult_Status result"]
  by (auto simp: Authorize_answer_def Increment_answer_def Let_def split: prod.split)

lemma increment_answer_logged:
  "IncResp_ErrorCode (fst (Increment_answer sdk ireq ms result)) \<noteq> ''authorization_not_open''"
  using errorCode_status(3) [of "TransferResult_Status result"]
  by (auto simp: Increment_answer_def Let_def zeroIncrementAuthorizationResponse_def split: prod.split)

lemma completed_answer:
  "ty (fst answer) (snd answer) \<Longrightarrow> completed s kind rid (st (fst answer)) tr \<Longrightarrow> \<not> ul (fst answer) \<Longrightarrow>
   sent sdk rid (snd (snd tr)) \<Longrightarrow>
   operation_trail sdk s kind rid st ul ty (Inr answer) tr"
  by (cases answer) simp

lemma executeTransaction_trail:
  assumes "requestID sdk rid = Inr (Transfer_ID t)"
  shows "traced (transaction_trail sdk s kind rid) (executeTransaction sdk s kind rid t ''posted'') ([], [], [])"
  unfolding executeTransaction_def Let_def
  using assms
  by (auto intro!: traced_CreateTransfer traced_completion
      simp: operation_trail_error dest!: errorCode_status(1) split: sum.split prod.split)

lemma transfer_IDs [simp]:
  "Transfer_ID (posted_transfer sdk s i d c n code) = i"
  "Transfer_ID (authorization_transfer sdk s areq i cardID) = i"
  "Transfer_ID (increment_transfer sdk s ireq original i auth timeout) = i"
  by (simp_all add: posted_transfer_def authorization_transfer_def increment_transfer_def case_prod_beta)

lemma identifier_errors:
  "accountID sdk f v = Inl e \<Longrightarrow> \<not> errors_Is e ErrIdempotencyConflict"
  "requestID sdk v = Inl e \<Longrightarrow> \<not> errors_Is e ErrIdempotencyConflict"
  "validateExternalID f v = Inl e \<Longrightarrow> \<not> errors_Is e ErrIdempotencyConflict"
  by (auto simp: accountID_def requestID_def validateExternalID_def Let_def split: sum.splits if_splits)

lemma transactions_trail:
  "traced (transaction_trail sdk s OperationTopUp (TopUp_RequestID r1)) (TopUp sdk s r1) ([], [], [])"
  "traced (transaction_trail sdk s OperationWithdrawal (Withdrawal_RequestID r2)) (Withdraw sdk s r2) ([], [], [])"
  unfolding TopUp_def Withdraw_def
  by (auto intro!: traced_check traced_attempt [OF silent_require] executeTransaction_trail dest!: identifier_errors)

lemma moveCardFunds_trail:
  "traced (transaction_trail sdk s kind rid) (moveCardFunds sdk s kind rid v1 v2 n b) ([], [], [])"
  unfolding moveCardFunds_def
  by (auto intro!: traced_check traced_attempt [OF silent_require] executeTransaction_trail dest!: identifier_errors)

lemma Authorize_trail:
  "traced (authorization_trail sdk s (Authorization_RequestID req)) (Authorize sdk s req) ([], [], [])"
proof -
  let ?Q = "authorization_trail sdk s (Authorization_RequestID req)"
  have declined: "traced ?Q (Authorize_declined sdk s req t started ms) ([], [], [])" for t started ms
    unfolding Authorize_declined_def Let_def
    by (auto intro!: traced_attempt [OF silent_observed(3)] traced_completion simp: operation_trail_error)
  have submit: "traced ?Q (Authorize_submit sdk s req t started ms) ([], [], [])"
    if "requestID sdk (Authorization_RequestID req) = Inr (Transfer_ID t)" for t started ms
    unfolding Authorize_submit_def Let_def using that
    by (auto intro!: traced_CreateTransfer traced_completion
        completed_answer answers_typed simp: operation_trail_error simp del: authorization_typed.simps split: sum.split)
  show ?thesis
    unfolding Authorize_def Let_def
    by (auto intro!: traced_check traced_attempt [OF silent_require] traced_silent [OF silent_evaluateRisk]
        declined submit dest!: identifier_errors split: sum.split)
qed

lemma Increment_trail:
  "traced (increment_trail sdk s (Increment_RequestID req)) (IncrementAuthorization sdk s req) ([], [], [])"
proof -
  let ?Q = "increment_trail sdk s (Increment_RequestID req)"
  let ?R = "\<lambda>r tr. case r of
      Inr None \<Rightarrow> tr = ([], [], [])
    | Inr (Some (x, n)) \<Rightarrow> ?Q (Inr (x, n)) tr
    | Inl e \<Rightarrow> ?Q (Inl e) tr"
  have existing: "traced ?R (lookupExistingIncrement sdk s req original i a started ms) ([], [], [])" for original i a started ms
    unfolding lookupExistingIncrement_def Let_def increment_complete_def
    by (auto intro!: traced_attempt [OF silent_observed(3)] traced_completion simp: operation_trail_error zeroIncrementAuthorizationResponse_def)
  have replay: "traced ?Q (attempt (lookupExistingIncrement sdk s req original i a started ms)
      (\<lambda>answer. case answer of Some response \<Rightarrow> Return (Inr response) | None \<Rightarrow> p)) ([], [], [])"
    if "traced ?Q p ([], [], [])" for original i a started ms p
    unfolding attempt_def traced_seq
    by (rule traced_mono [OF existing]) (auto simp: that split: sum.splits option.splits)
  have resolve: "silent no_conflict (Increment_resolve s t result)" for t result
    unfolding Increment_resolve_def silent_def by (auto intro!: traced_attempt [OF silent_observed(3)])
  have submit: "traced ?Q (Increment_submit sdk s req original t started ms) ([], [], [])"
    if "requestID sdk (Increment_RequestID req) = Inr (Transfer_ID t)" for original t started ms
    unfolding Increment_submit_def Let_def increment_complete_def using that
    by (auto intro!: traced_CreateTransfer traced_attempt [OF resolve] traced_completion
        completed_answer answers_typed simp: operation_trail_error increment_answer_logged
        simp del: increment_typed.simps split: sum.split)
  have evaluate: "traced ?Q (Increment_evaluate sdk s req original i a started) ([], [], [])"
    if "requestID sdk (Increment_RequestID req) = Inr i" for original i a started
    unfolding Increment_evaluate_def Let_def using that
    by (auto intro!: traced_silent [OF silent_evaluateRisk] replay submit traced_completion
        simp: increment_complete_def incrementFailure_def split: sum.split)
  show ?thesis
    unfolding IncrementAuthorization_def
    by (auto intro!: traced_check traced_attempt [OF silent_observed(3)] traced_silent [OF silent_require] evaluate
        dest!: identifier_errors simp: incrementFailure_def split: sum.split)
qed

section \<open>Requests\<close>

text \<open>The operation of the journal a request asks for, with its request ID.\<close>

fun operation_of :: "HttpRequest \<Rightarrow> (string \<times> string) option" where
  "operation_of (PostTopUps input) =
     (case decodeJSON input of Inl _ \<Rightarrow> None | Inr r \<Rightarrow> Some (OperationTopUp, TopUp_RequestID r))"
| "operation_of (PostWithdrawals input) =
     (case decodeJSON input of Inl _ \<Rightarrow> None | Inr r \<Rightarrow> Some (OperationWithdrawal, Withdrawal_RequestID r))"
| "operation_of (PostCardAllocations input) =
     (case decodeJSON input of Inl _ \<Rightarrow> None | Inr r \<Rightarrow> Some (OperationCardAllocation, CardAllocation_RequestID r))"
| "operation_of (PostCardReturns input) =
     (case decodeJSON input of Inl _ \<Rightarrow> None | Inr r \<Rightarrow> Some (OperationCardReturn, CardReturn_RequestID r))"
| "operation_of (PostAuthorizations input) =
     (case decodeJSON input of Inl _ \<Rightarrow> None | Inr r \<Rightarrow> Some (OperationAuthorization, Authorization_RequestID r))"
| "operation_of (PostIncrements input) =
     (case decodeJSON input of Inl _ \<Rightarrow> None | Inr r \<Rightarrow>
        Some (OperationAuthorizationIncrement, Increment_RequestID r))"
| "operation_of _ = None"

text \<open>The labels of a request in the HTTP counters.\<close>

fun request_labels :: "HttpRequest \<Rightarrow> string \<times> string" where
  "request_labels (PostAccounts _) = (''POST'', ''create_account'')"
| "request_labels (GetAccount _) = (''GET'', ''get_balance'')"
| "request_labels (PostTopUps _) = (''POST'', ''topup'')"
| "request_labels (PostWithdrawals _) = (''POST'', ''withdrawal'')"
| "request_labels (PostCardAllocations _) = (''POST'', ''card_allocation'')"
| "request_labels (PostCardReturns _) = (''POST'', ''card_return'')"
| "request_labels (PostAuthorizations _) = (''POST'', ''authorization'')"
| "request_labels (PostIncrements _) = (''POST'', ''authorization_increment'')"
| "request_labels GetLive = (''GET'', ''liveness'')"
| "request_labels GetReady = (''GET'', ''readiness'')"
| "request_labels (HeadAccount _) = (''HEAD'', ''get_balance'')"
| "request_labels HeadLive = (''HEAD'', ''liveness'')"
| "request_labels HeadReady = (''HEAD'', ''readiness'')"

text \<open>The probes, which pass no admission control and report no error.\<close>

fun is_probe :: "HttpRequest \<Rightarrow> bool" where
  "is_probe GetLive = True"
| "is_probe GetReady = True"
| "is_probe HeadLive = True"
| "is_probe HeadReady = True"
| "is_probe _ = False"

text \<open>The status a response reports; a balance has none.\<close>

fun body_status :: "ResponseBody \<Rightarrow> string" where
  "body_status (BodyAccount r) = AccountResp_Status r"
| "body_status (BodyBalance r) = []"
| "body_status (BodyTransaction r) = TxResp_Status r"
| "body_status (BodyAuthorization r) = AuthResp_Status r"
| "body_status (BodyIncrement r) = IncResp_Status r"
| "body_status (BodyError r) = ErrorResp_Status r"
| "body_status (BodyLive st) = st"
| "body_status (BodyReady r) = Ready_status r"

text \<open>
  The type of a response: the kind of its body, its status text and its HTTP status fit the route
  and each other.
\<close>

definition error_typed :: "HttpResponse \<Rightarrow> bool" where
  "error_typed resp \<longleftrightarrow>
     (case Http_body resp of BodyError e \<Rightarrow> ErrorResp_Status e = ''error'' | _ \<Rightarrow> False) \<and>
     Http_status resp \<in> {400, 404, 409, 499, 503, 504}"

fun success_typed :: "HttpRequest \<Rightarrow> ResponseBody \<Rightarrow> int \<Rightarrow> bool" where
  "success_typed (PostAccounts _) body n \<longleftrightarrow>
     (case body of BodyAccount x \<Rightarrow> account_typed (Inr (x, n)) | _ \<Rightarrow> False)"
| "success_typed (GetAccount _) body n \<longleftrightarrow>
     (case body of BodyBalance x \<Rightarrow> n = 200 | _ \<Rightarrow> False)"
| "success_typed (PostTopUps _) body n \<longleftrightarrow>
     (case body of BodyTransaction x \<Rightarrow> transaction_typed x n | _ \<Rightarrow> False)"
| "success_typed (PostWithdrawals _) body n \<longleftrightarrow>
     (case body of BodyTransaction x \<Rightarrow> transaction_typed x n | _ \<Rightarrow> False)"
| "success_typed (PostCardAllocations _) body n \<longleftrightarrow>
     (case body of BodyTransaction x \<Rightarrow> transaction_typed x n | _ \<Rightarrow> False)"
| "success_typed (PostCardReturns _) body n \<longleftrightarrow>
     (case body of BodyTransaction x \<Rightarrow> transaction_typed x n | _ \<Rightarrow> False)"
| "success_typed (PostAuthorizations _) body n \<longleftrightarrow>
     (case body of BodyAuthorization x \<Rightarrow> authorization_typed x n | _ \<Rightarrow> False)"
| "success_typed (PostIncrements _) body n \<longleftrightarrow>
     (case body of BodyIncrement x \<Rightarrow> increment_typed x n | _ \<Rightarrow> False)"
| "success_typed GetLive body n \<longleftrightarrow>
     (case body of BodyLive x \<Rightarrow> x = ''ok'' \<and> n = 200 | _ \<Rightarrow> False)"
| "success_typed GetReady body n \<longleftrightarrow>
     (case body of BodyReady x \<Rightarrow> (Ready_status x, n) \<in> {(''ready'', 200), (''not_ready'', 503)} | _ \<Rightarrow> False)"
| "success_typed (HeadAccount _) body n \<longleftrightarrow>
     (case body of BodyBalance x \<Rightarrow> n = 200 | _ \<Rightarrow> False)"
| "success_typed HeadLive body n \<longleftrightarrow>
     (case body of BodyLive x \<Rightarrow> x = ''ok'' \<and> n = 200 | _ \<Rightarrow> False)"
| "success_typed HeadReady body n \<longleftrightarrow>
     (case body of BodyReady x \<Rightarrow> (Ready_status x, n) \<in> {(''ready'', 200), (''not_ready'', 503)} | _ \<Rightarrow> False)"

definition well_typed :: "HttpRequest \<Rightarrow> HttpResponse \<Rightarrow> bool" where
  "well_typed r resp \<longleftrightarrow>
     error_typed resp \<and> \<not> is_probe r \<or> success_typed r (Http_body resp) (Http_status resp)"

text \<open>The trail of a request's operation, as its response says.\<close>

fun unlogged_increment :: "ResponseBody \<Rightarrow> bool" where
  "unlogged_increment (BodyIncrement x) \<longleftrightarrow> IncResp_ErrorCode x = ''authorization_not_open''"
| "unlogged_increment _ \<longleftrightarrow> False"

definition handler_trail :: "SDK \<Rightarrow> Service \<Rightarrow> HttpRequest \<Rightarrow> HttpResponse \<Rightarrow> trail \<Rightarrow> bool" where
  "handler_trail sdk s r resp tr \<longleftrightarrow>
     (case operation_of r of
        None \<Rightarrow> tr = ([], [], [])
      | Some (kind, rid) \<Rightarrow>
          sent sdk rid (snd (snd tr)) \<and>
          (if is_BodyError (Http_body resp) then
             if Http_status resp = 409 then completed s kind rid ''conflict'' tr
             else if lost (snd (snd tr)) then completed s kind rid ''unknown'' tr
             else fst tr = [] \<and> fst (snd tr) = []
           else if unlogged_increment (Http_body resp) then tr = ([], [], [])
           else completed s kind rid (body_status (Http_body resp)) tr))"

definition request_trail :: "SDK \<Rightarrow> Service \<Rightarrow> HttpRequest \<Rightarrow> HttpResponse \<Rightarrow> trail \<Rightarrow> bool" where
  "request_trail sdk s r resp tr \<longleftrightarrow>
     well_typed r resp \<and>
     (case request_labels r of (verb, route) \<Rightarrow>
        \<exists>ms. fst (snd tr) = ms @ [ObserveHTTP verb route (Http_status resp)] \<and>
          handler_trail sdk s r resp (fst tr, ms, snd (snd tr)))"

abbreviation handled :: "SDK \<Rightarrow> Service \<Rightarrow> HttpRequest \<Rightarrow> HttpResponse \<Rightarrow> trail \<Rightarrow> bool" where
  "handled sdk s r resp tr \<equiv> well_typed r resp \<and> handler_trail sdk s r resp tr"

lemma conflict_no_other:
  "errors_Is e ErrIdempotencyConflict \<Longrightarrow> \<not> errors_Is e ErrInvalidRequest"
  by (induction e) auto

lemma writeError_409: "Http_status (writeError e) = 409 \<longleftrightarrow> errors_Is e ErrIdempotencyConflict"
  using conflict_no_other [of e] by (auto simp: writeError_def writeJSON_def Let_def)

lemma writeError_typed: "error_typed (writeError e)"
  by (auto simp: error_typed_def writeError_def writeJSON_def error_body_def)

lemma respond_trail:
  assumes op: "\<And>req. decodeJSON input = Inr req \<Longrightarrow>
      traced (operation_trail sdk s kind (rid req) status ul ty) (operation req) ([], [], [])"
    and r: "operation_of r = (case decodeJSON input of Inl _ \<Rightarrow> None | Inr req \<Rightarrow> Some (kind, rid req))"
      "\<not> is_probe r"
    and body: "\<And>x. \<not> is_BodyError (body x)" "\<And>x. body_status (body x) = status x"
      "\<And>x. unlogged_increment (body x) = ul x" "\<And>x n. success_typed r (body x) n = ty x n"
  shows "traced (handled sdk s r) (respond input operation body) ([], [], [])"
proof (cases "decodeJSON input")
  case (Inl e)
  then show ?thesis
    using r writeError_typed [of e] by (simp add: respond_def well_typed_def handler_trail_def)
next
  case (Inr req)
  have "handled sdk s r (writeError e) tr" if "operation_trail sdk s kind (rid req) status ul ty (Inl e) tr" for e tr
    using that r writeError_typed [of e] writeError_409 [of e]
    by (simp add: well_typed_def handler_trail_def operation_trail_def Inr)
  moreover have "handled sdk s r (writeJSON n (body x)) tr"
    if "operation_trail sdk s kind (rid req) status ul ty (Inr (x, n)) tr" for x n tr
    using that r body by (simp add: well_typed_def handler_trail_def writeJSON_def Inr)
  ultimately show ?thesis
    unfolding respond_def Inr sum.case traced_seq
    by (intro traced_mono [OF op [OF Inr]])
      (auto simp del: operation_trail_simps split: sum.split)
qed

lemma silent_handler:
  assumes "silent P p" "\<And>x. P x \<Longrightarrow> \<exists>resp. f x = Return resp \<and> well_typed r resp" "operation_of r = None"
  shows "traced (handled sdk s r) (seq p f) ([], [], [])"
  by (rule traced_silent [OF assms(1)]) (use assms(3) in \<open>auto simp: handler_trail_def dest!: assms(2)\<close>)

lemma admission_trail:
  assumes "traced (handled sdk s r) p ([], [], [])" "\<not> is_probe r"
  shows "traced (handled sdk s r) (admission_Wrap p) ([], [], [])"
proof -
  have "handled sdk s r ((writeJSON 503 (error_body code m))\<lparr>Http_retryAfter := True\<rparr>) ([], [], [])" for code m
    using assms by (auto simp: well_typed_def error_typed_def handler_trail_def writeJSON_def error_body_def
        split: option.split)
  then show ?thesis
    unfolding admission_Wrap_def
    by (intro traced_silent [OF silent_LedgerHealth_read])
      (auto intro!: traced_upon_exit traced_mono [OF assms(1)])
qed

lemma middleware_trail:
  assumes "traced (handled sdk s r) p ([], [], [])" "request_labels r = (verb, route)"
  shows "traced (request_trail sdk s r) (HTTPMiddleware verb route p) ([], [], [])"
  unfolding HTTPMiddleware_def traced_seq
  by (rule traced_mono [OF assms(1)]) (auto simp: request_trail_def assms(2))

lemma serveHTTP_trail: "traced (request_trail sdk s r) (serveHTTP sdk s r) ([], [], [])"
proof -
  have balance: "traced (request_trail sdk s r) (server_handle verb route (http_balance sdk s v)) ([], [], [])"
    if "r = GetAccount v \<or> r = HeadAccount v" "request_labels r = (verb, route)" for r v verb route
  proof -
    have "traced (handled sdk s r) (http_balance sdk s v) ([], [], [])"
      unfolding http_balance_def
      by (rule silent_handler [OF silent_Balance])
        (use that in \<open>auto simp: well_typed_def writeJSON_def writeError_typed split: sum.split\<close>)
    with that show ?thesis
      by (auto simp: server_handle_def intro!: middleware_trail admission_trail)
  qed
  have live: "traced (request_trail sdk s r) (HTTPMiddleware verb route http_live) ([], [], [])"
    if "r = GetLive \<or> r = HeadLive" "request_labels r = (verb, route)" for r verb route
    by (rule middleware_trail [OF _ that(2)])
      (use that(1) in \<open>auto simp: http_live_def well_typed_def handler_trail_def writeJSON_def\<close>)
  have ready: "traced (request_trail sdk s r) (HTTPMiddleware verb route http_ready) ([], [], [])"
    if "r = GetReady \<or> r = HeadReady" "request_labels r = (verb, route)" for r verb route
    unfolding http_ready_def
    by (rule middleware_trail [OF silent_handler [OF silent_LedgerHealth_read] that(2)])
      (use that(1) in \<open>auto simp: well_typed_def ready_response_def writeJSON_def Let_def\<close>)
  have "traced (request_trail sdk s r) (serveMux sdk s r) ([], [], [])"
  proof (cases r)
    case (PostAccounts input)
    have "traced (handled sdk s r) (http_createAccount sdk s input) ([], [], [])"
    proof (cases "decodeJSON input")
      case (Inl e)
      then show ?thesis
        using writeError_typed [of e]
        by (simp add: PostAccounts http_createAccount_def respond_def well_typed_def handler_trail_def)
    next
      case (Inr req)
      show ?thesis
        unfolding http_createAccount_def respond_def Inr sum.case
        by (rule silent_handler [OF silent_CreateAccount])
          (auto simp: PostAccounts well_typed_def writeJSON_def writeError_typed split: sum.split)
    qed
    then show ?thesis
      by (simp add: PostAccounts server_handle_def middleware_trail admission_trail)
  next
    case (GetAccount v)
    then show ?thesis using balance [of r v] by simp
  next
    case (HeadAccount v)
    then show ?thesis using balance [of r v] by simp
  next
    case GetLive
    then show ?thesis using live [of r] by simp
  next
    case HeadLive
    then show ?thesis using live [of r] by simp
  next
    case GetReady
    then show ?thesis using ready [of r] by simp
  next
    case HeadReady
    then show ?thesis using ready [of r] by simp
  qed (auto simp: server_handle_def http_topUp_def http_withdraw_def http_allocateToCard_def
      http_returnFromCard_def http_authorize_def http_increment_def AllocateToCard_def ReturnFromCard_def
      simp del: transaction_typed.simps authorization_typed.simps increment_typed.simps
      intro!: middleware_trail admission_trail respond_trail transactions_trail moveCardFunds_trail
        Authorize_trail Increment_trail)
  then show ?thesis
    unfolding serveHTTP_def recoverPanics_def by (intro traced_upon_exit) (auto elim: traced_mono)
qed

section \<open>The log and the counters of the running service\<close>

text \<open>
  The program of every request continues the trail of its history; together the trails are the log
  and the outcome metrics recorded so far.
\<close>

definition audited ::
  "('r \<Rightarrow> 'a \<Rightarrow> trail \<Rightarrow> bool) \<Rightarrow> ('r \<times> 'a prog) list \<Rightarrow> event list list \<Rightarrow> 'l world \<Rightarrow> bool" where
  "audited Q ps hs w \<longleftrightarrow>
     list_all2 (\<lambda>(r, p) h. traced (Q r) p (trail_of h)) ps hs \<and>
     mset (w_log w) = (\<Sum>h\<leftarrow>hs. mset (fst (trail_of h))) \<and>
     mset (filter reported (w_metrics w)) = (\<Sum>h\<leftarrow>hs. mset (fst (snd (trail_of h))))"

lemma trail_of_append: "trail_of (h @ h') = extend (trail_of h) (trail_of h')"
  by (simp add: trail_of_def extend_def)

lemma trail_of_nil [simp]: "trail_of [] = ([], [], [])"
  by (simp add: trail_of_def)

lemma not_reported:
  "observed_begin t l = (i, l', ms) \<Longrightarrow> filter reported ms = []"
  "observed_done order i t b l = (l', ms) \<Longrightarrow> filter reported ms = []"
  by (auto simp: observed_begin_def observed_done_def Let_def split: if_splits)

lemma foreign_laws:
  "account_law a r1 K K' \<Longrightarrow> foreign r1" "transfer_law t r2 K K' \<Longrightarrow> foreign r2"
  "account_lookup_law i r3 K \<Longrightarrow> foreign r3" "transfer_lookup_law i r4 K \<Longrightarrow> foreign r4"
  by (auto simp: foreign_def account_law_def transfer_law_def account_lookup_law_def transfer_lookup_law_def
      split: sum.splits option.splits if_splits)

lemma sum_list_update_mset:
  "i < length xs \<Longrightarrow> (\<Sum>x\<leftarrow>xs[i := y]. f x) + f (xs ! i) = (\<Sum>x\<leftarrow>xs. f x) + (f y :: 'a multiset)"
proof (induction xs arbitrary: i)
  case (Cons x xs)
  then show ?case
    using Cons.IH [of "i - 1"] by (cases i) (simp_all add: ac_simps)
qed simp

text \<open>A request moves on and extends its history.\<close>

lemma audited_moves:
  assumes a: "audited Q ps hs w" and i: "i < length ps" "ps ! i = (r, p)"
    and p: "traced (Q r) p' (trail_of (hs ! i @ h))"
    and w: "w_log w' = w_log w @ fst (trail_of h)"
      "filter reported (w_metrics w') = filter reported (w_metrics w) @ fst (snd (trail_of h))"
  shows "audited Q (ps[i := (r, p')]) (hs[i := hs ! i @ h]) w'"
proof -
  have i': "i < length hs"
    using a i by (auto simp: audited_def dest: list_all2_lengthD)
  have "mset (w_log w') = (\<Sum>h\<leftarrow>hs[i := hs ! i @ h]. mset (fst (trail_of h)))"
      "mset (filter reported (w_metrics w')) = (\<Sum>h\<leftarrow>hs[i := hs ! i @ h]. mset (fst (snd (trail_of h))))"
    using a sum_list_update_mset [OF i', of "\<lambda>h. mset (fst (trail_of h))" "hs ! i @ h"]
      sum_list_update_mset [OF i', of "\<lambda>h. mset (fst (snd (trail_of h)))" "hs ! i @ h"]
    by (simp_all add: audited_def w trail_of_append extend_def)
  moreover have "list_all2 (\<lambda>(r, p) h. traced (Q r) p (trail_of h)) (ps[i := (r, p')]) (hs[i := hs ! i @ h])"
    using a p by (auto simp: audited_def intro: list_all2_update_cong)
  ultimately show ?thesis
    unfolding audited_def by blast
qed

context ledger_contract
begin

lemma traced_act:
  assumes t: "traced Q p tr" and act: "act ops env p w = (p', w')" and w: "linv (w_ledger w)" "cache_inv (w_cache w)"
  shows "traced Q p' (extend tr (trail_of (observation ops env p w)))"
    and "w_log w' = w_log w @ fst (trail_of (observation ops env p w))"
    and "filter reported (w_metrics w') = filter reported (w_metrics w) @ fst (snd (trail_of (observation ops env p w)))"
    and "cache_inv (w_cache w')"
proof -
  let ?h = "trail_of (observation ops env p w)"
  have "traced Q p' (extend tr ?h) \<and> w_log w' = w_log w @ fst ?h \<and>
    filter reported (w_metrics w') = filter reported (w_metrics w) @ fst (snd ?h) \<and> cache_inv (w_cache w')"
  proof (cases p)
    case (CacheStore i m k)
    with w obtain c where "cache_Store i m (w_cache w) = Some c" "cache_inv c"
      using mc.store_cases by metis
    with CacheStore t act w show ?thesis by auto
  next
    case (CallCreateAccount a k)
    obtain r l where c: "Ledger_CreateAccount ops a (w_ledger w) = (r, l)" by fastforce
    with CreateAccount [OF w(1) c] CallCreateAccount t act w foreign_laws(1) show ?thesis by auto
  next
    case (CallCreateTransfer a k)
    obtain r l where c: "Ledger_CreateTransfer ops a (w_ledger w) = (r, l)" by fastforce
    with CreateTransfer [OF w(1) c] CallCreateTransfer t act w foreign_laws(2) show ?thesis
      by (auto simp: trail_of_def extend_def)
  next
    case (CallLookupAccount a k)
    obtain r l where c: "Ledger_LookupAccount ops a (w_ledger w) = (r, l)" by fastforce
    with LookupAccount [OF w(1) c] CallLookupAccount t act w foreign_laws(3) show ?thesis by auto
  next
    case (CallLookupTransfer a k)
    obtain r l where c: "Ledger_LookupTransfer ops a (w_ledger w) = (r, l)" by fastforce
    with LookupTransfer [OF w(1) c] CallLookupTransfer t act w foreign_laws(4) show ?thesis
      by (auto simp: trail_of_def extend_def)
  qed (use t act w not_reported in \<open>auto simp: w_advance_def trail_of_def extend_def split: prod.splits if_splits\<close>)
  then show "traced Q p' (extend tr ?h)" "w_log w' = w_log w @ fst ?h"
    "filter reported (w_metrics w') = filter reported (w_metrics w) @ fst (snd ?h)" "cache_inv (w_cache w')"
    by auto
qed

lemma audited_recorded:
  assumes "recorded ops env outside handler w0 ps w hs" and out: "outside_ok linv view outside"
    and handler: "\<And>r. traced (Q r) (handler r) ([], [], [])"
    and start: "audited Q [] [] w0" "linv (w_ledger w0)" "cache_inv (w_cache w0)"
  shows "audited Q ps hs w \<and> linv (w_ledger w) \<and> cache_inv (w_cache w)"
  using assms(1)
proof (induction rule: recorded.induct)
  case start
  then show ?case using assms(4-6) by blast
next
  case (arrives ps w hs r)
  then show ?case
    using handler [of r] by (auto simp: audited_def intro!: list_all2_appendI)
next
  case (acts ps w hs i r p p' w')
  have "traced (Q r) p (trail_of (hs ! i))"
    using acts.IH acts.hyps by (auto simp: audited_def dest: list_all2_nthD)
  from traced_act [OF this acts.hyps(4)] acts.IH act_grows [OF acts.hyps(4)] show ?case
    by (auto simp: trail_of_append intro!: audited_moves [OF _ acts.hyps(2,3)])
next
  case (outside ps w hs l)
  with out show ?case
    by (auto simp: audited_def outside_ok_def)
qed

end

text \<open>Startup leaves nothing in the log, so the trails of the requests are all there is.\<close>

lemma starts_audited:
  assumes c: "ledger_contract ops view linv" and out: "outside_ok linv view outside"
    and st: "starts sdk s ops linv env outside w0"
  shows "audited Q [] [] w0"
proof -
  obtain stall n m l k where l: "linv l"
    and steps: "sys_steps ops (env\<lparr>env_slots := k\<rparr>) outside (\<lambda>_ :: unit. EnsureSystemAccounts sdk s)
      ([], initial_world stall n m l) ([((), Return (Inr ()))], w0)"
    using st by (auto simp: starts_def)
  obtain hs where hs: "recorded ops (env\<lparr>env_slots := k\<rparr>) outside (\<lambda>_ :: unit. EnsureSystemAccounts sdk s)
      (initial_world stall n m l) [((), Return (Inr ()))] w0 hs"
    using steps_recorded [OF steps] by blast
  have "traced (\<lambda>_ tr. tr = ([], [], [])) (EnsureSystemAccounts sdk s) ([], [], [])"
    using silent_ensureAccounts unfolding EnsureSystemAccounts_def silent_def by (simp del: ensureAccounts.simps)
  moreover have "audited (\<lambda>_ _ tr. tr = ([], [], [])) [] [] (initial_world stall n m l)"
    by (simp add: audited_def initial_world_def)
  moreover have "linv (w_ledger (initial_world stall n m l))" "cache_inv (w_cache (initial_world stall n m l))"
    using l cache_inv_new [of n] by (simp_all add: initial_world_def)
  ultimately have "audited (\<lambda>_ _ tr. tr = ([], [], [])) [((), Return (Inr () :: Error + unit))] hs w0"
    using ledger_contract.audited_recorded [OF c hs out, where Q = "\<lambda>_ _ tr. tr = ([], [], [])"] by blast
  then show ?thesis
    by (auto simp: audited_def list_all2_Cons1)
qed

lemma serves_audited:
  assumes "serves sdk s ops view linv env outside w0 ps w"
    and "recorded ops env outside (serveHTTP sdk s) w0 ps w hs"
  shows "audited (request_trail sdk s) ps hs w"
proof -
  have c: "ledger_contract ops view linv" "outside_ok linv view outside" "starts sdk s ops linv env outside w0"
    using assms(1) by (auto simp: serves_def)
  moreover have "linv (w_ledger w0)" "cache_inv (w_cache w0)"
    using serves_world(1) [OF assms(1)] by (auto simp: world_inv_def)
  ultimately show ?thesis
    using ledger_contract.audited_recorded [OF c(1) assms(2) c(2) serveHTTP_trail starts_audited [OF c]] by blast
qed

text \<open>Each finished request has left the trail its response asks for.\<close>

lemma serves_trail:
  assumes "serves sdk s ops view linv env outside w0 ps w"
    and "recorded ops env outside (serveHTTP sdk s) w0 ps w hs" "n < length ps" "ps ! n = (r, Return resp)"
  shows "request_trail sdk s r resp (trail_of (hs ! n))"
  using serves_audited [OF assms(1,2)] assms(3,4) by (auto simp: audited_def dest!: list_all2_nthD)

lemma serves_typed:
  assumes "serves sdk s ops view linv env outside w0 ps w" "(r, Return resp) \<in> set ps"
  shows "well_typed r resp"
proof -
  obtain hs where hs: "recorded ops env outside (serveHTTP sdk s) w0 ps w hs"
    using serves_recorded [OF assms(1)] by blast
  obtain n where "n < length ps" "ps ! n = (r, Return resp)"
    using assms(2) by (auto simp: in_set_conv_nth)
  from serves_trail [OF assms(1) hs this] show ?thesis by (simp add: request_trail_def)
qed

section \<open>What the trails give when all requests have finished\<close>

definition finished :: "('r \<times> 'a prog) list \<Rightarrow> bool" where
  "finished ps \<longleftrightarrow> list_all (\<lambda>(r, p). \<exists>x. p = Return x) ps"

lemma finished_trails:
  assumes "audited (request_trail sdk s) ps hs w" "finished ps"
  shows "list_all2 (\<lambda>(r, p) h. \<exists>resp. p = Return resp \<and> request_trail sdk s r resp (trail_of h)) ps hs"
  using assms by (auto simp: audited_def finished_def list_all_length list_all2_conv_all_nth split: prod.splits)
    fastforce

text \<open>The counters as counts of the recorded calls.\<close>

fun counts_http :: "string \<Rightarrow> string \<Rightarrow> string \<Rightarrow> MetricCall \<Rightarrow> bool" where
  "counts_http verb route code (ObserveHTTP v r n) \<longleftrightarrow> v = verb \<and> r = route \<and> show_int n = code"
| "counts_http verb route code _ \<longleftrightarrow> False"

fun counts_operation :: "string \<Rightarrow> string \<Rightarrow> MetricCall \<Rightarrow> bool" where
  "counts_operation kind status (ObserveOperation k st d) \<longleftrightarrow> k = kind \<and> st = status"
| "counts_operation kind status _ \<longleftrightarrow> False"

lemmas metric_defs = metrics_BeginAdmission_def metrics_EndAdmission_def
  metrics_ObserveAdmissionRejection_def metrics_ObserveLedgerCall_def metrics_SetLedgerCallsInFlight_def
  metrics_ObserveOperation_def metrics_ObserveHTTP_def vec_inc_def

lemma counters_fold:
  "metrics_http (fold metrics_apply ms m) (verb, route, code) =
     metrics_http m (verb, route, code) + length (filter (counts_http verb route code) ms)"
  "metrics_operations (fold metrics_apply ms m) (kind, status) =
     metrics_operations m (kind, status) + length (filter (counts_operation kind status) ms)"
proof (induction ms arbitrary: m)
  case (Cons c ms)
  {
    case 1
    show ?case by (cases c) (simp_all add: Cons metric_defs)
  next
    case 2
    show ?case by (cases c) (simp_all add: Cons metric_defs)
  }
qed simp_all

lemma counts_reported:
  "(\<lambda>c. reported c \<and> counts_http verb route code c) = counts_http verb route code"
  "(\<lambda>c. reported c \<and> counts_operation kind status c) = counts_operation kind status"
  by (auto simp: fun_eq_iff elim: counts_http.elims counts_operation.elims)

lemma length_filter_trails:
  assumes "mset xs = (\<Sum>tr\<leftarrow>trs. mset (f tr))"
  shows "length (filter P xs) = (\<Sum>tr\<leftarrow>trs. length (filter P (f tr)))"
proof -
  have "length (filter P xs) = size (filter_mset P (mset xs))"
    by (simp flip: mset_filter)
  also have "\<dots> = (\<Sum>tr\<leftarrow>trs. length (filter P (f tr)))"
    unfolding assms by (induction trs) (simp_all flip: mset_filter)
  finally show ?thesis .
qed

lemma audited_counts:
  assumes "audited Q ps hs w"
  shows "metrics_http (fold metrics_apply (w_metrics w) NewMetrics) (verb, route, code) =
      (\<Sum>h\<leftarrow>hs. length (filter (counts_http verb route code) (fst (snd (trail_of h)))))"
    and "metrics_operations (fold metrics_apply (w_metrics w) NewMetrics) (kind, status) =
      (\<Sum>h\<leftarrow>hs. length (filter (counts_operation kind status) (fst (snd (trail_of h)))))"
    and "length (filter P (w_log w)) = (\<Sum>h\<leftarrow>hs. length (filter P (fst (trail_of h))))"
proof -
  have "mset (filter reported (w_metrics w)) = (\<Sum>h\<leftarrow>hs. mset (fst (snd (trail_of h))))"
      "mset (w_log w) = (\<Sum>h\<leftarrow>hs. mset (fst (trail_of h)))"
    using assms by (simp_all add: audited_def)
  from length_filter_trails [where f = "\<lambda>h. fst (snd (trail_of h))", OF this(1)]
    length_filter_trails [where f = "\<lambda>h. fst (trail_of h)", OF this(2)]
  show "metrics_http (fold metrics_apply (w_metrics w) NewMetrics) (verb, route, code) =
      (\<Sum>h\<leftarrow>hs. length (filter (counts_http verb route code) (fst (snd (trail_of h)))))"
    and "metrics_operations (fold metrics_apply (w_metrics w) NewMetrics) (kind, status) =
      (\<Sum>h\<leftarrow>hs. length (filter (counts_operation kind status) (fst (snd (trail_of h)))))"
    and "length (filter P (w_log w)) = (\<Sum>h\<leftarrow>hs. length (filter P (fst (trail_of h))))"
    by (simp_all add: counters_fold NewMetrics_def) (metis counts_reported)+
qed

definition reports :: "string \<Rightarrow> string \<Rightarrow> LogEntry \<Rightarrow> bool" where
  "reports kind status l \<longleftrightarrow>
     map_of (log_fields l) ''kind'' = Some (LogString kind) \<and>
     map_of (log_fields l) ''status'' = Some (LogString status)"

lemma completed_counts:
  assumes "completed s k rid st tr"
  shows "length (filter (reports kind status) (fst tr)) = of_bool (k = kind \<and> st = status)"
    and "filter (counts_http verb route code) (fst (snd tr)) = []"
    and "Service_metrics s \<Longrightarrow>
      length (filter (counts_operation kind status) (fst (snd tr))) = of_bool (k = kind \<and> st = status)"
  using assms by (auto simp: completed_def completion_line_def reports_def split: if_splits)

lemma handler_trail_cases:
  assumes "handler_trail sdk s r resp tr"
  obtains "fst tr = []" "fst (snd tr) = []"
  | kind rid st where "operation_of r = Some (kind, rid)" "completed s kind rid st tr"
      "st = (if is_BodyError (Http_body resp) then if Http_status resp = 409 then ''conflict'' else ''unknown''
             else body_status (Http_body resp))"
proof (cases "operation_of r")
  case None
  with assms that(1) show ?thesis by (simp add: handler_trail_def)
next
  case (Some x)
  obtain kind rid where x: "x = (kind, rid)" by fastforce
  with Some assms have "fst tr = [] \<and> fst (snd tr) = [] \<or> completed s kind rid
      (if is_BodyError (Http_body resp) then if Http_status resp = 409 then ''conflict'' else ''unknown''
       else body_status (Http_body resp)) tr"
    by (simp add: handler_trail_def split: if_splits)
  with that Some x show ?thesis by blast
qed

lemma request_counts:
  assumes "request_trail sdk s r resp tr"
  shows "length (filter (counts_http verb route code) (fst (snd tr))) =
      of_bool (request_labels r = (verb, route) \<and> show_int (Http_status resp) = code)"
    and "Service_metrics s \<Longrightarrow> length (filter (counts_operation kind status) (fst (snd tr))) =
      length (filter (reports kind status) (fst tr))"
proof -
  obtain v rt ms where r: "request_labels r = (v, rt)" by fastforce
  with assms obtain ms where ms: "fst (snd tr) = ms @ [ObserveHTTP v rt (Http_status resp)]"
      "handler_trail sdk s r resp (fst tr, ms, snd (snd tr))"
    by (auto simp: request_trail_def)
  from ms(2) have "filter (counts_http verb route code) ms = [] \<and>
      (Service_metrics s \<longrightarrow> length (filter (counts_operation kind status) ms) =
        length (filter (reports kind status) (fst tr)))"
  proof (cases rule: handler_trail_cases)
    case (2 k rid st)
    with completed_counts [OF 2(2)] show ?thesis by simp
  qed simp
  then show "length (filter (counts_http verb route code) (fst (snd tr))) =
      of_bool (request_labels r = (verb, route) \<and> show_int (Http_status resp) = code)"
    and "Service_metrics s \<Longrightarrow> length (filter (counts_operation kind status) (fst (snd tr))) =
      length (filter (reports kind status) (fst tr))"
    by (auto simp: ms(1) r)
qed

text \<open>The counters of a service whose requests have all finished.\<close>

definition answered :: "string \<Rightarrow> string \<Rightarrow> string \<Rightarrow> HttpRequest \<times> HttpResponse prog \<Rightarrow> bool" where
  "answered verb route code x \<longleftrightarrow>
     (case x of
        (r, Return resp) \<Rightarrow> request_labels r = (verb, route) \<and> show_int (Http_status resp) = code
      | _ \<Rightarrow> False)"

lemma serves_counts:
  assumes "serves sdk s ops view linv env outside w0 ps w" "finished ps"
  shows "metrics_http (fold metrics_apply (w_metrics w) NewMetrics) (verb, route, code) =
      length (filter (answered verb route code) ps)"
    and "Service_metrics s \<Longrightarrow> metrics_operations (fold metrics_apply (w_metrics w) NewMetrics) (kind, status) =
      length (filter (reports kind status) (w_log w))"
proof -
  obtain hs where a: "audited (request_trail sdk s) ps hs w"
    using serves_audited [OF assms(1)] serves_recorded [OF assms(1)] by blast
  note trails = finished_trails [OF a assms(2)]
  have "(\<Sum>h\<leftarrow>hs. length (filter (counts_http verb route code) (fst (snd (trail_of h))))) = length (filter (answered verb route code) ps)"
    using trails
  proof (induction rule: list_all2_induct)
    case (Cons x xs h hs)
    then obtain r resp where "x = (r, Return resp)" "request_trail sdk s r resp (trail_of h)" by (cases x) auto
    with Cons.IH show ?case by (simp add: request_counts(1) answered_def)
  qed simp
  then show "metrics_http (fold metrics_apply (w_metrics w) NewMetrics) (verb, route, code) =
      length (filter (answered verb route code) ps)"
    by (simp add: audited_counts(1) [OF a])
  have "(\<Sum>h\<leftarrow>hs. length (filter (counts_operation kind status) (fst (snd (trail_of h))))) =
      (\<Sum>h\<leftarrow>hs. length (filter (reports kind status) (fst (trail_of h))))" if "Service_metrics s"
    using trails
  proof (induction rule: list_all2_induct)
    case (Cons x xs h hs)
    then obtain r resp where "x = (r, Return resp)" "request_trail sdk s r resp (trail_of h)" by (cases x) auto
    with Cons.IH show ?case by (simp add: request_counts(2) [OF _ that])
  qed simp
  then show "Service_metrics s \<Longrightarrow> metrics_operations (fold metrics_apply (w_metrics w) NewMetrics) (kind, status) =
      length (filter (reports kind status) (w_log w))"
    by (simp add: audited_counts(2,3) [OF a])
qed

text \<open>Every line of the log comes from a request.\<close>

lemma serves_line:
  assumes "serves sdk s ops view linv env outside w0 ps w" "finished ps" "l \<in> set (w_log w)"
  obtains r resp kind rid st where "(r, Return resp) \<in> set ps" "operation_of r = Some (kind, rid)"
    "completion_line kind rid st l"
    "st = (if is_BodyError (Http_body resp) then if Http_status resp = 409 then ''conflict'' else ''unknown''
           else body_status (Http_body resp))"
proof -
  obtain hs where a: "audited (request_trail sdk s) ps hs w"
    using serves_audited [OF assms(1)] serves_recorded [OF assms(1)] by blast
  then have "mset (w_log w) = (\<Sum>h\<leftarrow>hs. mset (fst (trail_of h)))"
    by (simp add: audited_def)
  then have "l \<in># (\<Sum>h\<leftarrow>hs. mset (fst (trail_of h)))"
    using assms(3) by (metis set_mset_mset)
  then obtain h where h: "h \<in> set hs" "l \<in> set (fst (trail_of h))"
    by (induction hs) auto
  then obtain i where i: "i < length hs" "hs ! i = h"
    by (auto simp: in_set_conv_nth)
  obtain r resp where r: "ps ! i = (r, Return resp)" "request_trail sdk s r resp (trail_of h)" "i < length ps"
    using list_all2_nthD2 [OF finished_trails [OF a assms(2)] i(1)]
      list_all2_lengthD [OF finished_trails [OF a assms(2)]] i by (cases "ps ! i") auto
  then have ps: "(r, Return resp) \<in> set ps"
    using nth_mem by metis
  obtain ms where "handler_trail sdk s r resp (fst (trail_of h), ms, snd (snd (trail_of h)))"
    using r(2) by (cases "request_labels r") (auto simp: request_trail_def)
  then show ?thesis
  proof (cases rule: handler_trail_cases)
    case 1
    with h(2) show ?thesis by simp
  next
    case (2 kind rid st)
    then have "completion_line kind rid st l"
      using h(2) by (auto simp: completed_def)
    with that ps 2 show ?thesis by blast
  qed
qed

section \<open>A reported success is a committed transfer\<close>

fun operation_amount :: "HttpRequest \<Rightarrow> uint64" where
  "operation_amount (PostTopUps input) = (case decodeJSON input of Inl _ \<Rightarrow> 0 | Inr r \<Rightarrow> TopUp_AmountCents r)"
| "operation_amount (PostWithdrawals input) = (case decodeJSON input of Inl _ \<Rightarrow> 0 | Inr r \<Rightarrow> Withdrawal_AmountCents r)"
| "operation_amount (PostCardAllocations input) =
     (case decodeJSON input of Inl _ \<Rightarrow> 0 | Inr r \<Rightarrow> CardAllocation_AmountCents r)"
| "operation_amount (PostCardReturns input) = (case decodeJSON input of Inl _ \<Rightarrow> 0 | Inr r \<Rightarrow> CardReturn_AmountCents r)"
| "operation_amount (PostAuthorizations input) =
     (case decodeJSON input of Inl _ \<Rightarrow> 0 | Inr r \<Rightarrow> Authorization_AmountCents r)"
| "operation_amount (PostIncrements input) =
     (case decodeJSON input of Inl _ \<Rightarrow> 0 | Inr r \<Rightarrow> Increment_IncrementCents r)"
| "operation_amount _ = 0"

text \<open>The transfer with the ID and the amount of the request exists.\<close>

definition executed :: "SDK \<Rightarrow> HttpRequest \<Rightarrow> ledger_view \<Rightarrow> bool" where
  "executed sdk r K \<longleftrightarrow>
     (\<exists>kind rid i t. operation_of r = Some (kind, rid) \<and> requestID sdk rid = Inr i \<and>
        view_transfers K i = Some t \<and> Transfer_Amount t = ToUint128 sdk (operation_amount r))"

lemma both_Some: "both a b f = Some t \<longleftrightarrow> (\<exists>x y. a = Inr x \<and> b = Inr y \<and> t = f x y)"
  by (cases a; cases b) auto

lemma intent_executed:
  assumes "request_intent sdk s r = Some t" "committed t ts K"
  shows "executed sdk r K"
  using assms
  by (cases r) (auto simp: executed_def committed_def TopUp_intent_def Withdraw_intent_def AllocateToCard_intent_def
      ReturnFromCard_intent_def card_intent_def Authorize_intent_def both_Some posted_transfer_def
      authorization_transfer_def Let_def case_prod_beta bind_eq_Some_conv split: sum.splits if_splits)

lemma success_text:
  assumes "well_typed r resp" "body_status (Http_body resp) \<in> {''posted'', ''approved''}"
  shows "success r resp \<noteq> None \<or> (\<exists>input x. r = PostIncrements input \<and> Http_body resp = BodyIncrement x \<and>
    IncResp_Status x = ''approved'')"
  using assms
  by (cases r) (auto simp: well_typed_def error_typed_def posted_at_def approved_at_def split: ResponseBody.splits)

lemma reported_executed:
  assumes post: "http_post K0 sdk s r resp K" and typed: "well_typed r resp"
    and status: "body_status (Http_body resp) \<in> {''posted'', ''approved''}"
  shows "executed sdk r K"
  using success_text [OF typed status]
proof (elim disjE exE conjE)
  assume "success r resp \<noteq> None"
  then show ?thesis
    using success_committed [OF post] intent_executed by fastforce
next
  fix input x
  assume r: "r = PostIncrements input" "Http_body resp = BodyIncrement x" "IncResp_Status x = ''approved''"
  then obtain req where "decodeJSON input = Inr req" "increment_post K0 sdk s req (Inr (x, Http_status resp)) K"
    using post by (auto simp: answers_def)
  with r show ?thesis
    by (auto simp: increment_post_def executed_def increment_of_def committed_def increment_transfer_def)
qed

end
