(* ===== verification/Wire_Exchange.thy ===== *)
theory Wire_Exchange
  imports Http_Wire Load_Test Example_Run Audit_Trail
begin

text \<open>
  The load generator and the service on the two ends of a connection.  What the generator sends is
  routed and decoded to the request it stands for; what the service answers is read back by the
  generator; and what the generator counts as a success is a committed transfer.
\<close>

section \<open>Requests of the load generator\<close>

text \<open>The request \<open>execute\<close> builds, for a base URL without a path.\<close>

definition execute_wire :: "Options \<Rightarrow> string \<Rightarrow> WireRequest" where
  "execute_wire c rid =
     (case execute_request c rid of (path, payload) \<Rightarrow>
        \<lparr>Wire_Method = ''POST'', Wire_EscapedPath = path, Wire_ContentType = ''application/json'',
         Wire_Body = marshal_map payload, Wire_BodyError = None\<rparr>)"

text \<open>A routed request that asks for what the options of the generator say.\<close>

fun carries :: "Options \<Rightarrow> string \<Rightarrow> HttpRequest \<Rightarrow> bool" where
  "carries c rid (PostTopUps input) \<longleftrightarrow>
     opt_operation c = ''topup'' \<and>
     decodeJSON input = Inr \<lparr>TopUp_RequestID = rid, TopUp_AccountID = opt_accountID c,
       TopUp_AmountCents = opt_amountCents c\<rparr>"
| "carries c rid (PostWithdrawals input) \<longleftrightarrow>
     opt_operation c = ''withdraw'' \<and>
     decodeJSON input = Inr \<lparr>Withdrawal_RequestID = rid, Withdrawal_AccountID = opt_accountID c,
       Withdrawal_AmountCents = opt_amountCents c\<rparr>"
| "carries c rid (PostAuthorizations input) \<longleftrightarrow>
     opt_operation c = ''authorize'' \<and>
     decodeJSON input = Inr \<lparr>Authorization_RequestID = rid, Authorization_CardID = opt_cardID c,
       Authorization_MerchantID = opt_merchantID c, Authorization_AmountCents = opt_amountCents c\<rparr>"
| "carries c rid (PostIncrements input) \<longleftrightarrow>
     opt_operation c = ''increment'' \<and>
     decodeJSON input = Inr \<lparr>Increment_RequestID = rid,
       Increment_AuthorizationID = opt_authorizationID c, Increment_IncrementCents = opt_amountCents c\<rparr>"
| "carries c rid _ \<longleftrightarrow> False"

text \<open>The strings the generator sends survive encoding.\<close>

definition sendable :: "Options \<Rightarrow> string \<Rightarrow> bool" where
  "sendable c rid \<longleftrightarrow>
     valid_utf8 rid \<and> valid_utf8 (opt_accountID c) \<and> valid_utf8 (opt_cardID c) \<and>
     valid_utf8 (opt_merchantID c) \<and> valid_utf8 (opt_authorizationID c) \<and>
     length (Wire_Body (execute_wire c rid)) \<le> maxRequestBytes"

lemma json_media_type: "ParseMediaType ''application/json'' = Some ''application/json''"
  by code_simp

lemma decode_encoded:
  assumes "Wire_ContentType req = ''application/json''" "Wire_BodyError req = None"
    "Wire_Body req = encode_object ms" "length (Wire_Body req) \<le> maxRequestBytes"
    "store_members True t (map encoded_member ms) (None, x) = (None, y)"
  shows "decodeJSON (read_input is_print t x req) = Inr y"
  using assms readValue_object [of ms "[]"] readValue_spaces [of "[]"]
  by (simp add: read_input_def body_reader_def MaxBytesReader_def decodeJSON_def unmarshal_def json_media_type
      EqualFold_def)

lemmas request_types = TopUpRequest_type_def WithdrawalRequest_type_def AuthorizationRequest_type_def
  IncrementAuthorizationRequest_type_def

lemma sorted_payloads:
  "sort_key fst [(''request_id'', a), (''account_id'', b), (''amount_cents'', d :: Value)] =
     [(''account_id'', b), (''amount_cents'', d), (''request_id'', a)]"
  "sort_key fst [(''request_id'', a), (''authorization_id'', b), (''increment_cents'', d)] =
     [(''authorization_id'', b), (''increment_cents'', d), (''request_id'', a)]"
  "sort_key fst [(''request_id'', a), (''card_id'', b), (''merchant_id'', e), (''amount_cents'', d)] =
     [(''amount_cents'', d), (''card_id'', b), (''merchant_id'', e), (''request_id'', a)]"
  by (simp_all add: less_eq_char_def less_char_def)

lemma payload_stored:
  "store_members True TopUpRequest_type
     (map encoded_member [(''account_id'', StringValue b), (''amount_cents'', Uint64Value d), (''request_id'', StringValue a)])
     (None, \<lparr>TopUp_RequestID = [], TopUp_AccountID = [], TopUp_AmountCents = 0\<rparr>) =
     (None, \<lparr>TopUp_RequestID = ToValidUTF8 a, TopUp_AccountID = ToValidUTF8 b, TopUp_AmountCents = d\<rparr>)"
  "store_members True WithdrawalRequest_type
     (map encoded_member [(''account_id'', StringValue b), (''amount_cents'', Uint64Value d), (''request_id'', StringValue a)])
     (None, \<lparr>Withdrawal_RequestID = [], Withdrawal_AccountID = [], Withdrawal_AmountCents = 0\<rparr>) =
     (None, \<lparr>Withdrawal_RequestID = ToValidUTF8 a, Withdrawal_AccountID = ToValidUTF8 b, Withdrawal_AmountCents = d\<rparr>)"
  "store_members True IncrementAuthorizationRequest_type
     (map encoded_member [(''authorization_id'', StringValue b), (''increment_cents'', Uint64Value d), (''request_id'', StringValue a)])
     (None, \<lparr>Increment_RequestID = [], Increment_AuthorizationID = [], Increment_IncrementCents = 0\<rparr>) =
     (None, \<lparr>Increment_RequestID = ToValidUTF8 a, Increment_AuthorizationID = ToValidUTF8 b, Increment_IncrementCents = d\<rparr>)"
  "store_members True AuthorizationRequest_type
     (map encoded_member [(''amount_cents'', Uint64Value d), (''card_id'', StringValue b), (''merchant_id'', StringValue e), (''request_id'', StringValue a)])
     (None, \<lparr>Authorization_RequestID = [], Authorization_CardID = [], Authorization_MerchantID = [], Authorization_AmountCents = 0\<rparr>) =
     (None, \<lparr>Authorization_RequestID = ToValidUTF8 a, Authorization_CardID = ToValidUTF8 b,
       Authorization_MerchantID = ToValidUTF8 e, Authorization_AmountCents = d\<rparr>)"
  by (simp_all add: store_encoded_member request_types lower_ascii_def saveError_def)

lemma generator_paths:
  "cleanPath ''/v1/topups'' = ''/v1/topups''" "path_segments ''/v1/topups'' = [''v1'', ''topups'']"
  "cleanPath ''/v1/withdrawals'' = ''/v1/withdrawals''"
  "path_segments ''/v1/withdrawals'' = [''v1'', ''withdrawals'']"
  "cleanPath ''/v1/authorizations'' = ''/v1/authorizations''"
  "path_segments ''/v1/authorizations'' = [''v1'', ''authorizations'']"
  "cleanPath ''/v1/authorizations/increments'' = ''/v1/authorizations/increments''"
  "path_segments ''/v1/authorizations/increments'' = [''v1'', ''authorizations'', ''increments'']"
  by code_simp+

lemma generator_request:
  assumes "validate c = None" "sendable c rid"
  shows "\<exists>r. route is_print (execute_wire c rid) = Routed r \<and> carries c rid r"
proof -
  let ?req = "execute_wire c rid"
  have req: "Wire_Method ?req = ''POST''" "Wire_ContentType ?req = ''application/json''"
      "Wire_BodyError ?req = None" "length (Wire_Body ?req) \<le> maxRequestBytes"
    using assms(2) by (simp_all add: sendable_def execute_wire_def split: prod.splits)
  have utf8: "ToValidUTF8 rid = rid" "ToValidUTF8 (opt_accountID c) = opt_accountID c"
      "ToValidUTF8 (opt_cardID c) = opt_cardID c" "ToValidUTF8 (opt_merchantID c) = opt_merchantID c"
      "ToValidUTF8 (opt_authorizationID c) = opt_authorizationID c"
    using assms(2) by (simp_all add: sendable_def ToValidUTF8_valid)
  have payload: "Wire_EscapedPath ?req = fst (execute_request c rid)"
      "Wire_Body ?req = encode_object (sort_key fst (snd (execute_request c rid)))"
    by (simp_all add: execute_wire_def marshal_map_def split: prod.splits)
  note decode = decode_encoded [OF req(2,3) payload(2) req(4)]
  note simps = route_table req payload(1) generator_paths execute_request_def sorted_payloads payload_stored utf8
  consider "opt_operation c = ''authorize''" | "opt_operation c = ''increment''"
    | "opt_operation c = ''topup''" | "opt_operation c = ''withdraw''"
    using assms(1) by (auto simp: validate_def split: if_splits)
  then show ?thesis
    by cases (auto simp: simps simp del: list.map intro!: decode)
qed

section \<open>Responses read back\<close>

definition readable_members :: "(string \<times> Value) list \<Rightarrow> bool" where
  "readable_members ms \<longleftrightarrow> list_all (\<lambda>(key, v). lower_ascii key \<and> (key = ''status'' \<longrightarrow> (\<exists>s. v = StringValue s))) ms"

lemma readable_simps [simp]:
  "readable_members []" "readable_members (a @ b) \<longleftrightarrow> readable_members a \<and> readable_members b"
  "readable_members ((key, v) # ms) \<longleftrightarrow>
     lower_ascii key \<and> (key = ''status'' \<longrightarrow> (\<exists>s. v = StringValue s)) \<and> readable_members ms"
  "readable_members (omitempty key v) \<longleftrightarrow> is_empty_value v \<or> readable_members [(key, v)]"
  by (auto simp: readable_members_def omitempty_def)

lemma last_status_simps [simp]:
  "last_status [] st = st" "last_status (a @ b) st = last_status b (last_status a st)"
  "last_status ((key, v) # ms) st =
     last_status ms (case v of StringValue s \<Rightarrow> if key = ''status'' then ToValidUTF8 s else st | _ \<Rightarrow> st)"
  "key \<noteq> ''status'' \<Longrightarrow> last_status (omitempty key v) st = st"
  by (auto simp: last_status_def omitempty_def split: Value.splits)

lemma response_members_readable:
  assumes "response_members body = Some ms"
  shows "readable_members ms \<and> last_status ms [] = ToValidUTF8 (body_status body)"
  using assms
  by (cases body) (auto simp: lower_ascii_def split: option.splits)

lemma read_response:
  "json_Unmarshal outcome_type (encode_body body) [] =
     (if response_members body = None then Inl UnexpectedEnd else Inr (ToValidUTF8 (body_status body)))"
proof (cases "response_members body")
  case None
  then show ?thesis
    by (simp add: encode_body_def json_Unmarshal_def checkValid_def scan_start_def stateBeginValue_def isSpace_def)
next
  case (Some ms)
  then show ?thesis
    using Unmarshal_outcome [of ms "[CHR 0x0A]"] response_members_readable [OF Some]
    by (simp add: encode_body_def readable_members_def isSpace_def)
qed

section \<open>The whole exchange\<close>

text \<open>The answer to a request with an operation of the journal has a plain status text.\<close>

lemma operation_status_plain:
  assumes "well_typed r resp" "operation_of r \<noteq> None"
  shows "ToValidUTF8 (body_status (Http_body resp)) = body_status (Http_body resp)"
proof -
  have "body_status (Http_body resp) \<in> {''error'', ''posted'', ''failed'', ''approved'', ''declined''}"
    using assms by (cases r) (auto simp: well_typed_def error_typed_def split: ResponseBody.splits)
  then show ?thesis
    by (auto intro!: ToValidUTF8_ascii)
qed

lemma succeeded_status:
  assumes "succeeded (execute is_print (Responded status d None (encode_body body)))"
  shows "ToValidUTF8 (body_status body) \<in> {''posted'', ''approved''}"
  using assms by (auto simp: succeeded_def zeroResult_def Let_def read_response split: if_splits)

lemma carries_operation:
  "carries c rid r \<Longrightarrow> \<exists>kind. operation_of r = Some (kind, rid)"
  "carries c rid r \<Longrightarrow> operation_amount r = opt_amountCents c"
  by (cases r; auto)+

text \<open>A service sees of a request only what it decodes to.\<close>

lemma serveHTTP_decoded:
  "decodeJSON a = decodeJSON b \<Longrightarrow> serveHTTP sdk s (PostTopUps a) = serveHTTP sdk s (PostTopUps b)"
  by (simp add: serveHTTP_def http_topUp_def respond_def)

section \<open>An example\<close>

definition example_load :: Options where
  "example_load = resolve_concurrency (default_options\<lparr>opt_operation := ''topup'', opt_accountID := ''a0'', opt_amountCents := 500\<rparr>)"

lemma example_load_simps [simp]:
  "opt_operation example_load = ''topup''" "opt_accountID example_load = ''a0''"
  "opt_cardID example_load = ''19c5d2b61ac27dd55d9c9daff5af442''" "opt_merchantID example_load = ''MRC_009''"
  "opt_authorizationID example_load = ''19c5d2b61ac27dd55d9c9daff5af445''" "opt_amountCents example_load = 500"
  by (simp_all add: example_load_def resolve_concurrency_def default_options_def loadtest_defaults Let_def)

lemma example_body_length: "length (Wire_Body (execute_wire example_load ''b1'')) < 100"
  by (simp add: execute_wire_def execute_request_def marshal_map_def sorted_payloads) code_simp

lemma example_load_valid: "validate example_load = None" "sendable example_load ''b1''"
  using example_body_length
  by (simp_all add: validate_def example_load_def resolve_concurrency_def default_options_def defaultConcurrency_def
      loadtest_defaults Let_def
      sendable_def maxRequestBytes_def valid_utf8_ascii)

lemma example_wire:
  obtains input where "route (\<lambda>_. True) (execute_wire example_load ''b1'') = Routed (PostTopUps input)"
    "decodeJSON input = Inr \<lparr>TopUp_RequestID = ''b1'', TopUp_AccountID = ''a0'', TopUp_AmountCents = 500\<rparr>"
proof -
  obtain r where "route (\<lambda>_. True) (execute_wire example_load ''b1'') = Routed r" "carries example_load ''b1'' r"
    using generator_request [OF example_load_valid] by blast
  then show ?thesis
    using that by (cases r) auto
qed

lemma example_wire_serves:
  assumes "decodeJSON input = Inr \<lparr>TopUp_RequestID = ''b1'', TopUp_AccountID = ''a0'', TopUp_AmountCents = 500\<rparr>"
  shows "serves reference_sdk example_service (fake_ops reference_sdk) (fake_view reference_sdk)
    (fake_inv reference_sdk) example_env (\<lambda>_ _. False) example_world
    [(PostTopUps input, Return (transaction_answer 200 ''b1'' ''posted'' ''created'' 1001 ([], [])))]
    (snd (example_serve [example_topup 500]))"
proof -
  have same: "example_serve [PostTopUps input] = example_serve [example_topup 500]"
    using serveHTTP_decoded [of input "json \<lparr>TopUp_RequestID = ''b1'', TopUp_AccountID = ''a0'', TopUp_AmountCents = 500\<rparr>"]
      assms by (simp add: example_serve_def example_topup_def)
  show ?thesis
    using example_serves [of "[PostTopUps input]" "[transaction_answer 200 ''b1'' ''posted'' ''created'' 1001 ([], [])]"]
      first_run by (simp add: same)
qed

lemma example_decoded:
  "decodeJSON (read_input (\<lambda>_. True) TopUpRequest_type
     \<lparr>TopUp_RequestID = [], TopUp_AccountID = [], TopUp_AmountCents = 0\<rparr> (execute_wire example_load ''b1'')) =
   Inr \<lparr>TopUp_RequestID = ToValidUTF8 ''b1'', TopUp_AccountID = ToValidUTF8 ''a0'', TopUp_AmountCents = 500\<rparr>"
proof (rule decode_encoded)
  show "length (Wire_Body (execute_wire example_load ''b1'')) \<le> maxRequestBytes"
    using example_body_length by (simp add: maxRequestBytes_def)
  show "Wire_Body (execute_wire example_load ''b1'') =
      encode_object [(''account_id'', StringValue ''a0''), (''amount_cents'', Uint64Value 500), (''request_id'', StringValue ''b1'')]"
    by (simp add: execute_wire_def execute_request_def marshal_map_def sorted_payloads)
qed (simp_all only: payload_stored, simp_all add: execute_wire_def split: prod.split)

section \<open>Properties\<close>

text \<open>
  C12.  What the load generator counts as a success is money moved.  For valid options, when the
  service that received the generator's request has answered it and the generator, reading the
  bytes of that answer, counts a success, the ledger has a transfer under the generator's
  request ID with the amount of its options.
\<close>

theorem counted_success_is_committed:
  assumes "serves sdk s ops view linv env outside w0 ps w"
    and "validate c = None" "sendable c rid"
    and "route is_print (execute_wire c rid) = Routed r" "(r, Return resp) \<in> set ps"
    and "succeeded (execute is_print (Responded (WireResp_status (wire_response resp)) d None
           (WireResp_body (wire_response resp))))"
  shows "\<exists>i t. requestID sdk rid = Inr i \<and> view_transfers (view (w_ledger w)) i = Some t \<and>
    Transfer_Amount t = ToUint128 sdk (opt_amountCents c)"
proof -
  have r: "carries c rid r"
    using generator_request [OF assms(2,3), of is_print] assms(4) by auto
  have typed: "well_typed r resp"
    using serves_typed [OF assms(1,5)] .
  have "body_status (Http_body resp) \<in> {''posted'', ''approved''}"
    using succeeded_status [of is_print _ d "Http_body resp"] assms(6) operation_status_plain [OF typed]
      carries_operation(1) [OF r] by (auto simp: wire_response_def)
  from reported_executed [OF serves_post [OF assms(1,5)] typed this] show ?thesis
    using carries_operation [OF r] by (auto simp: executed_def)
qed

theorem counted_success_is_committed_witness:
  "\<exists>t. fake_transfers (w_ledger (snd (example_serve [example_topup 500]))) ''b1'' = Some t \<and>
     Transfer_Amount t = 500"
proof -
  obtain input where r: "route (\<lambda>_. True) (execute_wire example_load ''b1'') = Routed (PostTopUps input)"
      "decodeJSON input = Inr \<lparr>TopUp_RequestID = ''b1'', TopUp_AccountID = ''a0'', TopUp_AmountCents = 500\<rparr>"
    by (rule example_wire)
  let ?resp = "transaction_answer 200 ''b1'' ''posted'' ''created'' 1001 ([], [])"
  have "succeeded (execute (\<lambda>_. True) (Responded (WireResp_status (wire_response ?resp)) second None
      (WireResp_body (wire_response ?resp))))"
    by (simp add: wire_response_def transaction_answer_def writeJSON_def Let_def zeroResult_def read_response
        succeeded_def ToValidUTF8_ascii)
  from counted_success_is_committed [OF example_wire_serves [OF r(2)] example_load_valid r(1) _ this]
  show ?thesis by (auto simp: fake_view_def)
qed

text \<open>
  C18.  The generator and the service agree on the format: for valid options whose strings can be
  encoded, the bytes of the generator's request are routed to the handler of the operation and
  decoded to a request with the generator's ID, account or card, merchant and amount.
\<close>

theorem generated_request_understood:
  assumes "validate c = None" "sendable c rid"
  shows "\<exists>r. route is_print (execute_wire c rid) = Routed r \<and> carries c rid r"
  using generator_request [OF assms] .

theorem generated_request_understood_witness:
  "\<exists>r. route (\<lambda>_. True) (execute_wire example_load ''b1'') = Routed r \<and> carries example_load ''b1'' r"
  using generated_request_understood [OF example_load_valid] .

text \<open>
  C16.  Routing is the table of endpoints: every request is answered by the one endpoint the table has
  for the segments of its path when it uses the method of that endpoint (or \<open>HEAD\<close> for \<open>GET\<close>), is
  told the allowed methods when it uses another, is redirected when its path is not clean, and is
  not found otherwise.  No pattern shadows another.
\<close>

theorem route_exact:
  assumes "Wire_Method req \<noteq> ''CONNECT''"
  shows "route is_print req =
    (if cleanPath (Wire_EscapedPath req) \<noteq> Wire_EscapedPath req
     then Redirected (cleanPath (Wire_EscapedPath req))
     else case api_endpoint is_print req (path_segments (Wire_EscapedPath req)) of
       None \<Rightarrow> NotFound
     | Some (m, e) \<Rightarrow>
         if Wire_Method req = m \<or> m = ''GET'' \<and> Wire_Method req = ''HEAD'' then
           (case e of
              Operation r \<Rightarrow> Routed (if Wire_Method req = ''HEAD'' then head_request r else r)
            | Exposition \<Rightarrow> RoutedMetrics)
         else MethodNotAllowed (if m = ''GET'' then [''GET'', ''HEAD''] else [m]))"
  using assms by (rule route_table)

lemma example_path:
  "cleanPath ''/v1/accounts/a%30'' = ''/v1/accounts/a%30''"
  "path_segments ''/v1/accounts/a%30'' = [''v1'', ''accounts'', ''a0'']"
  by code_simp+

theorem route_exact_witness:
  "route (\<lambda>_. True) \<lparr>Wire_Method = ''GET'', Wire_EscapedPath = ''/v1/accounts/a%30'', Wire_ContentType = [],
     Wire_Body = [], Wire_BodyError = None\<rparr> = Routed (GetAccount ''a0'')"
  by (subst route_exact) (simp_all add: example_path)

text \<open>
  C17.  What \<open>decodeJSON\<close> accepts: a body of at most a megabyte that was read to its end, without a
  \<open>Content-Type\<close> or with the media type of JSON, holding one JSON value and nothing but white
  space after it; the value is \<open>null\<close> or an object whose members all name a field of the struct
  and have a value of the field's type.
\<close>

theorem accepted_request:
  assumes "decodeJSON (read_input is_print t x req) = Inr y"
  shows "length (Wire_Body req) \<le> maxRequestBytes \<and> Wire_BodyError req = None \<and>
    (Wire_ContentType req = [] \<or>
     (\<exists>m. ParseMediaType (Wire_ContentType req) = Some m \<and> EqualFold m ''application/json'')) \<and>
    (\<exists>v space. readValue (Wire_Body req) EOF = Inr (v, space) \<and> list_all isSpace space \<and>
      (is_null v \<and> y = x \<or>
       (\<exists>ms. v = JObject ms \<and>
         list_all (\<lambda>(key, value). \<exists>f. fieldByName (Struct_fields t) (unquote key) = Some f \<and> fits (snd (snd f)) value) ms)))"
proof (rule decodeJSON_Inr [OF assms])
  fix v space
  assume "length (Wire_Body req) \<le> maxRequestBytes" "Wire_BodyError req = None"
    "readValue (Wire_Body req) EOF = Inr (v, space)" "list_all isSpace space" "unmarshal True t v x = Inr y"
  moreover from this(5) have "is_null v \<and> y = x \<or> (\<exists>ms. v = JObject ms \<and>
      list_all (\<lambda>(key, value). \<exists>f. fieldByName (Struct_fields t) (unquote key) = Some f \<and> fits (snd (snd f)) value) ms)"
    by (auto simp: unmarshal_def list_all_iff split: Json.splits prod.splits option.splits if_splits
        dest: store_members_fits)
  moreover have "Wire_ContentType req = [] \<or>
      (\<exists>m. ParseMediaType (Wire_ContentType req) = Some m \<and> EqualFold m ''application/json'')"
    using assms by (auto simp: decodeJSON_def read_input_def split: if_splits option.splits prod.splits)
  ultimately show ?thesis by blast
qed

theorem accepted_request_witness:
  "\<exists>v space. readValue (Wire_Body (execute_wire example_load ''b1'')) EOF = Inr (v, space) \<and> list_all isSpace space"
  using accepted_request [OF example_decoded] by blast

end
