(* ===== verification/Go_Float.thy ===== *)
theory Go_Float
  imports Go_Json
begin

text \<open>
  How \<open>encoding/json\<close> writes a \<open>float64\<close>: \<open>strconv.AppendFloat\<close> with the shortest decimal that
  rounds back to the number, in the format \<open>f\<close> or, for very small and very large numbers, \<open>e\<close>.  The numbers are
  non-negative and of the normal range, as in \<^const>\<open>float64\<close>.  The text is shown to be a JSON number that reads back
  as the same \<open>float64\<close>.
\<close>

section \<open>Shortest decimals\<close>

definition power10 :: "int \<Rightarrow> rat" where
  "power10 e = (if 0 \<le> e then 10 ^ nat e else 1 / 10 ^ nat (- e))"

text \<open>The number of digits before the decimal point, which is zero or negative for small numbers.\<close>

definition decimal_exponent :: "rat \<Rightarrow> int" where
  "decimal_exponent x =
     (let (n, d) = quotient_of x; k = int (floorlog 10 (nat n)) - int (floorlog 10 (nat d))
      in if power10 k \<le> x then k + 1 else k)"

text \<open>
  With \<open>n\<close> digits: the nearest decimal when it rounds to the number, else the one on the other side,
  which may do so next to a power of two.  A decimal is an integer and a power of ten.
\<close>

definition round_to_digits :: "rat \<Rightarrow> nat \<Rightarrow> (int \<times> int) option" where
  "round_to_digits f n =
     (let k = decimal_exponent f - int n;
          q = f / power10 k;
          c = round_half_even q;
          c' = (if c = \<lfloor>q\<rfloor> then c + 1 else c - 1)
      in if float64 (of_int c * power10 k) = f then Some (c, k)
         else if float64 (of_int c' * power10 k) = f then Some (c', k)
         else None)"

text \<open>Seventeen digits are always enough (\<open>shortest_rounds\<close> below).\<close>

function shortest_from :: "rat \<Rightarrow> nat \<Rightarrow> int \<times> int" where
  "shortest_from f n =
     (if 17 \<le> n then (round_half_even (f / power10 (decimal_exponent f - 17)), decimal_exponent f - 17)
      else case round_to_digits f n of
        Some d \<Rightarrow> d
      | None \<Rightarrow> shortest_from f (Suc n))"
  by pat_completeness auto
termination
  by (relation "measure (\<lambda>(f, n). 17 - n)") auto

declare shortest_from.simps [simp del]

definition shortest :: "rat \<Rightarrow> int \<times> int" where
  "shortest f = shortest_from f 1"

section \<open>Formats\<close>

text \<open>The digits without trailing zeros, and the position of the decimal point among them.\<close>

definition decimal_digits :: "int \<times> int \<Rightarrow> string \<times> int" where
  "decimal_digits d =
     (let ds = show_nat (nat (fst d))
      in (rev (dropWhile (\<lambda>c. c = CHR ''0'') (rev ds)), int (length ds) + snd d))"

definition fmtF :: "string \<Rightarrow> int \<Rightarrow> string" where
  "fmtF ds dp =
     (if 0 < dp then take (nat dp) ds @ replicate (nat (dp - int (length ds))) CHR ''0'' else ''0'') @
     (if dp < int (length ds)
      then CHR ''.'' # replicate (nat (- dp)) CHR ''0'' @ drop (nat dp) ds else [])"

text \<open>Exponents of one digit lose the leading zero that \<open>strconv\<close> writes.\<close>

definition fmtE :: "string \<Rightarrow> int \<Rightarrow> string" where
  "fmtE ds dp =
     hd ds # (if 1 < length ds then CHR ''.'' # tl ds else []) @
     CHR ''e'' # (if dp - 1 < 0 then CHR ''-'' else CHR ''+'') # show_nat (nat \<bar>dp - 1\<bar>)"

definition encode_float :: "rat \<Rightarrow> string" where
  "encode_float f =
     (if f = 0 then ''0''
      else case decimal_digits (shortest f) of (ds, dp) \<Rightarrow>
        if f < float64 (1 / 10 ^ 6) \<or> 10 ^ 21 \<le> f then fmtE ds dp else fmtF ds dp)"

section \<open>Reading\<close>

text \<open>The exact value of a JSON number without a sign, and \<open>strconv.ParseFloat\<close>, which rounds it.\<close>

definition exponent_value :: "string \<Rightarrow> int" where
  "exponent_value ex =
     (case ex of
        [] \<Rightarrow> 0
      | c # ds \<Rightarrow>
          if c = CHR ''-'' then - read_digits 0 ds
          else if c = CHR ''+'' then read_digits 0 ds else read_digits 0 ex)"

definition number_value :: "string \<Rightarrow> rat" where
  "number_value s =
     (let mant = takeWhile (\<lambda>c. c \<noteq> CHR ''e'') s;
          ex = drop 1 (dropWhile (\<lambda>c. c \<noteq> CHR ''e'') s);
          ip = takeWhile (\<lambda>c. c \<noteq> CHR ''.'') mant;
          fp = drop 1 (dropWhile (\<lambda>c. c \<noteq> CHR ''.'') mant)
      in of_int (read_digits 0 (ip @ fp)) * power10 (exponent_value ex - int (length fp)))"

definition ParseFloat :: "string \<Rightarrow> rat" where
  "ParseFloat s = float64 (number_value s)"

section \<open>Powers of ten\<close>

lemma power10_int: "power10 e = power_int 10 e"
  by (simp add: power10_def power_int_def inverse_eq_divide power_one_over)

lemma power10_add: "power10 (a + b) = power10 a * power10 b"
  by (simp add: power10_int power_int_add)

lemma power10_pos [simp]: "0 < power10 e"
  by (simp add: power10_def)

lemma power10_nonzero [simp]: "power10 e \<noteq> 0"
  using power10_pos [of e] by linarith

lemma power10_diff: "power10 (a - b) = power10 a / power10 b"
  by (simp add: power10_int power_int_diff)

lemma power10_mono: "a \<le> b \<Longrightarrow> power10 a \<le> power10 b"
  by (simp add: power10_int power_int_increasing)

lemma decimal_exponent_bounds:
  assumes "0 < x"
  shows "power10 (decimal_exponent x - 1) \<le> x \<and> x < power10 (decimal_exponent x)"
proof -
  obtain n d where q: "quotient_of x = (n, d)" by fastforce
  have d: "0 < d" and x: "x = of_int n / of_int d"
    using q by (simp_all add: quotient_of_denom_pos quotient_of_div)
  with assms have n: "0 < n" by (simp add: zero_less_divide_iff)
  let ?l = "\<lambda>i. int (floorlog 10 (nat i))"
  have digits: "power10 (?l i - 1) \<le> of_int i \<and> of_int i < power10 (?l i)" if "0 < i" for i
  proof -
    have b: "10 ^ (floorlog 10 (nat i) - 1) \<le> nat i" "nat i < 10 ^ floorlog 10 (nat i)"
      using floorlog_bounds [of "nat i" 10] that by simp_all
    have "0 < floorlog 10 (nat i)"
      using that floorlog_eq_zero_iff [of 10 "nat i"] by simp
    then have e: "nat (?l i - 1) = floorlog 10 (nat i) - 1" "0 \<le> ?l i - 1" by simp_all
    have i: "rat_of_nat (nat i) = of_int i" using that by simp
    have "rat_of_nat (10 ^ (floorlog 10 (nat i) - 1)) \<le> rat_of_nat (nat i)"
        "rat_of_nat (nat i) < rat_of_nat (10 ^ floorlog 10 (nat i))"
      using b by (simp_all only: of_nat_le_iff of_nat_less_iff)
    with e show ?thesis
      by (simp add: power10_def i del: of_nat_nat)
  qed
  let ?k = "?l n - ?l d"
  have "x < power10 (?l n) / power10 (?l d - 1)"
    unfolding x using digits [OF n] digits [OF d] n by (intro frac_less) auto
  then have upper: "x < power10 (?k + 1)"
    by (simp flip: power10_diff) (simp add: algebra_simps)
  have "power10 (?l n - 1) / power10 (?l d) \<le> x"
    unfolding x using digits [OF n] digits [OF d] d n by (intro frac_le) auto
  then have lower: "power10 (?k - 1) \<le> x"
    by (simp flip: power10_diff) (simp add: algebra_simps)
  show ?thesis
    using upper lower by (auto simp: decimal_exponent_def q Let_def)
qed

section \<open>Rounding\<close>

lemma round_half_even_near: "\<bar>q - of_int m\<bar> < 1 / 2 \<Longrightarrow> round_half_even q = m"
proof -
  assume near: "\<bar>q - of_int m\<bar> < 1 / 2"
  then have "\<lfloor>q\<rfloor> = m \<or> \<lfloor>q\<rfloor> = m - 1"
    by (cases "of_int m \<le> q") (auto simp: floor_eq_iff abs_less_iff)
  with near show ?thesis
    by (auto simp: round_half_even_def Let_def abs_less_iff)
qed

lemma round_half_even_floor: "round_half_even q = \<lfloor>q\<rfloor> \<or> round_half_even q = \<lfloor>q\<rfloor> + 1"
  by (simp add: round_half_even_def Let_def)

lemma round_half_even_dist: "\<bar>of_int (round_half_even q) - q\<bar> \<le> 1 / 2"
proof -
  have "of_int \<lfloor>q\<rfloor> \<le> q" "q < of_int \<lfloor>q\<rfloor> + 1" by linarith+
  then show ?thesis by (auto simp: round_half_even_def Let_def abs_le_iff)
qed

lemma binary_exponent_eq:
  assumes "two_power e \<le> x" "x < two_power (e + 1)"
  shows "binary_exponent x = e"
proof -
  have "0 < x" using assms(1) two_power_pos [of e] by linarith
  from binary_exponent_bounds [OF this] assms
  have "two_power (binary_exponent x) < two_power (e + 1)" "two_power e < two_power (binary_exponent x + 1)"
    by linarith+
  then show ?thesis by (fastforce dest: two_power_less)
qed

lemma float64_near:
  assumes "two_power e \<le> x" "x < two_power (e + 1)" "\<bar>x - of_int m * two_power (e - 52)\<bar> < two_power (e - 52) / 2"
  shows "float64 x = of_int m * two_power (e - 52)"
proof -
  let ?u = "two_power (e - 52)"
  have "x \<noteq> 0" using assms(1) two_power_pos [of e] by linarith
  have "x / ?u - of_int m = (x - of_int m * ?u) / ?u"
    by (simp add: field_simps)
  then have "\<bar>x / ?u - of_int m\<bar> < 1 / 2"
    using assms(3) by (simp add: abs_divide pos_divide_less_eq)
  with \<open>x \<noteq> 0\<close> show ?thesis
    using round_half_even_near by (simp add: float64_def Let_def binary_exponent_eq [OF assms(1,2)])
qed

lemma float64_idem [simp]:
  assumes "0 \<le> x"
  shows "float64 (float64 x) = float64 x"
proof (cases "x = 0")
  case False
  with assms have x: "0 < x" by simp
  define e where "e = binary_exponent x"
  define m where "m = round_half_even (x / two_power (e - 52))"
  have y: "float64 x = of_int m * two_power (e - 52)"
    using False by (simp add: float64_def Let_def m_def e_def)
  show ?thesis
  proof (cases "float64 x < two_power (e + 1)")
    case True
    then show ?thesis
      using float64_near [of e "float64 x" m] float64_binade [OF x] y by (simp add: e_def)
  next
    case False
    then have top: "float64 x = two_power (e + 1)"
      using float64_binade [OF x] by (simp add: e_def)
    have "two_power (e + 1) = of_int (2 ^ 52) * two_power (e + 1 - 52)" "two_power (e + 1) < two_power (e + 1 + 1)"
      using two_power_add [of 52 "e + 1 - 52"] two_power_add [of 1 "e + 1"]
      by (simp_all add: two_power_def [of 52] two_power_def [of 1] add.commute)
    then show ?thesis
      using float64_near [of "e + 1" "two_power (e + 1)" "2 ^ 52"] by (simp add: top)
  qed
qed simp

lemma float64_nonneg: "0 \<le> x \<Longrightarrow> 0 \<le> float64 x"
  using float64_mono [of 0 x] by simp

text \<open>A number within \<open>5 \<sqdot> 10\<^sup>-\<^sup>1\<^sup>7\<close> of a \<open>float64\<close>, relative to it, rounds to it.\<close>

lemma float64_close:
  assumes f: "0 < f" "float64 f = f" and x: "\<bar>x - f\<bar> \<le> f / (2 * 10 ^ 16)"
  shows "float64 x = f"
proof -
  define b where "b = binary_exponent f"
  define u where "u = two_power (b - 52)"
  define m where "m = round_half_even (f / u)"
  have u: "0 < u" "two_power b = 2 ^ 52 * u" "two_power (b + 1) = 2 ^ 53 * u" "two_power (b - 1) = 2 ^ 51 * u"
      "two_power (b - 1 - 52) = u / 2"
    using two_power_add [of 52 "b - 52"] two_power_add [of 53 "b - 52"] two_power_add [of 51 "b - 52"]
      two_power_add [of "-1" "b - 52"]
    by (simp_all add: u_def two_power_def [of 52] two_power_def [of 53] two_power_def [of 51]
        two_power_def [of "-1"] add.commute [of 1])
  have fm: "f = of_int m * u"
    using f by (simp add: float64_def Let_def m_def u_def b_def)
  have bounds: "2 ^ 52 * u \<le> f" "f < 2 ^ 53 * u"
    using binary_exponent_bounds [OF f(1)] u by (simp_all add: b_def)
  have near: "\<bar>x - f\<bar> < u / 2"
    using x bounds(2) u(1) by (simp add: field_simps)
  then have sides: "x < f + u / 2" "f < x + u / 2"
    unfolding abs_less_iff by simp_all
  have m: "2 ^ 52 \<le> m" "m \<le> 2 ^ 53 - 1"
    using bounds u(1) unfolding fm by (simp_all add: mult_le_cancel_right_pos mult_less_cancel_right_pos)
  show ?thesis
  proof (cases "two_power b \<le> x")
    case True
    have "rat_of_int m \<le> of_int (2 ^ 53 - 1)"
      using m(2) by (simp only: of_int_le_iff)
    then have "f \<le> 9007199254740991 * u"
      unfolding fm using u(1) by simp
    with sides(1) have "x < two_power (b + 1)"
      using u(1) unfolding u(3) by simp
    from float64_near [OF True this, of m] near show ?thesis
      by (simp add: fm flip: u_def)
  next
    case False
    with sides(2) have "f < (2 ^ 52 + 1) * u"
      using u(1) unfolding u(2) by (simp add: algebra_simps)
    then have "m = 2 ^ 52"
      unfolding fm using m(1) u(1) by simp
    then have f_eq: "f = 2 ^ 52 * u" using fm by simp
    then have close: "\<bar>x - f\<bar> < u / 4"
      using x u(1) by (simp add: field_simps)
    then have "two_power (b - 1) \<le> x"
      using u(1) unfolding u(4) f_eq abs_less_iff by simp
    moreover have "x < two_power (b - 1 + 1)" using False by simp
    moreover have "\<bar>x - of_int (2 ^ 53) * two_power (b - 1 - 52)\<bar> < two_power (b - 1 - 52) / 2"
      using close unfolding u(5) f_eq by simp
    ultimately have "float64 x = of_int (2 ^ 53) * two_power (b - 1 - 52)"
      by (rule float64_near)
    then show ?thesis using u(5) f_eq by simp
  qed
qed

section \<open>The shortest decimal\<close>

text \<open>The scaled number has the digits asked for before its decimal point.\<close>

lemma scaled_bounds:
  assumes "0 < f" "1 \<le> n"
  shows "10 ^ (n - 1) \<le> f / power10 (decimal_exponent f - int n)" "1 \<le> \<lfloor>f / power10 (decimal_exponent f - int n)\<rfloor>"
proof -
  let ?e = "decimal_exponent f"
  have "power10 (int (n - 1)) * power10 (?e - int n) = power10 (?e - 1)"
    using assms(2) by (simp flip: power10_add)
  moreover have "power10 (int (n - 1)) = 10 ^ (n - 1)" by (simp add: power10_def)
  ultimately show le: "10 ^ (n - 1) \<le> f / power10 (?e - int n)"
    using decimal_exponent_bounds [OF assms(1)] by (simp add: pos_le_divide_eq)
  have "(1 :: rat) \<le> 10 ^ (n - 1)" by (rule one_le_power) simp
  with le have "1 \<le> f / power10 (?e - int n)" by linarith
  then show "1 \<le> \<lfloor>f / power10 (?e - int n)\<rfloor>" by (simp add: le_floor_iff)
qed

lemma round_to_digits_Some:
  assumes "round_to_digits f n = Some (c, k)" "0 < f" "1 \<le> n"
  shows "0 < c" "float64 (of_int c * power10 k) = f" "k = decimal_exponent f - int n"
proof -
  show "0 < c"
  proof -
    let ?q = "f / power10 (decimal_exponent f - int n)"
    have "\<lfloor>?q\<rfloor> \<le> c"
      using assms(1) round_half_even_floor [of ?q] by (auto simp: round_to_digits_def Let_def split: if_splits)
    with scaled_bounds(2) [OF assms(2,3)] show ?thesis by linarith
  qed
  show "float64 (of_int c * power10 k) = f" "k = decimal_exponent f - int n"
    using assms(1) by (auto simp: round_to_digits_def Let_def split: if_splits)
qed

lemma shortest_from_rounds:
  assumes f: "0 < f" "float64 f = f" and "1 \<le> n"
  shows "0 < fst (shortest_from f n) \<and> float64 (of_int (fst (shortest_from f n)) * power10 (snd (shortest_from f n))) = f"
  using assms
proof (induction f n rule: shortest_from.induct)
  case (1 f n)
  note f = 1(2,3)
  show ?case
  proof (cases "17 \<le> n")
    case True
    let ?u = "power10 (decimal_exponent f - 17)"
    let ?c = "round_half_even (f / ?u)"
    have "of_int ?c * ?u - f = (of_int ?c - f / ?u) * ?u"
      by (simp add: field_simps)
    then have "\<bar>of_int ?c * ?u - f\<bar> = \<bar>of_int ?c - f / ?u\<bar> * ?u"
      by (simp only: abs_mult abs_of_pos power10_pos)
    also have "\<dots> \<le> 1 / 2 * ?u"
      by (intro mult_right_mono round_half_even_dist) (simp add: less_imp_le)
    also have "\<dots> \<le> f / (2 * 10 ^ 16)"
      using scaled_bounds(1) [OF f(1), of 17] by (simp add: pos_le_divide_eq)
    finally have "float64 (of_int ?c * ?u) = f"
      using float64_close [OF f] by blast
    moreover have "1 \<le> \<lfloor>f / ?u\<rfloor>" using scaled_bounds(2) [OF f(1), of 17] by simp
    then have "0 < ?c" using round_half_even_floor [of "f / ?u"] by linarith
    ultimately show ?thesis
      using True by (subst (1 2 3) shortest_from.simps) simp
  next
    case False
    with 1 show ?thesis
      using round_to_digits_Some [OF _ f(1), of n]
      by (subst (1 2 3) shortest_from.simps) (auto split: option.split)
  qed
qed

text \<open>No decimal with fewer digits rounds to the number.\<close>

lemma round_to_digits_complete:
  assumes f: "0 < f" "float64 f = f" and n: "1 \<le> n"
    and d: "float64 (of_int c * power10 k) = f" "0 < c" "c < 10 ^ n"
  shows "round_to_digits f n \<noteq> None"
proof -
  let ?u = "power10 (decimal_exponent f - int n)"
  let ?q = "f / ?u" and ?d = "of_int c * power10 k :: rat"
  have q: "of_int \<lfloor>?q\<rfloor> * ?u \<le> f" "f \<le> of_int (\<lfloor>?q\<rfloor> + 1) * ?u"
    using pos_le_divide_eq [OF power10_pos, THEN iffD1, OF of_int_floor_le] floor_correct [of ?q]
    by (simp_all only: pos_divide_less_eq power10_pos less_imp_le)
  have d_pos: "0 \<le> ?d" using d(2) by (simp add: less_imp_le)
  have "?d \<le> of_int \<lfloor>?q\<rfloor> * ?u \<or> of_int (\<lfloor>?q\<rfloor> + 1) * ?u \<le> ?d"
  proof (cases "decimal_exponent f - int n \<le> k")
    case True
    define m where "m = c * 10 ^ nat (k - (decimal_exponent f - int n))"
    have "power10 k = power10 (k - (decimal_exponent f - int n)) * ?u"
      by (simp flip: power10_add)
    with True have m: "?d = of_int m * ?u"
      by (simp add: m_def power10_def [of "k - _"])
    have "m \<le> \<lfloor>?q\<rfloor> \<or> \<lfloor>?q\<rfloor> + 1 \<le> m" by linarith
    then show ?thesis
      unfolding m by (auto simp: mult_le_cancel_right_pos simp del: of_int_add)
  next
    case False
    have "of_int c < (of_int (10 ^ n) :: rat)" using d(3) by (simp only: of_int_less_iff)
    then have "?d \<le> power10 (int n) * power10 k"
      by (simp add: power10_def [of "int n"])
    also have "\<dots> \<le> power10 (decimal_exponent f - 1)"
      using False by (simp flip: power10_add add: power10_mono)
    also have "\<dots> = 10 ^ (n - 1) * ?u"
      using n power10_add [of "int (n - 1)" "decimal_exponent f - int n"] by (simp add: power10_def [of "int _ - 1"] power10_def [of "int _"])
    also have "\<dots> \<le> of_int \<lfloor>?q\<rfloor> * ?u"
      using scaled_bounds(1) [OF f(1) n] by (simp add: le_floor_iff)
    finally show ?thesis by simp
  qed
  then have "float64 (of_int \<lfloor>?q\<rfloor> * ?u) = f \<or> float64 (of_int (\<lfloor>?q\<rfloor> + 1) * ?u) = f"
  proof
    assume "?d \<le> of_int \<lfloor>?q\<rfloor> * ?u"
    from float64_mono [OF d_pos this] float64_mono [OF order_trans [OF d_pos this] q(1)] f(2) d(1) show ?thesis
      by simp
  next
    assume "of_int (\<lfloor>?q\<rfloor> + 1) * ?u \<le> ?d"
    from float64_mono [OF order_trans [OF less_imp_le [OF f(1)] q(2)] this]
      float64_mono [OF less_imp_le [OF f(1)] q(2)] f(2) d(1) show ?thesis
      by simp
  qed
  then show ?thesis
    using round_half_even_floor [of ?q] by (auto simp: round_to_digits_def Let_def)
qed

lemma scaled_less: "0 < f \<Longrightarrow> \<lfloor>f / power10 (decimal_exponent f - int n)\<rfloor> < 10 ^ n"
proof -
  assume f: "0 < f"
  have "power10 (decimal_exponent f) = power10 (int n) * power10 (decimal_exponent f - int n)"
    by (simp flip: power10_add)
  then have "f / power10 (decimal_exponent f - int n) < of_int (10 ^ n)"
    using decimal_exponent_bounds [OF f] by (simp add: pos_divide_less_eq power10_def [of "int n"])
  then show ?thesis by (simp only: floor_less_iff)
qed

lemma round_to_digits_le: "round_to_digits f n = Some (c, k) \<Longrightarrow> 0 < f \<Longrightarrow> c \<le> 10 ^ n"
  using round_half_even_floor [of "f / power10 (decimal_exponent f - int n)"] scaled_less [of f n]
  by (auto simp: round_to_digits_def Let_def split: if_splits)

lemma shortest_from_le:
  assumes "0 < f" "n < 17 \<longrightarrow> round_to_digits f n \<noteq> None" "i \<le> n" "n \<le> 17"
  shows "fst (shortest_from f i) \<le> 10 ^ n"
  using assms
proof (induction f i rule: shortest_from.induct)
  case (1 f i)
  show ?case
  proof (cases "17 \<le> i")
    case True
    with 1(4,5) have n: "n = 17" by simp
    have "round_half_even (f / power10 (decimal_exponent f - 17)) \<le> 10 ^ 17"
      using round_half_even_floor [of "f / power10 (decimal_exponent f - 17)"] scaled_less [OF 1(2), of 17] by auto
    with True n show ?thesis by (subst shortest_from.simps) simp
  next
    case False
    show ?thesis
    proof (cases "round_to_digits f i")
      case None
      with 1 False have "i \<noteq> n" by auto
      with None 1 False show ?thesis by (subst shortest_from.simps) simp
    next
      case (Some d)
      have "fst d \<le> 10 ^ i" using round_to_digits_le [of f i "fst d" "snd d"] Some 1(2) by simp
      also have "\<dots> \<le> 10 ^ n" using 1(4) by (simp add: power_increasing)
      finally show ?thesis
        using Some False by (subst shortest_from.simps) simp
    qed
  qed
qed

lemma length_show_nat: "1 \<le> n \<Longrightarrow> i < 10 ^ n \<Longrightarrow> length (show_nat i) \<le> n"
proof (induction n arbitrary: i rule: nat_induct_at_least)
  case (Suc n)
  show ?case
  proof (cases "i < 10")
    case True
    then show ?thesis by (subst show_nat.simps) simp
  next
    case False
    have "i div 10 < 10 ^ n" using Suc.prems by (simp add: less_mult_imp_div_less mult.commute)
    with False Suc.IH show ?thesis by (subst show_nat.simps) simp
  qed
qed (subst show_nat.simps, simp)

lemma show_nat_power10: "show_nat (10 ^ n) = CHR ''1'' # replicate n CHR ''0''"
proof (induction n)
  case 0
  show ?case by code_simp
next
  case (Suc n)
  have "char_of (48 :: nat) = CHR ''0''" by code_simp
  then have "show_nat (10 ^ Suc n) = show_nat (10 ^ n) @ [CHR ''0'']"
    by (subst show_nat.simps) simp
  with Suc show ?case by (simp flip: replicate_append_same)
qed

text \<open>
  The printed digits are as few as possible: no decimal with fewer digits, however scaled, rounds to
  the same number.
\<close>

lemma shortest_least:
  assumes "0 < f" "float64 f = f" "float64 (of_int c * power10 k) = f" "0 < c" "c < 10 ^ n"
  shows "length (fst (decimal_digits (shortest f))) \<le> n"
proof -
  have n: "1 \<le> n" using assms(4,5) by (cases n) auto
  define m where "m = min n 17"
  have m: "1 \<le> m" "m \<le> 17" "m \<le> n" "m < 17 \<longrightarrow> round_to_digits f m \<noteq> None"
    using n round_to_digits_complete [OF assms(1,2) _ assms(3,4), of m] assms(5) by (auto simp: m_def)
  obtain i where i: "nat (fst (shortest f)) = i" by simp
  have "fst (shortest f) \<le> 10 ^ m"
    unfolding shortest_def using shortest_from_le [OF assms(1) m(4,1,2)] .
  then have "nat (fst (shortest f)) \<le> nat (10 ^ m)" by (rule nat_mono)
  then have "i \<le> 10 ^ m" using i by (simp add: nat_power_eq)
  then consider "i < 10 ^ m" | "i = 10 ^ m" by linarith
  then have "length (rev (dropWhile (\<lambda>c. c = CHR ''0'') (rev (show_nat i)))) \<le> m"
  proof cases
    case 1
    then show ?thesis
      using length_dropWhile_le [of "\<lambda>c. c = CHR ''0''" "rev (show_nat i)"] length_show_nat [OF m(1)] by fastforce
  next
    case 2
    then show ?thesis
      using m(1) by (simp add: show_nat_power10 dropWhile_append)
  qed
  with m(3) show ?thesis by (simp add: decimal_digits_def Let_def i)
qed

section \<open>The value of the text\<close>

text \<open>The parts of a number: integer digits, fraction and exponent.\<close>

definition fraction :: "string \<Rightarrow> string" where
  "fraction fp = (if fp = [] then [] else CHR ''.'' # fp)"

lemma takeWhile_digits:
  assumes "list_all is_digit ds" "\<not> is_digit c"
  shows "takeWhile (\<lambda>d. d \<noteq> c) (ds @ t) = ds @ takeWhile (\<lambda>d. d \<noteq> c) t"
    "dropWhile (\<lambda>d. d \<noteq> c) (ds @ t) = dropWhile (\<lambda>d. d \<noteq> c) t"
    "takeWhile (\<lambda>d. d \<noteq> c) ds = ds" "dropWhile (\<lambda>d. d \<noteq> c) ds = []"
  using assms by (induction ds) auto

lemma exponent_value_Nil [simp]: "exponent_value [] = 0"
  by (simp add: exponent_value_def)

lemma number_value_parts:
  assumes "list_all is_digit ip" "list_all is_digit fp"
  shows "number_value (ip @ fraction fp) = of_int (read_digits 0 (ip @ fp)) * power10 (- int (length fp))"
    "number_value (ip @ fraction fp @ CHR ''e'' # ex) =
       of_int (read_digits 0 (ip @ fp)) * power10 (exponent_value ex - int (length fp))"
proof -
  have e: "\<not> is_digit CHR ''e''" "\<not> is_digit CHR ''.''" by code_simp+
  note digits = takeWhile_digits [OF assms(1) e(1)] takeWhile_digits [OF assms(1) e(2)]
    takeWhile_digits [OF assms(2) e(1)]
  show "number_value (ip @ fraction fp) = of_int (read_digits 0 (ip @ fp)) * power10 (- int (length fp))"
    "number_value (ip @ fraction fp @ CHR ''e'' # ex) =
       of_int (read_digits 0 (ip @ fp)) * power10 (exponent_value ex - int (length fp))"
    by (simp_all add: number_value_def Let_def fraction_def digits)
qed

lemma zeros_digits [simp]: "list_all is_digit (replicate n CHR ''0'')"
proof -
  have "is_digit CHR ''0''" by code_simp
  then show ?thesis by (induction n) simp_all
qed

lemma read_zeros [simp]: "read_digits x (replicate n CHR ''0'') = x * 10 ^ n"
  by (induction n arbitrary: x) (simp_all add: digit_value_def)

definition good_digits :: "string \<Rightarrow> bool" where
  "good_digits ds \<longleftrightarrow> ds \<noteq> [] \<and> list_all is_digit ds \<and> hd ds \<noteq> CHR ''0''"

lemma decimal_digits_good:
  assumes "0 < fst d" "decimal_digits d = (ds, dp)"
  shows "good_digits ds" "of_int (read_digits 0 ds) * power10 (dp - int (length ds)) = of_int (fst d) * power10 (snd d)"
proof -
  let ?s = "show_nat (nat (fst d))" and ?z = "\<lambda>c. c = CHR ''0''"
  define n where "n = length (takeWhile ?z (rev ?s))"
  have ds: "ds = rev (dropWhile ?z (rev ?s))" "dp = int (length ?s) + snd d"
    using assms(2) by (simp_all add: decimal_digits_def Let_def)
  have "takeWhile ?z (rev ?s) = replicate n CHR ''0''"
    unfolding n_def by (rule replicate_length_same [symmetric]) (auto dest: set_takeWhileD)
  then have "rev ?s = replicate n CHR ''0'' @ rev ds"
    using takeWhile_dropWhile_id [of ?z "rev ?s"] ds by simp
  then have s: "?s = ds @ replicate n CHR ''0''"
    by (metis rev_append rev_replicate rev_rev_ident)
  have "hd ?s \<noteq> CHR ''0''" using show_nat_head [of "nat (fst d)"] assms(1) by simp
  moreover from this have "ds \<noteq> []"
    using s show_nat_nonempty [of "nat (fst d)"] by (cases n) auto
  ultimately show "good_digits ds"
    using s show_nat_digits [of "nat (fst d)"] by (simp add: good_digits_def)
  have "fst d = read_digits 0 ?s"
    using show_nat_digits [of "nat (fst d)"] assms(1) by simp
  also have "\<dots> = read_digits 0 ds * 10 ^ n" unfolding s by simp
  finally have "of_int (fst d) = of_int (read_digits 0 ds) * power10 (int n)"
    by (simp add: power10_def)
  moreover have "dp - int (length ds) = int n + snd d" unfolding ds(2) s by simp
  ultimately show "of_int (read_digits 0 ds) * power10 (dp - int (length ds)) = of_int (fst d) * power10 (snd d)"
    by (simp add: power10_add)
qed

text \<open>The two formats, by parts.\<close>

lemma fmtF_parts:
  assumes "good_digits ds"
  obtains ip fp where "fmtF ds dp = ip @ fraction fp" "list_all is_digit ip" "list_all is_digit fp"
    "ip = ''0'' \<or> good_digits ip"
    "of_int (read_digits 0 (ip @ fp)) * power10 (- int (length fp)) =
       of_int (read_digits 0 ds) * power10 (dp - int (length ds))"
proof (cases "0 < dp")
  case True
  let ?n = "nat (dp - int (length ds))"
  define ip where "ip = take (nat dp) ds @ replicate ?n CHR ''0''"
  define fp where "fp = drop (nat dp) ds"
  have "list_all is_digit (take (nat dp) ds)" "list_all is_digit fp"
    using assms by (auto simp: good_digits_def fp_def list_all_iff dest: in_set_takeD in_set_dropD)
  moreover from this have "list_all is_digit ip" by (simp add: ip_def)
  moreover from this have "good_digits ip"
    using True assms by (cases ds; cases "nat dp") (auto simp: good_digits_def ip_def)
  moreover have "fmtF ds dp = ip @ fraction fp"
    using True by (auto simp: fmtF_def ip_def fp_def fraction_def)
  moreover have "of_int (read_digits 0 (ip @ fp)) * power10 (- int (length fp)) =
      of_int (read_digits 0 ds) * power10 (dp - int (length ds))"
  proof (cases "dp < int (length ds)")
    case True
    then have "ip @ fp = ds" "- int (length fp) = dp - int (length ds)"
      using \<open>0 < dp\<close> by (simp_all add: ip_def fp_def)
    then show ?thesis by simp
  next
    case False
    then show ?thesis by (simp add: ip_def fp_def power10_def)
  qed
  ultimately show ?thesis using that by blast
next
  case False
  have zero: "is_digit CHR ''0''" by code_simp
  let ?fp = "replicate (nat (- dp)) CHR ''0'' @ ds"
  have "0 < int (length ds)" using assms by (simp add: good_digits_def)
  with False have "dp < int (length ds)" by linarith
  then have "fmtF ds dp = ''0'' @ fraction ?fp"
    using False assms by (auto simp: fmtF_def fraction_def good_digits_def)
  moreover have "list_all is_digit ?fp" using assms by (simp add: good_digits_def)
  moreover have "- int (length ?fp) = dp - int (length ds)" using False by simp
  ultimately show ?thesis
    using zero that [of "''0''" ?fp] by (simp add: digit_value_def)
qed

lemma fmtE_parts:
  assumes "good_digits ds"
  obtains ip fp where "fmtE ds dp = ip @ fraction fp @ CHR ''e'' # (if dp - 1 < 0 then CHR ''-'' else CHR ''+'') # show_nat (nat \<bar>dp - 1\<bar>)"
    "list_all is_digit ip" "list_all is_digit fp" "good_digits ip" "ip @ fp = ds" "length fp = length ds - 1"
proof -
  obtain c cs where ds: "ds = c # cs" using assms by (cases ds) (auto simp: good_digits_def)
  then show ?thesis
    using assms that [of "[c]" cs] by (cases cs) (auto simp: fmtE_def fraction_def good_digits_def)
qed

lemma number_value_fmtF:
  "good_digits ds \<Longrightarrow> number_value (fmtF ds dp) = of_int (read_digits 0 ds) * power10 (dp - int (length ds))"
  by (elim fmtF_parts [of ds dp]) (simp add: number_value_parts)

lemma number_value_fmtE:
  assumes "good_digits ds"
  shows "number_value (fmtE ds dp) = of_int (read_digits 0 ds) * power10 (dp - int (length ds))"
proof (rule fmtE_parts [OF assms, of dp])
  fix ip fp
  let ?ex = "(if dp - 1 < 0 then CHR ''-'' else CHR ''+'') # show_nat (nat \<bar>dp - 1\<bar>)"
  assume parts: "fmtE ds dp = ip @ fraction fp @ CHR ''e'' # ?ex"
    "list_all is_digit ip" "list_all is_digit fp" "ip @ fp = ds" "length fp = length ds - 1"
  have "exponent_value ?ex = dp - 1"
    using show_nat_digits [of "nat \<bar>dp - 1\<bar>"] by (auto simp: exponent_value_def)
  moreover have "0 < length ds" using assms by (simp add: good_digits_def)
  ultimately have "exponent_value ?ex - int (length fp) = dp - int (length ds)"
    using parts(5) by linarith
  then show ?thesis
    unfolding parts(1) using number_value_parts(2) [OF parts(2,3), of ?ex] parts(4) by simp
qed

lemma encode_float_value:
  assumes "0 < f" "float64 f = f"
  shows "\<exists>ds dp. good_digits ds \<and> (encode_float f = fmtF ds dp \<or> encode_float f = fmtE ds dp) \<and>
    float64 (of_int (read_digits 0 ds) * power10 (dp - int (length ds))) = f"
proof -
  obtain ds dp where d: "decimal_digits (shortest f) = (ds, dp)" by fastforce
  have "0 < fst (shortest f)" "float64 (of_int (fst (shortest f)) * power10 (snd (shortest f))) = f"
    using shortest_from_rounds [OF assms, of 1] by (simp_all add: shortest_def)
  with decimal_digits_good [OF _ d] have "good_digits ds \<and> float64 (of_int (read_digits 0 ds) * power10 (dp - int (length ds))) = f"
    by simp
  with d assms(1) show ?thesis by (auto simp: encode_float_def)
qed

lemma ParseFloat_encode:
  assumes "0 \<le> f" "float64 f = f"
  shows "ParseFloat (encode_float f) = f"
proof (cases "f = 0")
  case True
  then show ?thesis by (simp add: encode_float_def ParseFloat_def number_value_def digit_value_def)
next
  case False
  with assms encode_float_value [of f] show ?thesis
    by (auto simp: ParseFloat_def number_value_fmtF number_value_fmtE)
qed

section \<open>The scanner reads the text\<close>

definition is_number :: "string \<Rightarrow> bool" where
  "is_number s \<longleftrightarrow> (\<forall>stack v c t. delimiter c \<longrightarrow>
     scan_bytes (Scanner BeginValue stack [] v) (s @ c # t) =
     scan_bytes (Scanner EndValue stack [] (JLiteral s)) (c # t))"

lemma scan_fraction_digits:
  "list_all is_digit ds \<Longrightarrow>
   scan_bytes (Scanner DotDigits stack lit v) (ds @ t) = scan_bytes (Scanner DotDigits stack (rev ds @ lit) v) t"
  "list_all is_digit ds \<Longrightarrow>
   scan_bytes (Scanner ExpDigits stack lit v) (ds @ t) = scan_bytes (Scanner ExpDigits stack (rev ds @ lit) v) t"
  by (induction ds arbitrary: lit) (simp_all add: stateNumber_def)

lemma fraction_delimiter:
  "delimiter c \<Longrightarrow> stateNumber DotDigits stack lit v c = stateEndValue stack (JLiteral (rev lit)) c"
  "delimiter c \<Longrightarrow> scan_step (Scanner ExpDigits stack lit v) c = stateEndValue stack (JLiteral (rev lit)) c"
  by (auto simp: delimiter_def stateNumber_def endNumber_def is_digit_def isSpace_def)

text \<open>The state after the integer digits.\<close>

lemma scan_integer:
  assumes "ip = ''0'' \<or> good_digits ip"
  shows "\<exists>st. (st = Digits \<or> st = Zero) \<and> (\<forall>stack v t.
    scan_bytes (Scanner BeginValue stack [] v) (ip @ t) = scan_bytes (Scanner st stack (rev ip) v) t)"
proof (cases "ip = ''0''")
  case True
  then show ?thesis by (intro exI [of _ Zero]) (simp add: stateBeginValue_def isSpace_def)
next
  case False
  with assms obtain c ds where "ip = c # ds" "is_digit c" "c \<noteq> CHR ''0''" "list_all is_digit ds"
    by (cases ip) (auto simp: good_digits_def)
  then show ?thesis
    by (intro exI [of _ Digits]) (simp add: stateBeginValue_def is_digit_distinct scan_digits)
qed

lemma is_number_parts:
  assumes "ip = ''0'' \<or> good_digits ip" "list_all is_digit fp"
  shows "is_number (ip @ fraction fp)"
    "sign = CHR ''-'' \<or> sign = CHR ''+'' \<Longrightarrow> is_number (ip @ fraction fp @ CHR ''e'' # sign # show_nat n)"
proof -
  obtain st where st: "st = Digits \<or> st = Zero"
    "\<And>stack v t. scan_bytes (Scanner BeginValue stack [] v) (ip @ t) = scan_bytes (Scanner st stack (rev ip) v) t"
    using scan_integer [OF assms(1)] by blast
  have frac: "scan_bytes (Scanner st stack (rev ip) v) (fraction fp @ t) =
      scan_bytes (Scanner (if fp = [] then st else DotDigits) stack (rev (ip @ fraction fp)) v) t" for stack v t
    using assms(2) st(1) by (cases fp) (auto simp: fraction_def stateNumber_def scan_fraction_digits is_digit_def)
  have ends: "scan_bytes (Scanner (if fp = [] then st else DotDigits) stack lit v) (c # t) =
      scan_bytes (Scanner EndValue stack [] (JLiteral (rev lit))) (c # t)" if "delimiter c" for stack lit v c t
    using st(1) that by (auto simp: number_delimiter fraction_delimiter)
  have ex: "scan_bytes (Scanner (if fp = [] then st else DotDigits) stack lit v) (CHR ''e'' # sign # show_nat n @ c # t) =
      scan_bytes (Scanner EndValue stack [] (JLiteral (rev lit @ CHR ''e'' # sign # show_nat n))) (c # t)"
    if "delimiter c" "sign = CHR ''-'' \<or> sign = CHR ''+''" for stack lit v c t
  proof -
    obtain d ds where n: "show_nat n = d # ds" by (cases "show_nat n") auto
    with show_nat_digits [of n] have digits: "is_digit d" "list_all is_digit ds" by simp_all
    have "stateNumber (if fp = [] then st else DotDigits) stack lit v (CHR ''e'') =
        Continue (Scanner Exp stack (CHR ''e'' # lit) v)"
      using st(1) by (auto simp: stateNumber_def is_digit_def)
    then have "scan_bytes (Scanner (if fp = [] then st else DotDigits) stack lit v) (CHR ''e'' # u) =
        scan_bytes (Scanner Exp stack (CHR ''e'' # lit) v) u" for u
      using st(1) by auto
    with digits that show ?thesis
      by (auto simp: n stateESign_def scan_fraction_digits fraction_delimiter simp del: scan_step.simps(16))
  qed
  show "is_number (ip @ fraction fp)"
    using ends by (simp add: is_number_def st(2) frac)
  show "is_number (ip @ fraction fp @ CHR ''e'' # sign # show_nat n)" if "sign = CHR ''-'' \<or> sign = CHR ''+''"
    using ex that by (simp add: is_number_def st(2) frac)
qed

lemma is_number_encode:
  assumes "0 \<le> f" "float64 f = f"
  shows "is_number (encode_float f)"
proof (cases "f = 0")
  case True
  then show ?thesis
    using is_number_parts(1) [of "''0''" "[]"] by (simp add: encode_float_def fraction_def)
next
  case False
  with assms obtain ds dp where "good_digits ds" "encode_float f = fmtF ds dp \<or> encode_float f = fmtE ds dp"
    using encode_float_value [of f] by auto
  then show ?thesis
  proof (elim disjE)
    assume "good_digits ds" "encode_float f = fmtF ds dp"
    then show ?thesis by (elim fmtF_parts [of ds dp]) (simp add: is_number_parts)
  next
    assume "good_digits ds" "encode_float f = fmtE ds dp"
    then show ?thesis by (elim fmtE_parts [of ds dp]) (simp add: is_number_parts(2) [of _ _ "if _ then _ else _"])
  qed
qed

lemma encode_float_head:
  assumes "0 \<le> f" "float64 f = f"
  obtains c s where "encode_float f = c # s" "is_digit c"
proof (cases "f = 0")
  case True
  have "is_digit CHR ''0''" by code_simp
  with True that show ?thesis by (simp add: encode_float_def)
next
  case False
  with assms obtain ds dp where ds: "good_digits ds" "encode_float f = fmtF ds dp \<or> encode_float f = fmtE ds dp"
    using encode_float_value [of f] by auto
  have head: "\<exists>c s. ip @ t = c # s \<and> is_digit c" if "ip = ''0'' \<or> good_digits ip" "list_all is_digit ip" for ip t
    using that by (cases ip) (auto simp: good_digits_def)
  have "\<exists>c s. encode_float f = c # s \<and> is_digit c"
    using ds(2)
  proof
    assume "encode_float f = fmtF ds dp"
    then show ?thesis using fmtF_parts [OF ds(1), of dp] head by metis
  next
    assume "encode_float f = fmtE ds dp"
    then show ?thesis using fmtE_parts [OF ds(1), of dp] head by metis
  qed
  then show ?thesis using that by blast
qed

end
