(* ===== verification/Load_Report.thy ===== *)
theory Load_Report
  imports Load_Test Go_Float
begin

text \<open>
  The output of \<open>cmd/loadtest\<close>: the reports as an indented JSON document, the messages on standard
  error and the exit status.  The document is shown to be one JSON value that a reader finds every
  figure in, exactly.
\<close>

section \<open>Indented documents\<close>

text \<open>\<open>json.Encoder\<close> with \<open>SetIndent("", "  ")\<close>; empty objects and arrays are not broken.\<close>

datatype Doc =
    DocValue Value
  | DocFloat rat
  | DocArray "Doc list"
  | DocObject "(string \<times> Doc) list"

definition newline :: "nat \<Rightarrow> string" where
  "newline depth = CHR 0x0A # replicate (2 * depth) (CHR '' '')"

fun print_doc :: "nat \<Rightarrow> Doc \<Rightarrow> string"
  and print_items :: "nat \<Rightarrow> Doc list \<Rightarrow> string"
  and print_members :: "nat \<Rightarrow> (string \<times> Doc) list \<Rightarrow> string" where
  "print_doc depth (DocValue v) = encode_value v"
| "print_doc depth (DocFloat f) = encode_float f"
| "print_doc depth (DocArray vs) =
     (if vs = [] then ''[]''
      else CHR ''['' # newline (Suc depth) @ print_items (Suc depth) vs @ newline depth @ '']'')"
| "print_doc depth (DocObject ms) =
     (if ms = [] then ''{}''
      else CHR ''{'' # newline (Suc depth) @ print_members (Suc depth) ms @ newline depth @ ''}'')"
| "print_items depth [] = []"
| "print_items depth (v # vs) =
     print_doc depth v @ (if vs = [] then [] else CHR '','' # newline depth @ print_items depth vs)"
| "print_members depth [] = []"
| "print_members depth ((key, v) # ms) =
     appendString key @ CHR '':'' # CHR '' '' # print_doc depth v @
     (if ms = [] then [] else CHR '','' # newline depth @ print_members depth ms)"

text \<open>The tree of a document.\<close>

fun doc_tree :: "Doc \<Rightarrow> Json" where
  "doc_tree (DocValue v) = JLiteral (encode_value v)"
| "doc_tree (DocFloat f) = JLiteral (encode_float f)"
| "doc_tree (DocArray vs) = JArray (map doc_tree vs)"
| "doc_tree (DocObject ms) = JObject (map (\<lambda>(key, v). (appendString key, doc_tree v)) ms)"

text \<open>The numbers of a document are \<open>float64\<close> numbers and it is nested at most \<open>n\<close> times.\<close>

fun doc_ok :: "nat \<Rightarrow> Doc \<Rightarrow> bool" where
  "doc_ok n (DocValue v) = True"
| "doc_ok n (DocFloat f) \<longleftrightarrow> 0 \<le> f \<and> float64 f = f"
| "doc_ok 0 (DocArray vs) = False"
| "doc_ok (Suc n) (DocArray vs) = list_all (doc_ok n) vs"
| "doc_ok 0 (DocObject ms) = False"
| "doc_ok (Suc n) (DocObject ms) = list_all (\<lambda>(_, v). doc_ok n v) ms"

section \<open>The scanner reads a document\<close>

lemma newline_spaces: "list_all isSpace (newline depth)"
  by (simp add: newline_def isSpace_def list_all_iff)

lemma scan_spaces:
  assumes "list_all isSpace s"
  shows "scan_bytes (Scanner BeginValue stack [] v) (s @ t) = scan_bytes (Scanner BeginValue stack [] v) t"
    "scan_bytes (Scanner BeginValueOrEmpty stack [] v) (s @ t) = scan_bytes (Scanner BeginValueOrEmpty stack [] v) t"
    "scan_bytes (Scanner BeginString stack [] v) (s @ t) = scan_bytes (Scanner BeginString stack [] v) t"
    "scan_bytes (Scanner BeginStringOrEmpty stack [] v) (s @ t) = scan_bytes (Scanner BeginStringOrEmpty stack [] v) t"
    "scan_bytes (Scanner EndValue (frame # stack) [] v) (s @ t) = scan_bytes (Scanner EndValue (frame # stack) [] v) t"
  using assms by (induction s) (simp_all add: stateBeginValue_def stateBeginString_def)

lemmas scan_newline = scan_spaces [OF newline_spaces]

lemma scan_key:
  "scan_bytes (Scanner BeginString (ParseObjectKey acc # stack) [] x) (appendString key @ CHR '':'' # CHR '' '' # t) =
     scan_bytes (Scanner BeginValue (ParseObjectValue acc (appendString key) # stack) [] (JLiteral (appendString key))) t"
  using scan_appendString [of "ParseObjectKey acc # stack" x key "CHR '':'' # CHR '' '' # t"]
  by (simp add: appendString_def stateBeginString_def stateBeginValue_def isSpace_def)

definition value_head :: "char \<Rightarrow> bool" where
  "value_head c \<longleftrightarrow> \<not> isSpace c \<and> c \<noteq> CHR '']''"

lemma scan_first:
  "value_head c \<Longrightarrow>
     scan_bytes (Scanner BeginValueOrEmpty stack [] x) (c # s) = scan_bytes (Scanner BeginValue stack [] x) (c # s)"
  "scan_bytes (Scanner BeginStringOrEmpty stack [] x) (appendString key @ s) =
     scan_bytes (Scanner BeginString stack [] x) (appendString key @ s)"
  by (simp_all add: appendString_def isSpace_def value_head_def)

lemma scan_open:
  assumes "length stack < maxNestingDepth"
  shows "stateBeginValue stack x (CHR ''['') = Continue (Scanner BeginValueOrEmpty (ParseArrayValue [] # stack) [] x)"
    "stateBeginValue stack x (CHR ''{'') = Continue (Scanner BeginStringOrEmpty (ParseObjectKey [] # stack) [] x)"
  using assms by (simp_all add: stateBeginValue_def isSpace_def pushParseState_def)

lemma value_head_digit: "is_digit c \<Longrightarrow> value_head c"
  by (auto simp: value_head_def is_digit_def isSpace_def)

lemma print_doc_head:
  assumes "doc_ok n doc"
  shows "\<exists>c s. print_doc depth doc = c # s \<and> value_head c"
proof (cases doc)
  case (DocValue v)
  have "\<exists>c s. show_nat i = c # s \<and> value_head c" for i
    using hd_show_nat [of i] by (cases "show_nat i") (simp_all add: value_head_digit)
  with DocValue show ?thesis
    by (cases v) (auto simp: show_int_def appendString_def value_head_def isSpace_def)
next
  case (DocFloat f)
  with assms have "0 \<le> f" "float64 f = f" by simp_all
  then obtain c s where "encode_float f = c # s" "is_digit c" by (rule encode_float_head)
  with DocFloat show ?thesis by (simp add: value_head_digit)
qed (simp_all add: value_head_def isSpace_def)

lemma scan_print:
  "doc_ok n doc \<Longrightarrow> length stack + n \<le> maxNestingDepth \<Longrightarrow> delimiter c \<Longrightarrow>
     scan_bytes (Scanner BeginValue stack [] x) (print_doc depth doc @ c # t) =
     scan_bytes (Scanner EndValue stack [] (doc_tree doc)) (c # t)"
  "list_all (doc_ok n) vs \<Longrightarrow> vs \<noteq> [] \<Longrightarrow> length stack + n < maxNestingDepth \<Longrightarrow>
     scan_bytes (Scanner BeginValue (ParseArrayValue acc # stack) [] x)
       (print_items depth vs @ newline depth' @ CHR '']'' # c # t) =
     scan_bytes (Scanner EndValue stack [] (JArray (acc @ map doc_tree vs))) (c # t)"
  "list_all (\<lambda>(_, v). doc_ok n v) ms \<Longrightarrow> ms \<noteq> [] \<Longrightarrow> length stack + n < maxNestingDepth \<Longrightarrow>
     scan_bytes (Scanner BeginString (ParseObjectKey macc # stack) [] x)
       (print_members depth ms @ newline depth' @ CHR ''}'' # c # t) =
     scan_bytes (Scanner EndValue stack [] (JObject (macc @ map (\<lambda>(key, v). (appendString key, doc_tree v)) ms))) (c # t)"
proof (induction depth doc and depth vs and depth ms
    arbitrary: n stack x c t and n stack x c t acc depth' and n stack x c t macc depth'
    rule: print_doc_print_items_print_members.induct)
  case (1 depth v)
  then show ?case by (simp add: scan_value)
next
  case (2 depth f)
  then show ?case using is_number_encode [of f] by (simp add: is_number_def)
next
  case (3 depth vs)
  then obtain m where n: "n = Suc m" by (cases n) auto
  show ?case
  proof (cases vs)
    case Nil
    with 3 n show ?thesis by (simp add: scan_open isSpace_def popParseState_def)
  next
    case (Cons v vs')
    with 3(2) n obtain c' s where head: "print_doc (Suc depth) v = c' # s" "value_head c'"
      using print_doc_head [of m v "Suc depth"] by auto
    have "scan_bytes (Scanner BeginValue stack [] x) (print_doc depth (DocArray vs) @ c # t) =
        scan_bytes (Scanner BeginValueOrEmpty (ParseArrayValue [] # stack) [] x)
          (print_items (Suc depth) vs @ newline depth @ CHR '']'' # c # t)"
      using 3(3) n Cons by (simp add: scan_open scan_newline)
    also have "\<dots> = scan_bytes (Scanner BeginValue (ParseArrayValue [] # stack) [] x)
          (print_items (Suc depth) vs @ newline depth @ CHR '']'' # c # t)"
      using head by (simp only: Cons print_items.simps append.simps scan_first)
    finally show ?thesis
      using 3(1) [of m stack "[]" x depth c t] 3(2,3) n Cons by simp
  qed
next
  case (4 depth ms)
  then obtain m where n: "n = Suc m" by (cases n) auto
  show ?case
  proof (cases ms)
    case Nil
    with 4 n show ?thesis by (simp add: scan_open isSpace_def popParseState_def)
  next
    case (Cons mem ms')
    have "scan_bytes (Scanner BeginValue stack [] x) (print_doc depth (DocObject ms) @ c # t) =
        scan_bytes (Scanner BeginStringOrEmpty (ParseObjectKey [] # stack) [] x)
          (print_members (Suc depth) ms @ newline depth @ CHR ''}'' # c # t)"
      using 4(3) n Cons by (simp add: scan_open scan_newline)
    also have "\<dots> = scan_bytes (Scanner BeginString (ParseObjectKey [] # stack) [] x)
          (print_members (Suc depth) ms @ newline depth @ CHR ''}'' # c # t)"
      by (cases mem) (simp add: Cons scan_first)
    finally show ?thesis
      using 4(1) [of m stack "[]" x depth c t] 4(2,3) n Cons by simp
  qed
next
  case (6 depth v vs)
  show ?case
  proof (cases "vs = []")
    case True
    then show ?thesis
      using 6(1) [of n "ParseArrayValue acc # stack" "CHR 0x0A" x] 6(3-5)
        scan_newline(5) [of "ParseArrayValue acc" stack "doc_tree v" depth' "CHR '']'' # c # t"]
      by (simp add: newline_def delimiter_def isSpace_def popParseState_def)
  next
    case False
    then show ?thesis
      using 6(1) [of n "ParseArrayValue acc # stack" "CHR '',''" x] 6(2) [of n stack "acc @ [doc_tree v]"] 6(3-5)
      by (simp add: delimiter_def scan_newline) (simp add: isSpace_def scan_newline)
  qed
next
  case (8 depth key v ms)
  show ?case
  proof (cases "ms = []")
    case True
    then show ?thesis
      using 8(1) [of n "ParseObjectValue macc (appendString key) # stack" "CHR 0x0A"] 8(3-5)
        scan_newline(5) [of "ParseObjectValue macc (appendString key)" stack "doc_tree v" depth' "CHR ''}'' # c # t"]
      by (simp add: scan_key newline_def delimiter_def isSpace_def popParseState_def)
  next
    case False
    then show ?thesis
      using 8(1) [of n "ParseObjectValue macc (appendString key) # stack" "CHR '',''"]
        8(2) [of n stack "macc @ [(appendString key, doc_tree v)]"] 8(3-5)
      by (simp add: scan_key delimiter_def scan_newline) (simp add: isSpace_def scan_newline)
  qed
qed simp_all

section \<open>The report\<close>

text \<open>The map of failure reasons, its keys sorted.\<close>

definition reasons_doc :: "(string \<times> int) list \<Rightarrow> Doc" where
  "reasons_doc m = DocObject (map (\<lambda>(reason, n). (reason, DocValue (IntValue n))) (sort_key fst m))"

text \<open>
  The members of the struct \<open>summary\<close> with its tags.  An infinite rate is a value \<open>encoding/json\<close> does
  not support, which is \<^const>\<open>None\<close>.
\<close>

definition summary_doc :: "Summary \<Rightarrow> Doc option" where
  "summary_doc s =
     (case (sum_RequestsPerSec s, sum_P50MS s, sum_P95MS s, sum_P99MS s, sum_MaxMS s) of
        (Some rate, Some p50, Some p95, Some p99, Some maxMS) \<Rightarrow>
          Some (DocObject (
            (if sum_Run s = 0 then [] else [(''run'', DocValue (IntValue (sum_Run s)))]) @
            [(''operation'', DocValue (StringValue (sum_Operation s))),
             (''requests'', DocValue (IntValue (sum_Requests s))),
             (''concurrency'', DocValue (IntValue (sum_Concurrency s))),
             (''warmup_requests'', DocValue (IntValue (sum_WarmupRequests s))),
             (''successful'', DocValue (IntValue (sum_Successful s))),
             (''failed'', DocValue (IntValue (sum_Failed s))),
             (''duration_ms'', DocValue (IntValue (sum_DurationMS s))),
             (''requests_per_second'', DocFloat rate),
             (''p50_ms'', DocFloat p50),
             (''p95_ms'', DocFloat p95),
             (''p99_ms'', DocFloat p99),
             (''max_ms'', DocFloat maxMS)] @
            (if sum_FailureReasons s = [] then []
             else [(''failure_reasons'', reasons_doc (sum_FailureReasons s))]) @
            (if sum_SampleError s = [] then []
             else [(''sample_error'', DocValue (StringValue (sum_SampleError s)))])))
      | _ \<Rightarrow> None)"

text \<open>One report is printed as an object, several as an array.\<close>

definition encode_reports :: "Summary list \<Rightarrow> string option" where
  "encode_reports reports =
     (case those (map summary_doc reports) of
        Some docs \<Rightarrow>
          Some (print_doc 0 (if length docs = 1 then hd docs else DocArray docs) @ [CHR 0x0A])
      | None \<Rightarrow> None)"

section \<open>The process\<close>

text \<open>
  The end of the process: what reached standard output and standard error, and the exit status;
  or a panic for an index of \<open>percentileMS\<close> out of range.
\<close>

datatype LoadTestEnd =
    Exited string string int
  | Panicked

definition summary_panics :: "Summary \<Rightarrow> bool" where
  "summary_panics s \<longleftrightarrow> sum_P50MS s = None \<or> sum_P95MS s = None \<or> sum_P99MS s = None \<or> sum_MaxMS s = None"

text \<open>\<open>%v\<close> of a map prints its entries sorted by key.\<close>

definition show_map :: "(string \<times> int) list \<Rightarrow> string" where
  "show_map m =
     ''map['' @ Join (CHR '' '') (map (\<lambda>(key, n). key @ CHR '':'' # show_int n) (sort_key fst m)) @ '']''"

definition warmup_message :: "Summary \<Rightarrow> string" where
  "warmup_message s =
     ''warm-up failed: '' @ show_int (sum_Failed s) @ '' of '' @ show_int (sum_Requests s) @
     '' requests failed ('' @ show_map (sum_FailureReasons s) @ ''): '' @ sum_SampleError s @ [CHR 0x0A]"

text \<open>
  \<open>main\<close> after the flags are parsed.  \<open>bench n\<close> is the n-th call of \<open>benchmark\<close>, counted from the
  warm-up; \<open>write\<close> is what a write to standard output does: the bytes that got there and its error.
\<close>

definition loadtest_main ::
  "Options \<Rightarrow> (nat \<Rightarrow> Options \<Rightarrow> Summary) \<Rightarrow> (string \<Rightarrow> string \<times> Error option) \<Rightarrow> LoadTestEnd" where
  "loadtest_main c bench write =
     (case validate c of
        Some err \<Rightarrow> Exited [] (Error_Error err @ [CHR 0x0A]) 2
      | None \<Rightarrow>
          let warmup = bench 0 (c\<lparr>opt_requests := opt_warmup c\<rparr>)
          in if 0 < opt_warmup c \<and> summary_panics warmup then Panicked
             else if 0 < opt_warmup c \<and> sum_Failed warmup \<noteq> 0 then Exited [] (warmup_message warmup) 1
             else
               let reports = map (\<lambda>n. if 1 < opt_runs c then (bench n c)\<lparr>sum_Run := int n\<rparr> else bench n c)
                     [1..<Suc (nat (opt_runs c))];
                   failed = (\<exists>r \<in> set reports. sum_Failed r \<noteq> 0)
               in if \<exists>r \<in> set reports. summary_panics r then Panicked
                  else case encode_reports reports of
                    None \<Rightarrow> Exited [] (''json: unsupported value: +Inf'' @ [CHR 0x0A]) 1
                  | Some data \<Rightarrow>
                      (case write data of
                         (out, Some err) \<Rightarrow> Exited out (Error_Error err @ [CHR 0x0A]) 1
                       | (out, None) \<Rightarrow> Exited out [] (if failed then 1 else 0)))"

text \<open>
  The whole of \<open>main\<close>: \<open>flag.Parse\<close> ends the process on a malformed command line, with a message, and on
  a request for help; both print \<open>usage\<close>, the text of \<open>flag.Usage\<close>.
\<close>

definition loadtest_process ::
  "(nat \<Rightarrow> bool) \<Rightarrow> string \<Rightarrow> string list \<Rightarrow> (nat \<Rightarrow> Options \<Rightarrow> Summary) \<Rightarrow>
    (string \<Rightarrow> string \<times> Error option) \<Rightarrow> LoadTestEnd" where
  "loadtest_process is_print usage args bench write =
     (case parseFlags is_print args of
        Inl ErrHelp \<Rightarrow> Exited [] usage 0
      | Inl (FlagFailed msg) \<Rightarrow> Exited [] (msg @ CHR 0x0A # usage) 2
      | Inr c \<Rightarrow> loadtest_main c bench write)"

section \<open>What a reader finds\<close>

definition json_member :: "string \<Rightarrow> Json \<Rightarrow> Json option" where
  "json_member key v =
     (case v of JObject ms \<Rightarrow> map_of (map (\<lambda>(k, x). (unquote k, x)) ms) key | _ \<Rightarrow> None)"

definition literal :: "Json \<Rightarrow> string option" where
  "literal v = (case v of JLiteral lit \<Rightarrow> Some lit | _ \<Rightarrow> None)"

definition integer_member :: "string \<Rightarrow> Json \<Rightarrow> int \<Rightarrow> bool" where
  "integer_member key v i \<longleftrightarrow> Option.bind (json_member key v) literal = Some (show_int i)"

definition float_member :: "string \<Rightarrow> Json \<Rightarrow> rat option" where
  "float_member key v = map_option ParseFloat (Option.bind (json_member key v) literal)"

definition string_member :: "string \<Rightarrow> Json \<Rightarrow> string option" where
  "string_member key v = map_option unquote (Option.bind (json_member key v) literal)"

text \<open>
  A JSON value says what a summary says: every counter and every figure, and the optional members
  when they have something to say.
\<close>

definition reads_as :: "Summary \<Rightarrow> Json \<Rightarrow> bool" where
  "reads_as s v \<longleftrightarrow>
     (if sum_Run s = 0 then json_member ''run'' v = None else integer_member ''run'' v (sum_Run s)) \<and>
     string_member ''operation'' v = Some (ToValidUTF8 (sum_Operation s)) \<and>
     integer_member ''requests'' v (sum_Requests s) \<and>
     integer_member ''concurrency'' v (sum_Concurrency s) \<and>
     integer_member ''warmup_requests'' v (sum_WarmupRequests s) \<and>
     integer_member ''successful'' v (sum_Successful s) \<and>
     integer_member ''failed'' v (sum_Failed s) \<and>
     integer_member ''duration_ms'' v (sum_DurationMS s) \<and>
     float_member ''requests_per_second'' v = sum_RequestsPerSec s \<and>
     float_member ''p50_ms'' v = sum_P50MS s \<and>
     float_member ''p95_ms'' v = sum_P95MS s \<and>
     float_member ''p99_ms'' v = sum_P99MS s \<and>
     float_member ''max_ms'' v = sum_MaxMS s \<and>
     (case json_member ''failure_reasons'' v of
        None \<Rightarrow> sum_FailureReasons s = []
      | Some (JObject ms) \<Rightarrow> sum_FailureReasons s \<noteq> [] \<and>
          map (\<lambda>(k, x). (unquote k, literal x)) ms =
          map (\<lambda>(reason, n). (ToValidUTF8 reason, Some (show_int n))) (sort_key fst (sum_FailureReasons s))
      | _ \<Rightarrow> False) \<and>
     string_member ''sample_error'' v =
       (if sum_SampleError s = [] then None else Some (ToValidUTF8 (sum_SampleError s)))"

section \<open>Lemmas\<close>

lemma json_member_doc:
  assumes "list_all (\<lambda>m. lower_ascii (fst m)) ms"
  shows "json_member key (JObject (map (\<lambda>(k, v). (appendString k, doc_tree v)) ms)) = map_option doc_tree (map_of ms key)"
  using assms by (induction ms) (auto simp: json_member_def)

lemma summary_docE:
  assumes "summary_doc s = Some doc"
  obtains rate p50 p95 p99 maxMS where "sum_RequestsPerSec s = Some rate" "sum_P50MS s = Some p50"
    "sum_P95MS s = Some p95" "sum_P99MS s = Some p99" "sum_MaxMS s = Some maxMS"
  using assms by (auto simp: summary_doc_def split: option.splits)

text \<open>The figures of a summary are \<open>float64\<close> numbers.\<close>

definition figures_ok :: "Summary \<Rightarrow> bool" where
  "figures_ok s \<longleftrightarrow>
     list_all (\<lambda>x. case x of None \<Rightarrow> True | Some f \<Rightarrow> 0 \<le> f \<and> float64 f = f)
       [sum_RequestsPerSec s, sum_P50MS s, sum_P95MS s, sum_P99MS s, sum_MaxMS s]"

lemma doc_ok_reasons: "doc_ok (Suc n) (reasons_doc m)"
  by (auto simp: reasons_doc_def list_all_iff)

lemma doc_ok_summary:
  assumes "summary_doc s = Some doc" "figures_ok s"
  shows "doc_ok 2 doc"
proof (rule summary_docE [OF assms(1)])
  fix rate p50 p95 p99 maxMS
  assume figures: "sum_RequestsPerSec s = Some rate" "sum_P50MS s = Some p50"
    "sum_P95MS s = Some p95" "sum_P99MS s = Some p99" "sum_MaxMS s = Some maxMS"
  have 2: "2 = Suc (Suc 0)" by simp
  show ?thesis
    using assms by (auto simp: figures summary_doc_def figures_ok_def 2 doc_ok_reasons)
qed

lemma reads_as_summary:
  assumes "summary_doc s = Some doc" "figures_ok s"
  shows "reads_as s (doc_tree doc)"
proof (rule summary_docE [OF assms(1)])
  fix rate p50 p95 p99 maxMS
  assume figures: "sum_RequestsPerSec s = Some rate" "sum_P50MS s = Some p50"
    "sum_P95MS s = Some p95" "sum_P99MS s = Some p99" "sum_MaxMS s = Some maxMS"
  with assms(2) have parse: "ParseFloat (encode_float rate) = rate" "ParseFloat (encode_float p50) = p50"
    "ParseFloat (encode_float p95) = p95" "ParseFloat (encode_float p99) = p99" "ParseFloat (encode_float maxMS) = maxMS"
    by (simp_all add: figures_ok_def ParseFloat_encode)
  obtain ms where ms: "doc = DocObject ms" using assms(1) by (auto simp: summary_doc_def figures)
  with assms(1) have "list_all (\<lambda>m. lower_ascii (fst m)) ms"
    by (auto simp: summary_doc_def figures lower_ascii_def)
  note get = json_member_doc [OF this]
  have ms_eq: "ms = (case the (summary_doc s) of DocObject l \<Rightarrow> l | _ \<Rightarrow> [])"
    using assms(1) ms by simp
  show ?thesis
    unfolding reads_as_def ms integer_member_def float_member_def string_member_def doc_tree.simps get
    by (simp add: ms_eq summary_doc_def figures literal_def parse reasons_doc_def case_prod_beta comp_def)
qed

lemma summary_percentiles:
  "sum_P50MS (benchmark_summary c results elapsed) = percentileMS (sort (map res_duration results)) (1 / 2)"
  "sum_P95MS (benchmark_summary c results elapsed) = percentileMS (sort (map res_duration results)) (float64 (95 / 100))"
  "sum_P99MS (benchmark_summary c results elapsed) = percentileMS (sort (map res_duration results)) (float64 (99 / 100))"
  "sum_MaxMS (benchmark_summary c results elapsed) = percentileMS (sort (map res_duration results)) 1"
  "sum_RequestsPerSec (benchmark_summary c results elapsed) =
    (if Seconds elapsed = 0 then None else Some (float64 (float64 (of_int (opt_requests c)) / Seconds elapsed)))"
  "sum_Failed (benchmark_summary c results elapsed) = opt_requests c - int (length (filter succeeded results))"
proof -
  obtain l n m e where col: "collect results ([], 0, [], []) = (l, n, m, e)"
    by (metis prod_cases4)
  from collect_eq [OF col] show
    "sum_P50MS (benchmark_summary c results elapsed) = percentileMS (sort (map res_duration results)) (1 / 2)"
    "sum_P95MS (benchmark_summary c results elapsed) = percentileMS (sort (map res_duration results)) (float64 (95 / 100))"
    "sum_P99MS (benchmark_summary c results elapsed) = percentileMS (sort (map res_duration results)) (float64 (99 / 100))"
    "sum_MaxMS (benchmark_summary c results elapsed) = percentileMS (sort (map res_duration results)) 1"
    "sum_RequestsPerSec (benchmark_summary c results elapsed) =
      (if Seconds elapsed = 0 then None else Some (float64 (float64 (of_int (opt_requests c)) / Seconds elapsed)))"
    "sum_Failed (benchmark_summary c results elapsed) = opt_requests c - int (length (filter succeeded results))"
    by (simp_all add: benchmark_summary_def col Let_def)
qed

lemma percentileMS_figure:
  assumes "sorted vs" "vs \<noteq> []" "int (length vs) \<le> 2 ^ 53" "\<forall>d \<in> set vs. 0 \<le> d" "0 \<le> p" "p \<le> 1"
  shows "\<exists>x. percentileMS vs p = Some x \<and> 0 \<le> x \<and> float64 x = x"
proof -
  obtain x where x: "percentileMS vs p = Some x"
    using percentileMS_sorted [of vs p p] assms by auto
  let ?i = "nat (percentile_index (length vs) p)"
  have i: "?i < length vs" "x = in_milliseconds (vs ! ?i)"
    using x assms(2) by (auto simp: percentileMS_def Let_def in_milliseconds_def split: if_splits)
  then have "0 \<le> vs ! ?i" using assms(4) by simp
  then have "0 \<le> float64 (of_int (Microseconds (vs ! ?i))) / 1000"
    by (intro divide_nonneg_nonneg float64_nonneg) (simp_all add: Microseconds_def sdiv_nonneg_int pos_imp_zdiv_nonneg_iff)
  with x i show ?thesis by (auto simp: in_milliseconds_def float64_nonneg)
qed

lemma float64_pos: "0 < x \<Longrightarrow> 0 < float64 x"
  using float64_binade [of x] two_power_pos [of "binary_exponent x"] by linarith

lemma Seconds_pos:
  assumes "0 < d"
  shows "0 < Seconds d"
proof -
  let ?s = "d sdiv second" and ?n = "d smod second"
  have s: "?s = d div second" using assms by (simp add: sdiv_nonneg_int second_def)
  have n: "?n = d mod second" using s by (simp add: minus_sdiv_mult_eq_smod [symmetric] minus_div_mult_eq_mod)
  have "0 \<le> ?s" "0 \<le> ?n" unfolding s n unfolding second_def using assms by (simp_all add: pos_imp_zdiv_nonneg_iff)
  moreover have "0 < ?s \<or> 0 < ?n"
    using assms calculation sdiv_mult_smod_eq [of d second] by (cases "?s = 0") auto
  ultimately have "0 \<le> float64 (of_int ?s)" "0 \<le> float64 (float64 (of_int ?n) / 1000000000)"
    "0 < float64 (of_int ?s) \<or> 0 < float64 (float64 (of_int ?n) / 1000000000)"
    by (auto intro!: float64_nonneg divide_nonneg_nonneg simp: float64_pos)
  then have "0 < float64 (of_int ?s) + float64 (float64 (of_int ?n) / 1000000000)" by linarith
  then show ?thesis by (simp add: Seconds_def float64_pos)
qed

lemma those_map: "(\<And>x. x \<in> set xs \<Longrightarrow> f x = Some (g x)) \<Longrightarrow> those (map f xs) = Some (map g xs)"
  by (induction xs) simp_all

lemma checkValid_doc: "doc_ok 3 doc \<Longrightarrow> checkValid (print_doc 0 doc @ [CHR 0x0A]) = Inr (doc_tree doc)"
  using scan_print(1) [of 3 doc "[]" "CHR 0x0A" "JLiteral []" 0 "[]"]
  by (simp add: checkValid_def scan_start_def maxNestingDepth_def delimiter_def isSpace_def)

lemma doc_ok_mono: "doc_ok n doc \<Longrightarrow> n \<le> m \<Longrightarrow> doc_ok m doc"
proof (induction n doc arbitrary: m rule: doc_ok.induct)
  case (4 n vs)
  then show ?case by (cases m) (auto simp: list_all_iff)
next
  case (6 n ms)
  then show ?case by (cases m) (fastforce simp: list_all_iff)+
qed simp_all

text \<open>One run: its report can be encoded.\<close>

definition measured :: "Result list \<Rightarrow> Duration \<Rightarrow> bool" where
  "measured results elapsed \<longleftrightarrow>
     results \<noteq> [] \<and> int (length results) \<le> 2 ^ 53 \<and> (\<forall>r \<in> set results. 0 \<le> res_duration r) \<and> 0 < elapsed"

lemma benchmark_encodes:
  assumes "measured results elapsed" "0 \<le> opt_requests c"
  shows "figures_ok (benchmark_summary c results elapsed)" "\<not> summary_panics (benchmark_summary c results elapsed)"
    "sum_RequestsPerSec (benchmark_summary c results elapsed) \<noteq> None"
proof -
  let ?vs = "sort (map res_duration results)"
  have len: "length ?vs = length results" by simp
  with assms(1) have vs: "sorted ?vs" "?vs \<noteq> []" "int (length ?vs) \<le> 2 ^ 53" "\<forall>d \<in> set ?vs. 0 \<le> d"
    by (force simp: measured_def, metis length_0_conv measured_def, simp add: measured_def, simp add: measured_def)
  have p: "0 \<le> (1 / 2 :: rat)" "(1 / 2 :: rat) \<le> 1" "0 \<le> float64 (95 / 100)" "float64 (95 / 100) \<le> 1"
      "0 \<le> float64 (99 / 100)" "float64 (99 / 100) \<le> 1" "0 \<le> (1 :: rat)" "(1 :: rat) \<le> 1"
    using float64_ratios by simp_all
  have s: "0 < Seconds elapsed" using assms(1) by (simp add: measured_def Seconds_pos)
  moreover have "0 \<le> float64 (of_int (opt_requests c)) / Seconds elapsed"
    using s assms(2) by (intro divide_nonneg_pos float64_nonneg) simp_all
  ultimately show "figures_ok (benchmark_summary c results elapsed)" "\<not> summary_panics (benchmark_summary c results elapsed)"
    "sum_RequestsPerSec (benchmark_summary c results elapsed) \<noteq> None"
    using percentileMS_figure [OF vs p(1,2)] percentileMS_figure [OF vs p(3,4)] percentileMS_figure [OF vs p(5,6)]
      percentileMS_figure [OF vs p(7,8)]
    by (auto simp: figures_ok_def summary_panics_def summary_percentiles float64_nonneg)
qed

lemma summary_doc_Some: "\<not> summary_panics s \<Longrightarrow> sum_RequestsPerSec s \<noteq> None \<Longrightarrow> summary_doc s = Some (the (summary_doc s))"
  by (auto simp: summary_panics_def summary_doc_def)

lemma encode_reports_read:
  assumes "reports \<noteq> []" "\<And>s. s \<in> set reports \<Longrightarrow> figures_ok s \<and> \<not> summary_panics s \<and> sum_RequestsPerSec s \<noteq> None"
  shows "\<exists>out vs. encode_reports reports = Some out \<and>
    checkValid out = Inr (if length reports = 1 then hd vs else JArray vs) \<and> list_all2 reads_as reports vs"
proof -
  define docs where "docs = map (\<lambda>s. the (summary_doc s)) reports"
  have doc: "summary_doc s = Some (the (summary_doc s))" "figures_ok s" if "s \<in> set reports" for s
    using summary_doc_Some [of s] assms(2) [OF that] by blast+
  note ok = doc_ok_summary [OF doc] and tree = reads_as_summary [OF doc]
  have docs: "those (map summary_doc reports) = Some docs"
    unfolding docs_def by (rule those_map) (rule doc)
  have reads: "list_all2 reads_as reports (map doc_tree docs)"
    using tree by (simp add: docs_def list_all2_conv_all_nth)
  have "doc_ok (Suc 2) (DocArray docs)"
    unfolding doc_ok.simps list_all_iff using ok by (auto simp: docs_def)
  moreover have "doc_ok 3 (hd docs)"
    using ok doc_ok_mono [of 2 _ 3] assms(1) by (simp add: docs_def hd_map)
  moreover define doc where "doc = (if length docs = 1 then hd docs else DocArray docs)"
  ultimately have "doc_ok 3 doc" by simp
  note valid = checkValid_doc [OF this]
  have "docs \<noteq> []" "length docs = length reports" using assms(1) by (simp_all add: docs_def)
  then have tree: "doc_tree doc = (if length reports = 1 then hd (map doc_tree docs) else JArray (map doc_tree docs))"
    by (simp add: hd_map doc_def)
  have "encode_reports reports = Some (print_doc 0 doc @ [CHR 0x0A])"
    by (simp add: encode_reports_def docs doc_def)
  with valid reads show ?thesis
    unfolding tree by blast
qed

lemma summary_Run:
  "sum_Run (benchmark_summary c results elapsed) = 0"
  "figures_ok (s\<lparr>sum_Run := i\<rparr>) = figures_ok s" "summary_panics (s\<lparr>sum_Run := i\<rparr>) = summary_panics s"
  by (simp_all add: benchmark_summary_def figures_ok_def summary_panics_def Let_def split: prod.splits)

lemma summary_failed:
  assumes "int (length results) = opt_requests c"
  shows "sum_Failed (benchmark_summary c results elapsed) = 0 \<longleftrightarrow> list_all succeeded results"
proof -
  have "sum_Failed (benchmark_summary c results elapsed) = int (length (filter (\<lambda>r. \<not> succeeded r) results))"
    using assms sum_length_filter_compl [of succeeded results] by (simp add: summary_percentiles)
  then show ?thesis by (simp add: filter_empty_conv list_all_iff)
qed

text \<open>The reports of \<open>main\<close>, counted from zero.\<close>

lemma reports_eq:
  assumes "bench = (\<lambda>n opts. benchmark_summary opts (results n) (elapsed n))" "0 < opt_runs c"
  shows "map (\<lambda>n. if 1 < opt_runs c then (bench n c)\<lparr>sum_Run := int n\<rparr> else bench n c) [1..<Suc (nat (opt_runs c))] =
    map (\<lambda>n. (bench (Suc n) c)\<lparr>sum_Run := if opt_runs c = 1 then 0 else int (Suc n)\<rparr>) [0..<nat (opt_runs c)]"
proof -
  have "s\<lparr>sum_Run := 0\<rparr> = s" if "sum_Run s = 0" for s :: Summary
    using that by (cases s) simp
  with assms show ?thesis
    by (auto simp: map_Suc_upt [symmetric] comp_def summary_Run simp del: upt_Suc)
qed

lemma loadtest_main_reports:
  assumes "validate c = None"
    and "\<not> (0 < opt_warmup c \<and> (summary_panics (bench 0 (c\<lparr>opt_requests := opt_warmup c\<rparr>)) \<or>
      sum_Failed (bench 0 (c\<lparr>opt_requests := opt_warmup c\<rparr>)) \<noteq> 0))"
    and "map (\<lambda>n. if 1 < opt_runs c then (bench n c)\<lparr>sum_Run := int n\<rparr> else bench n c) [1..<Suc (nat (opt_runs c))] = reports"
    and "encode_reports reports = Some data" "write data = (out, None)" "\<forall>s \<in> set reports. \<not> summary_panics s"
  shows "loadtest_main c bench write = Exited out [] (if \<exists>s \<in> set reports. sum_Failed s \<noteq> 0 then 1 else 0)"
proof -
  have "\<not> (\<exists>s \<in> set reports. summary_panics s)" using assms(6) by blast
  with assms(2) show ?thesis
    unfolding loadtest_main_def Let_def assms(1,3,4,5) option.case prod.case
    by (simp only: simp_thms if_False split: if_split) blast
qed

section \<open>Properties\<close>

text \<open>
  C38.  The report can be read.  When the options are valid, the warm-up has no failure and every run took
  time, the load generator never panics: it prints one JSON value, an object for one run and an array
  for several, in which a reader finds every counter of every run, the numbers of requests that succeeded
  and failed, every figure with exactly the \<open>float64\<close> value that was computed, and the failure reasons;
  it writes nothing to standard error; and it exits with status 0 exactly when every request of every run
  succeeded.
\<close>

theorem report_readable:
  assumes "validate c = None" "opt_requests c \<le> 2 ^ 53"
    and "bench = (\<lambda>n opts. benchmark_summary opts (results n) (elapsed n))"
    and "0 < opt_warmup c \<Longrightarrow> measured (results 0) (elapsed 0) \<and>
      int (length (results 0)) = opt_warmup c \<and> list_all succeeded (results 0)"
    and "\<And>n. 1 \<le> n \<Longrightarrow> int n \<le> opt_runs c \<Longrightarrow> measured (results n) (elapsed n) \<and>
      int (length (results n)) = opt_requests c"
  shows "\<exists>out vs. loadtest_main c bench (\<lambda>data. (data, None)) =
      Exited out [] (if \<forall>n \<in> {1..nat (opt_runs c)}. list_all succeeded (results n) then 0 else 1) \<and>
    checkValid out = Inr (if opt_runs c = 1 then hd vs else JArray vs) \<and>
    length vs = nat (opt_runs c) \<and>
    (\<forall>n < length vs. reads_as ((bench (Suc n) c)\<lparr>sum_Run := if opt_runs c = 1 then 0 else int (Suc n)\<rparr>) (vs ! n) \<and>
       integer_member ''successful'' (vs ! n) (int (length (filter succeeded (results (Suc n))))) \<and>
       integer_member ''failed'' (vs ! n) (int (length (filter (\<lambda>r. \<not> succeeded r) (results (Suc n))))))"
proof -
  define report where "report n = (bench (Suc n) c)\<lparr>sum_Run := if opt_runs c = 1 then 0 else int (Suc n)\<rparr>" for n
  define reports where "reports = map report [0..<nat (opt_runs c)]"
  have c: "0 < opt_runs c" "0 < opt_requests c" "0 \<le> opt_warmup c"
    using assms(1) by (auto simp: validate_def split: if_splits)
  have run: "measured (results (Suc n)) (elapsed (Suc n))" "int (length (results (Suc n))) = opt_requests c"
    if "n < nat (opt_runs c)" for n
    using assms(5) [of "Suc n"] that by auto
  have ok: "figures_ok s \<and> \<not> summary_panics s \<and> sum_RequestsPerSec s \<noteq> None" if "s \<in> set reports" for s
    using that benchmark_encodes [OF run(1), of _ c] c(2)
    by (auto simp: reports_def report_def assms(3) summary_Run)
  have "reports \<noteq> []" using c(1) by (simp add: reports_def)
  then obtain out vs where out: "encode_reports reports = Some out"
      "checkValid out = Inr (if length reports = 1 then hd vs else JArray vs)" "list_all2 reads_as reports vs"
    using encode_reports_read [OF _ ok] by blast
  have warmup: "\<not> (0 < opt_warmup c \<and> (summary_panics (bench 0 (c\<lparr>opt_requests := opt_warmup c\<rparr>)) \<or>
      sum_Failed (bench 0 (c\<lparr>opt_requests := opt_warmup c\<rparr>)) \<noteq> 0))"
    using assms(4) benchmark_encodes(2) [of "results 0" "elapsed 0" "c\<lparr>opt_requests := opt_warmup c\<rparr>"] c(3)
    by (auto simp: assms(3) summary_failed)
  have failed: "(\<exists>s \<in> set reports. sum_Failed s \<noteq> 0) \<longleftrightarrow>
      \<not> (\<forall>n \<in> {1..nat (opt_runs c)}. list_all succeeded (results n))"
  proof -
    have "sum_Failed (report n) = 0 \<longleftrightarrow> list_all succeeded (results (Suc n))" if "n < nat (opt_runs c)" for n
      using summary_failed [OF run(2) [OF that]] by (simp add: report_def assms(3))
    then have "(\<exists>s \<in> set reports. sum_Failed s \<noteq> 0) \<longleftrightarrow> (\<exists>n < nat (opt_runs c). \<not> list_all succeeded (results (Suc n)))"
      by (auto simp: reports_def)
    also have "\<dots> \<longleftrightarrow> (\<exists>n \<in> Suc ` {..<nat (opt_runs c)}. \<not> list_all succeeded (results n))" by auto
    finally show ?thesis by (simp add: image_Suc_lessThan)
  qed
  note reps = reports_eq [OF assms(3) c(1), folded report_def reports_def]
  have "loadtest_main c bench (\<lambda>data. (data, None)) =
      Exited out [] (if \<forall>n \<in> {1..nat (opt_runs c)}. list_all succeeded (results n) then 0 else 1)"
    using loadtest_main_reports [OF assms(1) warmup reps out(1), of "\<lambda>data. (data, None)"] ok failed by simp
  moreover have "length vs = nat (opt_runs c)" "length reports = 1 \<longleftrightarrow> opt_runs c = 1"
    using list_all2_lengthD [OF out(3)] c(1) by (auto simp: reports_def)
  moreover have reads: "reads_as (report n) (vs ! n)" if "n < length vs" for n
    using list_all2_nthD2 [OF out(3) that] that calculation(2) by (simp add: reports_def)
  moreover have "integer_member ''successful'' (vs ! n) (int (length (filter succeeded (results (Suc n))))) \<and>
      integer_member ''failed'' (vs ! n) (int (length (filter (\<lambda>r. \<not> succeeded r) (results (Suc n)))))"
    if "n < length vs" for n
    using reads [OF that] summary_adds_up [OF run(2)] that calculation(2) by (simp add: reads_as_def report_def assms(3))
  ultimately show ?thesis
    using out(2) by (auto simp: report_def)
qed

definition example_bench :: "nat \<Rightarrow> Options \<Rightarrow> Summary" where
  "example_bench n opts = benchmark_summary opts example_results second"

theorem report_readable_witness:
  "\<exists>out v. loadtest_main (example_options\<lparr>opt_runs := 1, opt_warmup := 0\<rparr>) example_bench (\<lambda>data. (data, None)) = Exited out [] 1 \<and>
     checkValid out = Inr v \<and> integer_member ''failed'' v 2 \<and> float_member ''max_ms'' v = Some 3"
proof -
  let ?c = "example_options\<lparr>opt_runs := 1, opt_warmup := 0\<rparr>"
  have c: "validate ?c = None" "opt_requests ?c \<le> 2 ^ 53" "opt_requests ?c = 3" by code_simp+
  have m: "measured example_results second" "length example_results = 3"
    by (simp_all add: measured_def example_results_def zeroResult_def example_posted second_def)
  have failed: "\<not> list_all succeeded example_results"
    by (simp add: example_results_def succeeded_def zeroResult_def example_posted)
  have figures: "sum_Failed (example_bench 1 ?c) = 2" "sum_MaxMS (example_bench 1 ?c) = Some 3"
  proof -
    have "map res_duration example_results = [3000000, 1000000, 2000000]" "filter succeeded example_results = [hd example_results]"
      by (simp_all add: example_results_def succeeded_def zeroResult_def example_posted)
    moreover have "float64 3000 = 3000" "float64 3 = 3" using float64_int [of 3000] float64_int [of 3] by simp_all
    ultimately show "sum_Failed (example_bench 1 ?c) = 2" "sum_MaxMS (example_bench 1 ?c) = Some 3"
      using c(3) percentile_index_1 [of 3]
      by (simp_all add: example_bench_def summary_percentiles percentileMS_def Microseconds_def sdiv_nonneg_int eval_nat_numeral)
  qed
  have bench: "example_bench = (\<lambda>n opts. benchmark_summary opts example_results second)"
    by (intro ext) (simp add: example_bench_def)
  obtain out vs where out: "loadtest_main ?c example_bench (\<lambda>data. (data, None)) = Exited out [] 1"
      "checkValid out = Inr (hd vs)" "length vs = 1"
      "\<forall>n < length vs. reads_as ((example_bench (Suc n) ?c)\<lparr>sum_Run := 0\<rparr>) (vs ! n)"
    using report_readable [OF c(1,2) bench] m c(3) failed by fastforce
  from out(3,4) have "reads_as ((example_bench 1 ?c)\<lparr>sum_Run := 0\<rparr>) (hd vs)"
    by (cases vs) simp_all
  with figures have "integer_member ''failed'' (hd vs) 2" "float_member ''max_ms'' (hd vs) = Some 3"
    by (simp_all add: reads_as_def)
  with out(1,2) show ?thesis by blast
qed

text \<open>The command line that sets every option.\<close>

definition command_line :: "Options \<Rightarrow> string list" where
  "command_line c = map flag_arg
     [(''url'', opt_baseURL c), (''operation'', opt_operation c), (''account-id'', opt_accountID c),
      (''card-id'', opt_cardID c), (''authorization-id'', opt_authorizationID c), (''merchant-id'', opt_merchantID c),
      (''amount-cents'', show_nat (unat (opt_amountCents c))), (''requests'', show_int (opt_requests c)),
      (''concurrency'', show_int (opt_concurrency c)), (''runs'', show_int (opt_runs c)),
      (''warmup'', show_int (opt_warmup c)), (''timeout'', show_nat (nat (opt_timeout c)) @ ''ns'')]"

definition int64 :: "int \<Rightarrow> bool" where
  "int64 i \<longleftrightarrow> - (2 ^ 63) \<le> i \<and> i < 2 ^ 63"

text \<open>
  C39.  Every configuration of the load generator can be given on its command line: the flags that spell out
  the options, in whatever bytes, are parsed back to exactly these options, with the default concurrency of
  the operation in place of zero.
\<close>

theorem flags_roundtrip:
  assumes "list_all int64 [opt_requests c, opt_concurrency c, opt_runs c, opt_warmup c, opt_timeout c]" "0 \<le> opt_timeout c"
  shows "parseFlags is_print (command_line c) = Inr (resolve_concurrency c)"
proof -
  have ints: "ParseInt0 (show_int (opt_requests c)) = Inr (opt_requests c)"
      "ParseInt0 (show_int (opt_concurrency c)) = Inr (opt_concurrency c)"
      "ParseInt0 (show_int (opt_runs c)) = Inr (opt_runs c)"
      "ParseInt0 (show_int (opt_warmup c)) = Inr (opt_warmup c)"
    using assms(1) by (simp_all add: int64_def ParseInt0_show)
  have amount: "ParseUint0 (show_nat (unat (opt_amountCents c))) = Inr (uint (opt_amountCents c))"
    using ParseUint0_show [of "unat (opt_amountCents c)"] unsigned_less [of "opt_amountCents c", where 'a = int] by simp
  have timeout: "ParseDuration (show_nat (nat (opt_timeout c)) @ ''ns'') = Some (opt_timeout c)"
    using ParseDuration_unit [of "''ns''" 1 "nat (opt_timeout c)"] assms by (simp add: unitMap_def int64_def)
  have "flag_Parse is_print loadtest_flags (command_line c) default_options = Inr c"
    by (cases c) (use ints amount timeout in \<open>simp add: command_line_def loadtest_flags_def flag_Parse_arg flag_name_def default_options_def\<close>)
  then show ?thesis by (simp add: parseFlags_def)
qed

theorem flags_roundtrip_witness:
  "parseFlags (\<lambda>_. True) (command_line example_options) = Inr example_options"
  using flags_roundtrip [of example_options "\<lambda>_. True"]
  by (simp add: example_options_def resolve_concurrency_def default_options_def int64_def second_def
      defaultConcurrency_def postedConcurrency_def)

end
