(* ===== verification/Balance_Report.thy ===== *)
theory Balance_Report
  imports Example_Run
begin

text \<open>
  The figures of \<open>GET /v1/accounts/{id}\<close> (\<open>Balance\<close> in \<open>internal/service/service.go\<close>).  The ledger
  contract leaves balances to TigerBeetle, which enforces the constraints an account's flags ask for.
  Here this is a hypothesis on the accounts a lookup returns, and what a lookup returns is followed
  through the program of the request to its response.
\<close>

section \<open>What a program returns\<close>

text \<open>\<open>returns A Q p\<close>: when every account that is found satisfies \<open>A\<close>, a value \<open>p\<close> returns satisfies \<open>Q\<close>.\<close>

primrec returns :: "(Account \<Rightarrow> bool) \<Rightarrow> ('a \<Rightarrow> bool) \<Rightarrow> 'a prog \<Rightarrow> bool" where
  "returns A Q (Return x) \<longleftrightarrow> Q x"
| "returns A Q Panic \<longleftrightarrow> True"
| "returns A Q (Now k) \<longleftrightarrow> (\<forall>t. returns A Q (k t))"
| "returns A Q (AwaitRisk d k) \<longleftrightarrow> (\<forall>x. returns A Q (k x))"
| "returns A Q (CacheLoad i k) \<longleftrightarrow> (\<forall>x. returns A Q (k x))"
| "returns A Q (CacheStore i m k) \<longleftrightarrow> (\<forall>b. returns A Q (k b))"
| "returns A Q (BeginCall t k) \<longleftrightarrow> (\<forall>i. returns A Q (k i))"
| "returns A Q (EndCall i t b k) \<longleftrightarrow> returns A Q k"
| "returns A Q (CallCreateAccount a k) \<longleftrightarrow> (\<forall>r. returns A Q (k r))"
| "returns A Q (CallCreateTransfer t k) \<longleftrightarrow> (\<forall>r. returns A Q (k r))"
| "returns A Q (CallLookupAccount i k) \<longleftrightarrow> (\<forall>r. (\<forall>a. r = Inr (a, True) \<longrightarrow> A a) \<longrightarrow> returns A Q (k r))"
| "returns A Q (CallLookupTransfer i k) \<longleftrightarrow> (\<forall>r. returns A Q (k r))"
| "returns A Q (ReadHealth k) \<longleftrightarrow> (\<forall>x. returns A Q (k x))"
| "returns A Q (AcquireSlot k) \<longleftrightarrow> (\<forall>b. returns A Q (k b))"
| "returns A Q (ReleaseSlot k) \<longleftrightarrow> returns A Q k"
| "returns A Q (EmitMetric m k) \<longleftrightarrow> returns A Q k"
| "returns A Q (EmitLog l k) \<longleftrightarrow> returns A Q k"

lemma returns_seq: "returns A Q (seq p f) \<longleftrightarrow> returns A (\<lambda>x. returns A Q (f x)) p"
  by (induction p) simp_all

lemma returns_upon_exit:
  "returns A Q (f None) \<Longrightarrow> returns A Q (upon_exit p f) \<longleftrightarrow> returns A (\<lambda>x. returns A Q (f (Some x))) p"
  by (induction p) simp_all

lemma returns_trivial: "(\<And>x. Q x) \<Longrightarrow> returns A Q p"
  by (induction p) simp_all

lemma returns_mono: "returns A Q p \<Longrightarrow> (\<And>x. Q x \<Longrightarrow> Q' x) \<Longrightarrow> returns A Q' p"
  by (induction p) simp_all

text \<open>The accounts a lookup returns in a state that satisfies the invariant of the ledger.\<close>

definition lookups_satisfy :: "'l Ledger \<Rightarrow> ('l \<Rightarrow> bool) \<Rightarrow> (Account \<Rightarrow> bool) \<Rightarrow> bool" where
  "lookups_satisfy ops linv A \<longleftrightarrow>
     (\<forall>l i a l'. linv l \<longrightarrow> Ledger_LookupAccount ops i l = (Inr (a, True), l') \<longrightarrow> A a)"

context ledger_contract
begin

lemma act_linv: "linv (w_ledger w) \<Longrightarrow> act ops env p w = (p', w') \<Longrightarrow> linv (w_ledger w')"
  by (cases p) (auto simp: w_advance_def split: prod.splits option.splits if_splits
      dest: CreateAccount CreateTransfer LookupAccount LookupTransfer)

lemma act_returns:
  assumes "lookups_satisfy ops linv A" "linv (w_ledger w)" "returns A Q p" "act ops env p w = (p', w')"
  shows "returns A Q p'"
proof (cases p)
  case (CallLookupAccount i k)
  obtain r l where r: "Ledger_LookupAccount ops i (w_ledger w) = (r, l)" by fastforce
  with assms(1,2) have "\<forall>a. r = Inr (a, True) \<longrightarrow> A a" by (auto simp: lookups_satisfy_def)
  with assms(3,4) r CallLookupAccount show ?thesis by auto
qed (use assms in \<open>auto split: prod.splits option.splits if_splits\<close>)

lemma steps_return:
  assumes A: "lookups_satisfy ops linv A" and out: "outside_ok linv view outside"
    and handler: "\<And>r. returns A (Q r) (handler r)"
    and steps: "sys_steps ops env outside handler ([], w0) (ps, w)" and inv: "linv (w_ledger w0)"
  shows "linv (w_ledger w) \<and> (\<forall>(r, p) \<in> set ps. returns A (Q r) p)"
  using steps
proof (induction ps w rule: rtranclp_induct2)
  case refl
  with inv show ?case by simp
next
  case (step ps w ps' w')
  from step(2) show ?case
  proof (cases rule: sys_stepE)
    case (arrives r)
    with step.IH handler show ?thesis by auto
  next
    case (acts i r p p')
    then have "(r, p) \<in> set ps" by (metis nth_mem)
    with step.IH have "linv (w_ledger w)" "returns A (Q r) p" by auto
    with acts show ?thesis
      using step.IH act_linv act_returns [OF A] set_update_subset_insert [of ps i "(r, p')"] by fastforce
  next
    case (outside l)
    with step.IH out show ?thesis by (auto simp: outside_ok_def)
  qed
qed

end

section \<open>Reported balances\<close>

text \<open>The constraint an account's flags ask the ledger to enforce.\<close>

definition flags_obeyed :: "SDK \<Rightarrow> Account \<Rightarrow> bool" where
  "flags_obeyed sdk a \<longleftrightarrow>
     (DebitsMustNotExceedCredits (Account_AccountFlags sdk (Account_Flags a)) \<longrightarrow>
        uint (Account_DebitsPending a) + uint (Account_DebitsPosted a) \<le> uint (Account_CreditsPosted a)) \<and>
     (CreditsMustNotExceedDebits (Account_AccountFlags sdk (Account_Flags a)) \<longrightarrow>
        uint (Account_CreditsPending a) + uint (Account_CreditsPosted a) \<le> uint (Account_DebitsPosted a))"

text \<open>The available balance of an account of the chart that obeys its flags.\<close>

lemma available_balance_bounds:
  assumes "tb_sdk sdk" "metadataForAccount sdk s a = Some m" "flags_obeyed sdk a"
  shows "0 \<le> snd (balances sdk a (meta_kind m)) \<and>
    snd (balances sdk a (meta_kind m)) \<le> fst (balances sdk a (meta_kind m))"
proof -
  let ?f = "\<lparr>DebitsMustNotExceedCredits = \<not> debit_normal (meta_kind m),
    CreditsMustNotExceedDebits = debit_normal (meta_kind m)\<rparr>"
  have "ledger_Account sdk (meta_kind m) (Account_ID a) (Account_UserData128 a) (Service_ledgerID s) =
      Inr ((account_meta a)\<lparr>Account_Timestamp := 0\<rparr>)"
    using tb_sdk.metadataForAccount_iff [OF assms(1)] assms(2) by blast
  then have "Account_Flags ((account_meta a)\<lparr>Account_Timestamp := 0\<rparr>) = AccountFlags_ToUint16 sdk ?f"
    by (simp add: ledger_Account_Inr)
  then have "Account_AccountFlags sdk (Account_Flags a) = ?f"
    by (simp add: tb_sdk.AccountFlags_decode [OF assms(1)])
  with assms(3) show ?thesis
    by (auto simp: flags_obeyed_def balances_def Let_def tb_sdk.BigInt_uint [OF assms(1)] debit_normal_def)
qed

lemma available_balance_example:
  "balances reference_sdk (example_account 0xa0 2001 2 0 20000 50000) AccountCorporateWallet = (30000, 30000)"
  by (simp add: example_account_def zeroAccount_def balances_def Let_def ref.BigInt_uint kind_defs)

text \<open>A balance whose figures are those of an account that satisfies \<open>A\<close>.\<close>

definition reports_account :: "SDK \<Rightarrow> Service \<Rightarrow> (Account \<Rightarrow> bool) \<Rightarrow> HttpRequest \<Rightarrow> HttpResponse \<Rightarrow> bool" where
  "reports_account sdk s A r resp \<longleftrightarrow>
     (\<forall>v b. r = GetAccount v \<longrightarrow> Http_body resp = BodyBalance b \<longrightarrow>
        (\<exists>a m. A a \<and> metadataForAccount sdk s a = Some m \<and> b = balance_response sdk a m))"

lemma Balance_returns:
  "returns A (\<lambda>r. \<forall>b. r = Inr b \<longrightarrow> (\<exists>a m. A a \<and> metadataForAccount sdk s a = Some m \<and> b = balance_response sdk a m))
     (Balance sdk s v)"
  by (auto simp: Balance_def check_def attempt_def fail_def returns_seq observed_LookupAccount_def observed_call_def
      rememberAccount_def storeMetadata_def split: sum.split option.split)

lemma serveHTTP_returns: "returns A (reports_account sdk s A r) (serveHTTP sdk s r)"
proof (cases r)
  case (GetAccount v)
  have "returns A (reports_account sdk s A r) (http_balance sdk s v)"
    unfolding http_balance_def returns_seq
    by (rule returns_mono [OF Balance_returns])
      (auto simp: reports_account_def writeError_def writeJSON_def error_body_def split: sum.split)
  then show ?thesis
    by (simp add: GetAccount serveHTTP_def recoverPanics_def server_handle_def HTTPMiddleware_def admission_Wrap_def
        returns_seq returns_upon_exit reports_account_def [abs_def] writeJSON_def error_body_def LedgerHealth_read_def)
qed (simp_all add: returns_trivial reports_account_def)

section \<open>A ledger that enforces the constraints\<close>

text \<open>
  The fake ledger adds balances as 64-bit numbers without checks, so a large transfer can break a
  constraint (\<open>fake_overdraft\<close> below).  This one refuses an operation of the fake ledger after which
  an account would not obey its flags.
\<close>

definition constrained :: "SDK \<Rightarrow> fakeLedger \<Rightarrow> bool" where
  "constrained sdk f \<longleftrightarrow> (\<forall>key a. fake_accounts f key = Some a \<longrightarrow> flags_obeyed sdk a)"

definition enforce :: "SDK \<Rightarrow> (fakeLedger \<Rightarrow> (Error + 'r) \<times> fakeLedger) \<Rightarrow> fakeLedger \<Rightarrow> (Error + 'r) \<times> fakeLedger" where
  "enforce sdk operation f =
     (case operation f of (r, f') \<Rightarrow>
        if constrained sdk f' then (r, f') else (Inl (NewError ''constraint violated''), f))"

definition strict_ops :: "SDK \<Rightarrow> fakeLedger Ledger" where
  "strict_ops sdk = (fake_ops sdk)
     \<lparr>Ledger_CreateAccount := \<lambda>a. enforce sdk (fake_CreateAccount sdk a),
      Ledger_CreateTransfer := \<lambda>t. enforce sdk (fake_CreateTransfer sdk t)\<rparr>"

definition strict_inv :: "SDK \<Rightarrow> fakeLedger \<Rightarrow> bool" where
  "strict_inv sdk f \<longleftrightarrow> fake_inv sdk f \<and> constrained sdk f"

lemma refusal_laws:
  "account_law a (Inl (NewError m)) K K" "transfer_law t (Inl (NewError m)) K K"
  by (auto simp: account_law_def transfer_law_def foreign_error_def split: option.split)

lemma strict_lookups: "lookups_satisfy (strict_ops sdk) (strict_inv sdk) (flags_obeyed sdk)"
  by (auto simp: lookups_satisfy_def strict_ops_def fake_ops_def fake_LookupAccount_def strict_inv_def constrained_def
      split: option.splits)

context tb_sdk
begin

lemma strict_contract: "ledger_contract (strict_ops sdk) (fake_view sdk) (strict_inv sdk)"
proof
  fix l l' :: fakeLedger
  assume "strict_inv sdk l"
  then have inv: "fake_inv sdk l" "constrained sdk l" by (simp_all add: strict_inv_def)
  then show "view_ok (fake_view sdk l)" by (simp add: fake_view_ok)
  show "strict_inv sdk l' \<and> account_law a r (fake_view sdk l) (fake_view sdk l')"
    if "Ledger_CreateAccount (strict_ops sdk) a l = (r, l')" for a r
    using that inv fake_CreateAccount_law [OF inv(1)] refusal_laws
    by (auto simp: strict_ops_def enforce_def strict_inv_def split: prod.splits if_splits)
  show "strict_inv sdk l' \<and> transfer_law t r (fake_view sdk l) (fake_view sdk l')"
    if "Ledger_CreateTransfer (strict_ops sdk) t l = (r, l')" for t r
    using that inv fake_CreateTransfer_law [OF inv(1)] refusal_laws
    by (auto simp: strict_ops_def enforce_def strict_inv_def split: prod.splits if_splits)
  show "strict_inv sdk l' \<and> fake_view sdk l' = fake_view sdk l \<and> account_lookup_law i r (fake_view sdk l)"
    if "Ledger_LookupAccount (strict_ops sdk) i l = (r, l')" for i r
    using that inv fake_lookup_law(1) [OF inv(1)]
    by (auto simp: strict_ops_def fake_ops_def strict_inv_def fake_LookupAccount_def split: option.splits)
  show "strict_inv sdk l' \<and> fake_view sdk l' = fake_view sdk l \<and> transfer_lookup_law i r (fake_view sdk l)"
    if "Ledger_LookupTransfer (strict_ops sdk) i l = (r, l')" for i r
    using that inv fake_lookup_law(2) [OF inv(1)]
    by (auto simp: strict_ops_def fake_ops_def strict_inv_def fake_LookupTransfer_def split: option.splits)
qed

end

lemma example_constrained: "constrained reference_sdk example_ledger"
  by (auto simp: constrained_def flags_obeyed_def example_ledger_def example_account_def newFakeLedger_def zeroAccount_def
      account_flags_of_def split: if_splits)

lemma strict_startup:
  "run (strict_ops reference_sdk) example_env (EnsureSystemAccounts reference_sdk example_service)
     example_start = (Some (Inr ()), example_world)"
  using example_constrained
  by (simp add: run_all four_readings strict_ops_def enforce_def cong: run_lazy)

definition strict_serve :: "HttpRequest list \<Rightarrow> HttpResponse option list \<times> fakeLedger world" where
  "strict_serve rs =
     serve_all (strict_ops reference_sdk) example_env (serveHTTP reference_sdk example_service) rs example_world"

lemma strict_run: "fst (strict_serve [GetAccount ''a0'']) =
    map Some [writeJSON 200 (BodyBalance (balance_response reference_sdk
      (example_account 0xa0 2001 2 0 0 50000)
      \<lparr>meta_kind = AccountCorporateWallet, meta_corporateAccountID = 0\<rparr>))]"
  by (simp add: run_all strict_ops_def strict_serve_def cong: run_lazy)

lemma strict_serves:
  assumes "fst (strict_serve rs) = map Some xs"
  shows "serves reference_sdk example_service (strict_ops reference_sdk) (fake_view reference_sdk)
    (strict_inv reference_sdk) example_env (\<lambda>_ _. False) example_world (zip rs (map Return xs))
    (snd (strict_serve rs))"
proof -
  have inv: "strict_inv reference_sdk example_ledger"
    using example_inv example_constrained by (simp add: strict_inv_def)
  have "starts reference_sdk example_service (strict_ops reference_sdk) (strict_inv reference_sdk) example_env
      (\<lambda>_ _. False) example_world"
    using starts_run [where linv = "strict_inv reference_sdk" and k = "env_slots example_env",
        OF strict_startup [unfolded example_start_def] inv] by simp
  moreover have "sys_steps (strict_ops reference_sdk) example_env (\<lambda>_ _. False)
      (serveHTTP reference_sdk example_service) ([], example_world)
      ([] @ zip rs (map Return xs), snd (strict_serve rs))"
    using assms by (intro serve_all_steps) (auto simp: strict_serve_def prod_eq_iff)
  ultimately show ?thesis
    using ref.tb_sdk_axioms ref.strict_contract by (auto simp: serves_def outside_ok_def)
qed

text \<open>
  The sum that \<open>fakeLedger.CreateTransfer\<close> compares with the credits wraps: an account with one cent on
  hold and one cent of credits is debited the largest amount, which real balances of 128 bits would
  reject.
\<close>

definition overdraft_ledger :: fakeLedger where
  "overdraft_ledger = (newFakeLedger 1000)\<lparr>fake_accounts :=
     [''a0'' \<mapsto> (example_account 0xa0 2001 2 0 0 1)\<lparr>Account_DebitsPending := 1\<rparr>,
      ''c0'' \<mapsto> example_account 0xc0 2002 2 0xa0 0 0]\<rparr>"

definition overdraft_transfer :: Transfer where
  "overdraft_transfer = zeroTransfer\<lparr>Transfer_ID := 0xb1, Transfer_DebitAccountID := 0xa0,
     Transfer_CreditAccountID := 0xc0, Transfer_Amount := 0xFFFFFFFFFFFFFFFF\<rparr>"

lemma fake_overdraft:
  "constrained reference_sdk overdraft_ledger"
  "fst (fake_CreateTransfer reference_sdk overdraft_transfer overdraft_ledger) =
     Inr \<lparr>TransferResult_Status = TransferCreated, TransferResult_Timestamp = 1001\<rparr>"
  "\<not> constrained reference_sdk (snd (fake_CreateTransfer reference_sdk overdraft_transfer overdraft_ledger))"
proof -
  have wrap: "(0x10000000000000000 :: uint64) = 0" by code_simp
  note evaluate = overdraft_ledger_def overdraft_transfer_def fake_run data_run example_account_def
    newFakeLedger_def Let_def wrap
  show "constrained reference_sdk overdraft_ledger"
    by (auto simp: constrained_def flags_obeyed_def evaluate split: if_splits)
  show "fst (fake_CreateTransfer reference_sdk overdraft_transfer overdraft_ledger) =
      Inr \<lparr>TransferResult_Status = TransferCreated, TransferResult_Timestamp = 1001\<rparr>"
    by (simp add: evaluate)
  have "\<exists>a. fake_accounts (snd (fake_CreateTransfer reference_sdk overdraft_transfer overdraft_ledger)) ''a0'' = Some a \<and>
      \<not> flags_obeyed reference_sdk a"
    by (simp add: evaluate flags_obeyed_def)
  then show "\<not> constrained reference_sdk (snd (fake_CreateTransfer reference_sdk overdraft_transfer overdraft_ledger))"
    by (auto simp: constrained_def)
qed

section \<open>Properties\<close>

text \<open>
  C30.  Reported balances are right.  Over a ledger whose lookups return accounts that obey the constraint
  their flags ask for, every balance the running service reports shows the four columns of one account
  in full; the posted balance is their posted difference, credits less debits, or debits less credits
  for the safeguarded cash account; the available balance is the posted balance less what is on hold on
  the side the account spends from; and the available balance is neither negative nor above the posted
  balance.
\<close>

theorem reported_balance_bounds:
  assumes "serves sdk s ops view linv env outside w0 ps w" "lookups_satisfy ops linv (flags_obeyed sdk)"
    and "(GetAccount v, Return resp) \<in> set ps" "Http_body resp = BodyBalance b"
  shows "\<exists>a posted available. flags_obeyed sdk a \<and>
    BalanceResp_DebitsPending b = show_int (uint (Account_DebitsPending a)) \<and>
    BalanceResp_DebitsPosted b = show_int (uint (Account_DebitsPosted a)) \<and>
    BalanceResp_CreditsPending b = show_int (uint (Account_CreditsPending a)) \<and>
    BalanceResp_CreditsPosted b = show_int (uint (Account_CreditsPosted a)) \<and>
    BalanceResp_PostedBalance b = show_int posted \<and> BalanceResp_AvailableBalance b = show_int available \<and>
    (if BalanceResp_Kind b = AccountSafeguardedCash
     then posted = uint (Account_DebitsPosted a) - uint (Account_CreditsPosted a) \<and>
       available = posted - uint (Account_CreditsPending a)
     else posted = uint (Account_CreditsPosted a) - uint (Account_DebitsPosted a) \<and>
       available = posted - uint (Account_DebitsPending a)) \<and>
    0 \<le> available \<and> available \<le> posted"
proof -
  have h: "tb_sdk sdk" "ledger_contract ops view linv" "outside_ok linv view outside"
      "sys_steps ops env outside (serveHTTP sdk s) ([], w0) (ps, w)"
    using assms(1) by (auto simp: serves_def)
  have "linv (w_ledger w0)"
    using serves_world(1) [OF assms(1)] by (simp add: world_inv_def)
  from ledger_contract.steps_return [OF h(2) assms(2) h(3) serveHTTP_returns h(4) this] assms(3)
  have "reports_account sdk s (flags_obeyed sdk) (GetAccount v) resp" by fastforce
  then obtain a m where a: "flags_obeyed sdk a" "metadataForAccount sdk s a = Some m" "b = balance_response sdk a m"
    using assms(4) by (auto simp: reports_account_def)
  obtain posted available where b: "balances sdk a (meta_kind m) = (posted, available)" by fastforce
  have bounds: "0 \<le> available \<and> available \<le> posted"
    using available_balance_bounds [OF h(1) a(2,1)] b by simp
  have "if meta_kind m = AccountSafeguardedCash
     then posted = uint (Account_DebitsPosted a) - uint (Account_CreditsPosted a) \<and>
       available = posted - uint (Account_CreditsPending a)
     else posted = uint (Account_CreditsPosted a) - uint (Account_DebitsPosted a) \<and>
       available = posted - uint (Account_DebitsPending a)"
    using b by (auto simp: balances_def Let_def tb_sdk.BigInt_uint [OF h(1)] split: if_splits)
  with bounds show ?thesis
    using a(1,3) b
    by (intro exI [of _ a] exI [of _ posted] exI [of _ available])
      (simp add: balance_response_def Let_def tb_sdk.BigInt_uint [OF h(1)])
qed

theorem reported_balance_bounds_witness:
  "\<exists>b (a :: Account) available. fst (strict_serve [GetAccount ''a0'']) = [Some (writeJSON 200 (BodyBalance b))] \<and>
     BalanceResp_CreditsPosted b = show_int (uint (Account_CreditsPosted a)) \<and>
     BalanceResp_AvailableBalance b = show_int available \<and> 0 \<le> available \<and>
     available = uint (Account_CreditsPosted a) - uint (Account_DebitsPosted a) - uint (Account_DebitsPending a)"
proof -
  obtain b where b: "fst (strict_serve [GetAccount ''a0'']) = map Some [writeJSON 200 (BodyBalance b)]"
      "BalanceResp_Kind b = AccountCorporateWallet"
    using strict_run by (fastforce simp: balance_response_def Let_def case_prod_beta)
  have mem: "(GetAccount ''a0'', Return (writeJSON 200 (BodyBalance b))) \<in>
      set (zip [GetAccount ''a0''] (map Return [writeJSON 200 (BodyBalance b)]))" by simp
  have body: "Http_body (writeJSON 200 (BodyBalance b)) = BodyBalance b"
    by (simp add: writeJSON_def)
  have kind: "(BalanceResp_Kind b = AccountSafeguardedCash) = False"
    by (simp add: b(2) kind_defs)
  obtain a :: Account and posted available where "BalanceResp_CreditsPosted b = show_int (uint (Account_CreditsPosted a))"
      "BalanceResp_AvailableBalance b = show_int available" "0 \<le> available"
      "posted = uint (Account_CreditsPosted a) - uint (Account_DebitsPosted a)"
      "available = posted - uint (Account_DebitsPending a)"
    using reported_balance_bounds [OF strict_serves [OF b(1)] strict_lookups mem body, unfolded kind if_False]
    by metis
  with b(1) show ?thesis by auto
qed

end
