(* ===== verification/Spec2Isabelle.thy ===== *)
theory Spec2Isabelle
  imports Service_Properties Ledger_Main Wire_Exchange Load_Report Balance_Report
begin

text \<open>
  A verification of the ledger service of this repository: an HTTP service in Go that moves money
  between corporate and card wallets by submitting transfers to a TigerBeetle cluster, which is the
  only durable store, together with its process entry and its load generator.

  \<^bold>\<open>The program and the theories.\<close>  Paths are relative to \<open>src/\<close>.

  \<^item> \<open>Go_Base\<close> is the prelude: Go's integers (\<open>w word\<close> for unsigned ones, \<open>int\<close> with
    \<open>wrap_int64\<close> for signed ones), times and durations, \<open>strings.TrimSpace\<close>, decimal printing, and
    the collections of rules the other theories fill.  \<open>Go_Parse\<close> has the parsers of the standard
    library the configuration uses, and the rounding of \<open>float64\<close>, which is shown monotone and
    exact on integers below \<open>2\<^sup>5\<^sup>3\<close>.  \<open>Sha256\<close> is the hash of the merchant fingerprint.
    \<open>Go_Text\<close> (UTF-8, \<open>strconv.Quote\<close>, \<open>strings.EqualFold\<close>), \<open>Go_Json\<close> (the scanner, decoder and encoder
    of \<open>encoding/json\<close>), \<open>Go_Float\<close> (the shortest decimal of a \<open>float64\<close>, shown to read back exactly and
    to have as few digits as possible), \<open>Go_Flag\<close> (command line flags) and \<open>Go_Http\<close> (media types, path
    cleaning, body limits, RFC 3339 times) model what the sources use of the standard library at the
    level of bytes.
  \<^item> \<open>Domain_Model\<close> is \<open>internal/domain\<close>: one record per request and response struct, the kinds, the
    sentinel errors with \<open>fmt.Errorf\<close> and \<open>errors.Is\<close>.
  \<^item> \<open>TigerBeetle_SDK\<close> declares what \<open>tigerbeetle-go\<close> gives the program: its structs, its pure
    functions as a record \<open>SDK\<close> with the documented laws in the locale \<open>tb_sdk\<close>, and the interface
    \<open>service.Ledger\<close> as a record of operations on an abstract ledger state.  \<open>Reference_SDK\<close> is a
    concrete \<open>SDK\<close> that satisfies the laws.
  \<^item> \<open>Ledger_Model\<close> is \<open>internal/ledger/model.go\<close>, the codes and the recipe of an account;
    \<open>Ledger_Client\<close> is \<open>internal/ledger/client.go\<close>, the adapter from batch calls to single calls.
  \<^item> \<open>Observability\<close> is \<open>internal/observability\<close>; \<open>Metadata_Cache\<close> is \<open>internal/service/cache.go\<close>
    with the locale \<open>bounded_cache\<close> its clients use; \<open>Ledger_Health\<close> is
    \<open>internal/service/health.go\<close>, its critical sections as a step relation.
  \<^item> \<open>Effects\<close> gives the service its semantics.  A method is a tree of atomic actions (\<open>prog\<close>):
    clock readings, cache accesses, ledger calls, the critical sections of the health record, slots,
    metrics and log lines.  \<open>run\<close> executes one program alone, \<open>sys_step\<close> (in \<open>Ledger_Contract\<close>)
    interleaves any number of them with each other and with other clients of the cluster.
  \<^item> \<open>Ledger_Contract\<close> states what the service relies on of the ledger: a view of its accounts,
    transfers and failed IDs, the law of each call including calls that fail after they took effect,
    and the locale \<open>ledger_contract\<close>, in which a weakest precondition that is stable under
    interference (\<open>wp\<close>) is shown sound for \<open>run\<close> and for \<open>sys_step\<close>.  \<open>Fake_Ledger\<close> is the test
    double of \<open>internal/service/service_test.go\<close> and an instance of the contract.
  \<^item> \<open>Service_Core\<close> is \<open>internal/service/service.go\<close> and the observed calls; \<open>Service_Operations\<close>
    is \<open>internal/service/operations.go\<close>; \<open>Operation_Contracts\<close> proves the postcondition of every
    operation.  \<open>HttpApi\<close> is \<open>internal/httpapi\<close>: decoding, error table, handlers, admission,
    middleware, panic barrier and routes.  \<open>Http_Wire\<close> is the same interface as bytes: the patterns
    of \<open>NewHandler\<close> with the routing of \<open>http.ServeMux\<close>, the JSON tags of \<open>internal/domain/model.go\<close>,
    \<open>decodeJSON\<close> on the body of a request and \<open>writeJSON\<close> on a response.
  \<^item> \<open>Running_Service\<close> puts the parts together: \<open>serves\<close> characterises the reachable states of a
    started service.  \<open>Resource_Use\<close> gives the protocol by which requests take and return slots and
    calls in flight.  \<open>Request_History\<close> records what each request did: its clock readings, lookups,
    submissions, log lines and outcome metrics, in order; \<open>Audit_Trail\<close> says which of these a finished
    request has left behind.
    \<open>Example_Run\<close> computes runs on the fake ledger, which the witnesses use;
    \<open>Balance_Report\<close> follows the accounts a lookup returns to the balances that are reported, over a ledger
    that enforces the flags of accounts; \<open>Service_Properties\<close> has the properties of single components.
  \<^item> \<open>Configuration\<close> is \<open>internal/config\<close>, \<open>Ledger_Main\<close> is \<open>cmd/ledger-service\<close>, \<open>Load_Test\<close> and
    \<open>Load_Report\<close> are \<open>cmd/loadtest\<close> up to the summary and from the summary to the output;
    \<open>Wire_Exchange\<close> connects the load generator with the service.

  \<^bold>\<open>State and operations.\<close>  The shared state of the process is the record \<open>world\<close>: the ledger (of any
  type, reached through \<open>Ledger\<close>), the metadata cache, the health record, the occupied slots, and the
  metrics and log lines so far.  A Go method \<open>m\<close> of the service is the definition \<open>m\<close> with the
  arguments \<open>sdk\<close> and \<open>s\<close> (the immutable part of the receiver), its early returns written with
  \<open>check\<close>, \<open>attempt\<close> and \<open>fail\<close>; long methods are split at their branches (\<open>Authorize_declined\<close>,
  \<open>Increment_submit\<close> and so on).  A mutex-protected block is one action, so that interleavings are those the
  Go code allows.  Panics are values: an index out of range in the cache or a failed \<open>make\<close> is a branch
  of the model.

  \<^bold>\<open>What is proved.\<close>  The theorems of this theory hold in every state \<open>serves\<close> describes, for every
  ledger that keeps \<open>ledger_contract\<close>: a reported success is committed and happened once, a final
  rejection is never followed by a success, a retry is replayed and a conflict is genuine, for
  transfers and for increments whose timeout changes between retries; only journal entries and
  accounts of the chart appear; the cache agrees with the ledger; account and balance responses are
  about accounts that exist; no increment is submitted after the expiry of its hold; every answer is
  well typed and none comes from the panic handler; the log and the counters are exactly what the
  responses and the submissions of the requests ask for, and a logged success is a transfer; slots and calls in flight are bounded and returned.  On the wire, routing is the
  table of endpoints, only bodies of one well-formed JSON value with known fields are accepted, the load
  generator's requests are understood, and what it counts as a success is a transfer in the ledger.
  The component theories show the cache bounded and exact, health exactly the history of the ledger
  calls for every iteration order of Go's maps, the client adapter and the fake ledger refinements of the contract, every valid
  configuration readable back, startup leading to a running service with the settings of the
  configuration, the timeouts computed without
  overflow, the identifiers and rejections, the reported balances within their bounds, the command line
  of the load generator readable back, its runs complete and its figures ordered, and its report one
  JSON value in which a reader finds every figure exactly.

  \<^bold>\<open>Bounds.\<close>  No fuel is used: programs are finite trees, and the loops over lists are structural or
  have a measure.  \<open>admission_bounds_calls\<close> and \<open>resources_returned\<close> assume fewer than \<open>2\<^sup>6\<^sup>4 - 1\<close>
  clock readings, so that the 64-bit call counter does not wrap, and a clock after year 1.

  \<^bold>\<open>Not modelled.\<close>  Sockets, signals, timers and the network between the load generator and the service
  are inputs, and memory suffices (\<open>make\<close> for the results and channels of the load generator does not
  panic for its size).  Every call of the model returns: a TigerBeetle call has no network timeout
  (\<open>docs/adr/001\<close>) and the load generator accepts a timeout of zero, but a ledger call or an HTTP exchange
  that blocks for ever has no outcome here, so no theorem says that startup or a request ends; a request
  that waits is one that has taken no step yet, and what is proved of the others holds beside it.
  Three corners are simplified: the request target \<open>*\<close>, which \<open>http.ServeMux\<close> answers with 400, is
  treated like any path that is not clean; the log line of \<open>recoverPanics\<close> omits the value of the panic;
  and the error of \<open>ledger_Account\<close> for an unknown kind, which no caller passes, is quoted without escapes.
  The exposition format of Prometheus, which printable characters
  \<open>unicode.IsPrint\<close> knows (the parameter \<open>is_print\<close>, used in error messages only) and the usage text that
  package \<open>flag\<close> prints for a malformed command line belong to libraries and are parameters.  The numbers
  of type \<open>float64\<close> that occur are not negative and of the normal range; subnormal numbers, infinities and
  signs are left out, except that an infinite rate is an error of the encoder.  The balances of accounts are
  kept by TigerBeetle; the contract speaks of the immutable part of an account and leaves balances to
  the flags, and the fake ledger keeps them.  The goroutines of the HTTP server are the
  interleaving of \<open>sys_step\<close>; fairness of the scheduler is not assumed.
\<close>

section \<open>Exactly-once money movement\<close>

text \<open>
  C1.  A success is true.  Whenever a finished request reports a transfer as posted or approved with
  some timestamp, the ledger contains, under the ID of the request, exactly the transfer the
  request stands for, with that timestamp.  This holds in every state of the running service,
  whatever the other requests and the other clients of the cluster do, and for a ledger whose
  calls may fail after they took effect.
\<close>

theorem success_is_committed:
  assumes "serves sdk s ops view linv env outside w0 ps w"
    and "(r, Return resp) \<in> set ps" "success r resp = Some ts"
  shows "\<exists>t. request_intent sdk s r = Some t \<and> Http_status resp = 200 \<and>
    view_transfers (view (w_ledger w)) (Transfer_ID t) = Some (t\<lparr>Transfer_Timestamp := ts\<rparr>)"
  using success_committed [OF serves_post [OF assms(1,2)] assms(3)] by (auto simp: committed_def)

theorem success_is_committed_witness:
  "fake_transfers (w_ledger (snd (example_serve retried_topups))) ''b1'' =
     Some ((posted_transfer reference_sdk example_service 0xb1 1 0xa0 500 1001)
       \<lparr>Transfer_Timestamp := 1001\<rparr>)"
  using success_is_committed [OF topups_serves, of "example_topup 500" "retried_topup_responses ! 0" 1001]
  by (simp add: retried_topups_def retried_topup_responses_def fake_view_def posted_transfer_def zeroTransfer_def)

text \<open>
  C2.  Exactly once.  Two finished requests that report success for the same transfer ID stand for the
  same transfer, in every field, and report the same timestamp: there was one economic event.
\<close>

theorem success_exactly_once:
  assumes "serves sdk s ops view linv env outside w0 ps w"
    and "(r, Return resp) \<in> set ps" "success r resp = Some ts" "request_intent sdk s r = Some t"
    and "(r', Return resp') \<in> set ps" "success r' resp' = Some ts'" "request_intent sdk s r' = Some t'"
    and "Transfer_ID t = Transfer_ID t'"
  shows "t\<lparr>Transfer_Timestamp := 0\<rparr> = t'\<lparr>Transfer_Timestamp := 0\<rparr> \<and> ts = ts'"
proof -
  have "committed t ts (view (w_ledger w))" "committed t' ts' (view (w_ledger w))"
    using success_committed [OF serves_post [OF assms(1,2)] assms(3)]
      success_committed [OF serves_post [OF assms(1,5)] assms(6)] assms(4,7) by auto
  then have eq: "t\<lparr>Transfer_Timestamp := ts\<rparr> = t'\<lparr>Transfer_Timestamp := ts'\<rparr>"
    using assms(8) by (simp add: committed_def)
  show ?thesis
    using arg_cong [OF eq, of "Transfer_Timestamp_update (\<lambda>_. 0)"]
      arg_cong [OF eq, of Transfer_Timestamp] by simp
qed

theorem success_exactly_once_witness:
  "success (example_topup 500) (retried_topup_responses ! 0) = success (example_topup 500) (retried_topup_responses ! 1)"
  using success_exactly_once [OF topups_serves, of "example_topup 500" "retried_topup_responses ! 0" 1001 _
      "example_topup 500" "retried_topup_responses ! 1" 1001]
  by (simp add: retried_topups_def retried_topup_responses_def)

text \<open>
  C3.  A rejection is final.  When a request was told that its funds are insufficient, that an account
  does not exist or that the ID failed before, no money movement and no authorization with the same
  transfer ID ever reports success, before or after it.  Increments are outside this statement.
\<close>

theorem failed_never_succeeds:
  assumes "serves sdk s ops view linv env outside w0 ps w"
    and "(r, Return resp) \<in> set ps" "final_failure r resp" "request_intent sdk s r = Some t"
    and "(r', Return resp') \<in> set ps" "request_intent sdk s r' = Some t'"
    and "Transfer_ID t = Transfer_ID t'"
  shows "success r' resp' = None"
proof (rule ccontr)
  assume "success r' resp' \<noteq> None"
  then obtain ts where "committed t' ts (view (w_ledger w))"
    using success_committed [OF serves_post [OF assms(1,5)]] assms(6) by auto
  moreover have "Transfer_ID t \<in> view_failed (view (w_ledger w))"
    using final_failure_failed [OF serves_post [OF assms(1,2)] assms(3)] assms(4) by auto
  ultimately show False
    using assms(7) serves_view_ok [OF assms(1)] committed_not_failed by simp
qed

theorem failed_never_succeeds_witness:
  "success (example_withdrawal 1) (failed_withdrawal_responses ! 1) = None"
  using failed_never_succeeds [OF withdrawals_serves, of "example_withdrawal 900000" "failed_withdrawal_responses ! 0" _
      "example_withdrawal 1" "failed_withdrawal_responses ! 1"]
  by (simp add: failed_withdrawals_def failed_withdrawal_responses_def final_codes_def posted_transfer_def zeroTransfer_def)

text \<open>
  C4.  A retry is replayed.  A request that arrives when its transfer is already committed gets the
  original success with the original timestamp, or an error other than a conflict; it is never
  declined and never rejected, also when the risk limit is now below its amount.
\<close>

theorem retry_is_replayed:
  assumes "serves sdk s ops view linv env outside w0 ps w"
    and "sys_steps ops env outside (serveHTTP sdk s) (ps, w) (ps', w')"
    and "length ps \<le> i" "i < length ps'" "ps' ! i = (r, Return resp)"
    and "request_intent sdk s r = Some t"
    and "view_transfers (view (w_ledger w)) (Transfer_ID t) = Some (t\<lparr>Transfer_Timestamp := ts\<rparr>)"
  shows "success r resp = Some ts \<or> is_BodyError (Http_body resp) \<and> Http_status resp \<noteq> 409"
proof -
  have "committed t ts (view (w_ledger w))"
    using assms(7) by (simp add: committed_def)
  from request_replayed [OF serves_later(3) [OF assms(1-5)] assms(6) this serves_later(2) [OF assms(1,2)]]
  show ?thesis .
qed

theorem retry_is_replayed_witness:
  "success (example_topup 500) (transaction_answer 200 ''b1'' ''posted'' ''exists'' 1001 ([], [])) = Some 1001"
proof -
  let ?t = "posted_transfer reference_sdk example_service 0xb1 1 0xa0 500 1001"
  note start = example_serves [OF first_run]
  have "committed ?t 1001 (fake_view reference_sdk (w_ledger (snd (example_serve [example_topup 500]))))"
    using success_committed [OF serves_post [OF start], of "example_topup 500"
        "transaction_answer 200 ''b1'' ''posted'' ''created'' 1001 ([], [])"] by auto
  then show ?thesis
    using retry_is_replayed [OF start retry_steps [OF retry_run], of 1 "example_topup 500"
        "transaction_answer 200 ''b1'' ''posted'' ''exists'' 1001 ([], [])" ?t 1001]
    by (simp add: committed_def transaction_answer_def writeJSON_def)
qed

text \<open>
  C5.  A conflict is genuine.  A request that is answered with the 409 error of an idempotency
  conflict shares its ID with a committed transfer that differs from what it asked for.
\<close>

theorem conflict_is_genuine:
  assumes "serves sdk s ops view linv env outside w0 ps w"
    and "(r, Return resp) \<in> set ps" "is_BodyError (Http_body resp)" "Http_status resp = 409"
    and "request_intent sdk s r = Some t"
  shows "\<exists>t0. view_transfers (view (w_ledger w)) (Transfer_ID t) = Some t0 \<and> \<not> same_payload t0 t"
  using request_conflict [OF serves_post [OF assms(1,2)] assms(3-5)] by (simp add: payload_conflict_def)

theorem conflict_is_genuine_witness:
  "\<exists>t0. fake_transfers (w_ledger (snd (example_serve conflicting_topups))) ''b1'' = Some t0 \<and>
     \<not> same_payload t0 (posted_transfer reference_sdk example_service 0xb1 1 0xa0 501 1001)"
  using conflict_is_genuine [OF conflict_serves, of "example_topup 501" "conflicting_topup_responses ! 1"]
  by (simp add: conflicting_topups_def conflicting_topup_responses_def fake_view_def posted_transfer_def zeroTransfer_def
      writeError_def writeJSON_def error_body_def)

section \<open>Increments\<close>

text \<open>In the example the increment is submitted by the second request.\<close>

lemma hold_submission:
  assumes "recorded (fake_ops reference_sdk) example_env (\<lambda>_ _. False) (serveHTTP reference_sdk example_service)
      example_world (zip [example_authorization, example_increment] (map Return hold_responses))
      (snd (example_serve [example_authorization, example_increment])) hs"
  shows "\<exists>t answer. Submitted t answer \<in> set (hs ! 1)"
proof -
  let ?ps = "zip [example_authorization, example_increment] (map Return hold_responses)"
  let ?w = "snd (example_serve [example_authorization, example_increment])"
  have "(example_increment, Return (hold_responses ! 1)) \<in> set ?ps"
    by (simp add: hold_responses_def)
  from serves_post [OF hold_serves this]
  obtain u where u: "view_transfers (fake_view reference_sdk (w_ledger ?w)) 0xb5 = Some u"
    by (auto simp: example_increment_def hold_responses_def answers_def increment_post_def writeJSON_def
        increment_of_def committed_def increment_transfer_def)
  have old: "view_transfers (fake_view reference_sdk (w_ledger example_world)) 0xb5 = None"
    by (simp add: fake_view_def example_run)
  have "fake_inv reference_sdk (w_ledger example_world)"
    using serves_world(1) [OF hold_serves] by (simp add: world_inv_def)
  from ledger_contract.recorded_new [OF ref.fake_contract assms this _ u old]
  obtain n t answer where n: "n < length ?ps" "Submitted t answer \<in> set (hs ! n)" "Transfer_ID t = 0xb5"
    by auto
  moreover have "n \<noteq> 0"
  proof
    assume "n = 0"
    moreover have "?ps ! 0 = (example_authorization, Return (hold_responses ! 0))"
      by (simp add: hold_responses_def)
    ultimately have "request_trail reference_sdk example_service example_authorization (hold_responses ! 0) (trail_of (hs ! 0))"
      using serves_trail [OF hold_serves assms n(1)] by simp
    then have "sent reference_sdk ''b4'' (snd (snd (trail_of (hs ! 0))))"
      by (auto simp: request_trail_def handler_trail_def example_authorization_def)
    moreover have "(t, answer) \<in> set (snd (snd (trail_of (hs ! 0))))"
      using n(2) \<open>n = 0\<close> by (force simp: trail_of_def)
    ultimately show False
      using n(3) by (auto simp: sent_def)
  qed
  ultimately show ?thesis
    by (cases n) (auto simp: hold_responses_def)
qed

text \<open>
  C8.  An approved increment is true.  The ledger has, under the ID of the request and with the reported
  timestamp, a pending transfer that increments a hold: the authorization the request names exists and
  is a pending transfer of this service to the card settlement account that is its own group and has a
  timeout, its debit account is a card wallet, and the increment repeats its accounts, group and
  merchant for the requested amount.  When the history of the request shows that it created the
  increment itself, it did so while the hold was open: at its last clock reading before the call the
  hold had not expired, and the increment has the timeout that covers the rest of the hold.
\<close>

theorem approved_increment_is_committed:
  assumes "serves sdk s ops view linv env outside w0 ps w"
    and "recorded ops env outside (serveHTTP sdk s) w0 ps w hs"
    and "n < length ps" "ps ! n = (PostIncrements input, Return resp)" "increment_at resp = Some ts"
  shows "\<exists>request i auth hold increment.
    decodeJSON input = Inr request \<and> requestID sdk (Increment_RequestID request) = Inr i \<and>
    parsePublicTigerBeetleID sdk (Increment_AuthorizationID request) = Inr auth \<and>
    authorization_hold sdk s (view (w_ledger w)) auth hold \<and>
    has_role sdk s (view (w_ledger w)) (Transfer_DebitAccountID hold) AccountCardWallet \<and>
    view_transfers (view (w_ledger w)) i = Some increment \<and> Transfer_Timestamp increment = ts \<and>
    increment_fields sdk s i auth (Increment_IncrementCents request) hold increment \<and>
    (\<forall>h t result h'. hs ! n = h @ Submitted t (Inr result) # h' \<and> TransferResult_Status result = TransferCreated \<longrightarrow>
       (\<exists>h0 now begun_at. h = h0 @ [ClockRead now, ClockRead begun_at] \<and> covers_rest hold now increment))"
proof -
  let ?K = "view (w_ledger w)"
  have sdk: "tb_sdk sdk"
    using assms(1) by (simp add: serves_def)
  obtain x where x: "Http_body resp = BodyIncrement x" "IncResp_Status x = ''approved''" "IncResp_Timestamp x = ts"
    using assms(5) by (auto simp: increment_at_def split: ResponseBody.splits if_splits)
  have "(PostIncrements input, Return resp) \<in> set ps"
    using assms(3,4) by (metis nth_mem)
  from serves_post [OF assms(1) this] x obtain request i auth hold timeout where r:
      "decodeJSON input = Inr request" "requestID sdk (Increment_RequestID request) = Inr i"
      "parsePublicTigerBeetleID sdk (Increment_AuthorizationID request) = Inr auth"
      "view_transfers ?K auth = Some hold" "\<not> notOpenAuthorization sdk s hold"
      "has_role sdk s ?K (Transfer_DebitAccountID hold) AccountCardWallet"
      "committed (increment_transfer sdk s request hold i auth timeout) ts ?K"
    by (fastforce simp: answers_def increment_post_def increment_of_def)
  let ?increment = "(increment_transfer sdk s request hold i auth timeout)\<lparr>Transfer_Timestamp := ts\<rparr>"
  have inc: "view_transfers ?K i = Some ?increment"
    using r(7) by (simp add: committed_def)
  have hold: "authorization_hold sdk s ?K auth hold"
    using authorization_holdI [OF sdk r(4,5) serves_view_ok [OF assms(1)]] .
  have created: "\<exists>h0 now begun_at. h = h0 @ [ClockRead now, ClockRead begun_at] \<and> covers_rest hold now ?increment"
    if h: "hs ! n = h @ Submitted t (Inr result) # h'" "TransferResult_Status result = TransferCreated" for h t result h'
  proof (rule serves_increment_submission [OF assms(1-4) h(1)])
    fix request' auth' hold' now h0 begun_at
    assume sub: "decodeJSON input = Inr request'" "requestID sdk (Increment_RequestID request') = Inr (Transfer_ID t)"
      "parsePublicTigerBeetleID sdk (Increment_AuthorizationID request') = Inr auth'"
      "authorization_hold sdk s ?K auth' hold'" "h = h0 @ [ClockRead now, ClockRead begun_at]" "covers_rest hold' now t"
    then have same: "Transfer_ID t = i" "hold' = hold"
      using r(1-4) by (auto simp: authorization_hold_def)
    have "transfer_outcome t (Inr result) ?K"
      using serves_remembers [OF assms(1-3)] h(1) by (simp add: remembers_def)
    then have "Transfer_Timeout ?increment = Transfer_Timeout t"
      using h(2) inc same(1) by (auto simp: transfer_outcome_def)
    with sub(5,6) same(2) show ?thesis
      by (auto simp: covers_rest_def)
  qed
  show ?thesis
    by (intro exI [of _ request] exI [of _ i] exI [of _ auth] exI [of _ hold] exI [of _ ?increment] conjI
        r hold inc increment_fieldsI(1) [OF sdk]) (use created in auto)
qed

theorem approved_increment_is_committed_witness:
  "\<exists>hold increment. fake_transfers (w_ledger (snd (example_serve
       [example_authorization, example_increment]))) ''b4'' = Some hold \<and>
     fake_transfers (w_ledger (snd (example_serve [example_authorization, example_increment]))) ''b5'' =
       Some increment \<and> increment_fields reference_sdk example_service 0xb5 0xb4 300 hold increment"
proof -
  obtain hs where hs: "recorded (fake_ops reference_sdk) example_env (\<lambda>_ _. False)
      (serveHTTP reference_sdk example_service) example_world
      (zip [example_authorization, example_increment] (map Return hold_responses))
      (snd (example_serve [example_authorization, example_increment])) hs"
    using serves_recorded [OF hold_serves] by blast
  have "increment_at (hold_responses ! 1) = Some 1002"
    by (simp add: hold_responses_def increment_at_def writeJSON_def)
  moreover have "zip [example_authorization, example_increment] (map Return hold_responses) ! 1 =
      (PostIncrements (json \<lparr>Increment_RequestID = ''b5'', Increment_AuthorizationID = ''b4'',
        Increment_IncrementCents = 300\<rparr>), Return (hold_responses ! 1))"
    by (simp add: hold_responses_def example_increment_def)
  ultimately show ?thesis
    using approved_increment_is_committed [OF hold_serves hs, of 1]
    by (fastforce simp: hold_responses_def fake_view_def authorization_hold_def)
qed

text \<open>
  C21.  No increment after the expiry.  Whatever becomes of a request to increment an authorization,
  in every interleaving and also when the answer is lost: a transfer it submits carries its request ID
  and has the fields of an increment of a hold that is in the ledger, for the requested amount; the
  last clock reading before the call (which is itself timed by one reading) lies before the moment the
  hold expires; and the timeout of the increment is what remained of the hold then, rounded up to
  seconds and never more than the timeout of the hold.
\<close>

theorem increments_submitted_before_expiry:
  assumes "serves sdk s ops view linv env outside w0 ps w"
    and "recorded ops env outside (serveHTTP sdk s) w0 ps w hs"
    and "n < length ps" "ps ! n = (PostIncrements input, p)" "hs ! n = h @ Submitted t answer # h'"
  shows "\<exists>request auth hold h0 now begun_at.
    decodeJSON input = Inr request \<and> requestID sdk (Increment_RequestID request) = Inr (Transfer_ID t) \<and>
    parsePublicTigerBeetleID sdk (Increment_AuthorizationID request) = Inr auth \<and>
    authorization_hold sdk s (view (w_ledger w)) auth hold \<and>
    increment_fields sdk s (Transfer_ID t) auth (Increment_IncrementCents request) hold t \<and>
    h = h0 @ [ClockRead now, ClockRead begun_at] \<and> now < hold_expiry hold \<and> covers_rest hold now t"
proof -
  obtain request auth hold now h0 begun_at where "decodeJSON input = Inr request"
    "requestID sdk (Increment_RequestID request) = Inr (Transfer_ID t)"
    "parsePublicTigerBeetleID sdk (Increment_AuthorizationID request) = Inr auth"
    "authorization_hold sdk s (view (w_ledger w)) auth hold"
    "increment_fields sdk s (Transfer_ID t) auth (Increment_IncrementCents request) hold t"
    "h = h0 @ [ClockRead now, ClockRead begun_at]" and rest: "covers_rest hold now t"
    by (rule serves_increment_submission [OF assms])
  moreover from rest have "now < hold_expiry hold"
    by (simp add: covers_rest_def)
  ultimately show ?thesis
    by blast
qed

theorem increments_submitted_before_expiry_witness:
  "\<exists>hs h t answer h' hold now. recorded (fake_ops reference_sdk) example_env (\<lambda>_ _. False)
      (serveHTTP reference_sdk example_service) example_world
      (zip [example_authorization, example_increment] (map Return hold_responses))
      (snd (example_serve [example_authorization, example_increment])) hs \<and>
     hs ! 1 = h @ Submitted t answer # h' \<and> ClockRead now \<in> set h \<and> now < hold_expiry hold \<and>
     fake_transfers (w_ledger (snd (example_serve [example_authorization, example_increment]))) ''b4'' = Some hold"
proof -
  let ?ps = "zip [example_authorization, example_increment] (map Return hold_responses)"
  let ?w = "snd (example_serve [example_authorization, example_increment])"
  let ?req = "\<lparr>Increment_RequestID = ''b5'', Increment_AuthorizationID = ''b4'', Increment_IncrementCents = 300\<rparr>"
  obtain hs where hs: "recorded (fake_ops reference_sdk) example_env (\<lambda>_ _. False)
      (serveHTTP reference_sdk example_service) example_world ?ps ?w hs"
    using serves_recorded [OF hold_serves] by blast
  obtain t answer where "Submitted t answer \<in> set (hs ! 1)"
    using hold_submission [OF hs] by blast
  then obtain h h' where h: "hs ! 1 = h @ Submitted t answer # h'"
    by (metis split_list)
  have ps: "1 < length ?ps" "?ps ! 1 = (PostIncrements (json ?req), Return (hold_responses ! 1))"
    by (simp_all add: hold_responses_def example_increment_def)
  from increments_submitted_before_expiry [OF hold_serves hs ps h] hs h show ?thesis
    by (fastforce simp: authorization_hold_def fake_view_def)
qed

text \<open>
  C9.  A retry of an increment is replayed although it computes another timeout: when the increment
  is committed, for whatever timeout, a request for it that arrives later is approved with the
  original timestamp or gets an error other than a conflict.
\<close>

theorem increment_retry_is_replayed:
  assumes "serves sdk s ops view linv env outside w0 ps w"
    and "sys_steps ops env outside (serveHTTP sdk s) (ps, w) (ps', w')"
    and "length ps \<le> i" "i < length ps'" "ps' ! i = (PostIncrements input, Return resp)"
    and "decodeJSON input = Inr request"
    and "increment_of sdk s request original (view (w_ledger w)) f"
    and "view_transfers (view (w_ledger w)) (Transfer_ID (f timeout)) =
      Some ((f timeout)\<lparr>Transfer_Timestamp := ts\<rparr>)"
  shows "increment_at resp = Some ts \<or> is_BodyError (Http_body resp) \<and> Http_status resp \<noteq> 409"
proof -
  have "answers (Inr request) (increment_post (view (w_ledger w)) sdk s) BodyIncrement resp (view (w_ledger w'))"
    using serves_later(3) [OF assms(1-5)] assms(6) by simp
  moreover have "committed (f timeout) ts (view (w_ledger w))"
    using assms(8) by (simp add: committed_def)
  ultimately show ?thesis
    using increment_replayed [OF _ assms(7) _ serves_later(2) [OF assms(1,2)]] by blast
qed

theorem increment_retry_is_replayed_witness:
  "increment_at (increment_retry_response) = Some 1002"
proof -
  let ?w = "snd (example_serve [example_authorization, example_increment])"
  let ?K = "fake_view reference_sdk (w_ledger ?w)"
  let ?req = "\<lparr>Increment_RequestID = ''b5'', Increment_AuthorizationID = ''b4'', Increment_IncrementCents = 300\<rparr>"
  have dec: "decodeJSON (json ?req) = Inr ?req" by simp
  have "(example_increment, Return (hold_responses ! 1)) \<in> set (zip
      [example_authorization, example_increment] (map Return hold_responses))"
    by (simp add: hold_responses_def)
  from serves_post [OF hold_serves this]
  obtain original f timeout where f: "increment_of reference_sdk example_service ?req original ?K f"
      "committed (f timeout) 1002 ?K"
    by (auto simp: example_increment_def hold_responses_def answers_def increment_post_def writeJSON_def)
  have "(zip [example_authorization, example_increment] (map Return hold_responses) @
      zip [example_increment] (map Return [increment_retry_response])) ! 2 =
      (PostIncrements (json ?req), Return increment_retry_response)"
    by (simp add: hold_responses_def example_increment_def)
  from increment_retry_is_replayed [OF hold_serves retry_steps [OF hold_retry_run] _ _ this dec f(1)] f(2)
  show ?thesis
    by (simp add: committed_def hold_responses_def increment_retry_response_def writeJSON_def)
qed

section \<open>The shared state\<close>

text \<open>
  C6.  Only journal entries.  As long as the other clients of the cluster are instances of the same
  service, every transfer that appears after startup is an entry of the journal table, between
  accounts that have the roles the entry needs, and every account that appears is one of the chart
  of accounts; nothing that exists is changed or removed.
\<close>

theorem only_journal_entries:
  assumes "serves sdk s ops view linv env outside w0 ps w"
    and "outside_journal linv view (service_guar sdk s) outside"
  shows "grows (view (w_ledger w0)) (view (w_ledger w)) \<and>
    (\<forall>i t. view_transfers (view (w_ledger w)) i = Some t \<longrightarrow> view_transfers (view (w_ledger w0)) i = None \<longrightarrow>
       journal_entry sdk s (view (w_ledger w)) t) \<and>
    (\<forall>i a. view_accounts (view (w_ledger w)) i = Some a \<longrightarrow> view_accounts (view (w_ledger w0)) i = None \<longrightarrow>
       account_allowed sdk s (view (w_ledger w)) a)"
  using serves_sound(2) [OF assms(1)] serves_sound(4) [OF assms] by (fastforce simp: journal_ok_def)

theorem only_journal_entries_witness:
  "\<exists>t. fake_transfers (w_ledger (snd (example_serve retried_topups))) ''b1'' = Some t \<and>
     journal_entry reference_sdk example_service
       (fake_view reference_sdk (w_ledger (snd (example_serve retried_topups)))) t"
proof -
  let ?K = "fake_view reference_sdk (w_ledger (snd (example_serve retried_topups)))"
  have "committed (posted_transfer reference_sdk example_service 0xb1 1 0xa0 500 1001) 1001 ?K"
    using success_committed [OF serves_post [OF topups_serves], of "example_topup 500" "retried_topup_responses ! 0" 1001]
    by (auto simp: retried_topups_def retried_topup_responses_def)
  then obtain t where t: "view_transfers ?K 0xb1 = Some t"
    by (auto simp: committed_def posted_transfer_def zeroTransfer_def)
  moreover have "view_transfers (fake_view reference_sdk (w_ledger example_world)) 0xb1 = None"
    by (simp add: fake_view_def example_run)
  ultimately have "journal_entry reference_sdk example_service ?K t"
    using only_journal_entries [OF topups_serves] by (auto simp: outside_journal_def)
  with t show ?thesis by (auto simp: fake_view_def)
qed

text \<open>
  C7.  The cache is coherent.  Whatever the cache returns for an ID is the metadata of the account
  that exists in the ledger under this ID, at every moment of every interleaving, so that a
  decision taken on a cached entry is the decision a lookup would give.
\<close>

theorem cache_coherent:
  assumes "serves sdk s ops view linv env outside w0 ps w"
    and "cache_Load i (w_cache w) = Some m"
  shows "\<exists>a. view_accounts (view (w_ledger w)) i = Some a \<and> metadataForAccount sdk s a = Some m"
  using serves_sound(1) [OF assms(1)] assms(2)
  by (auto simp: world_inv_def mc.holds_only_def account_role_def bind_eq_Some_conv)

theorem cache_coherent_witness:
  "\<exists>a. fake_accounts (w_ledger (snd (example_serve [example_topup 500]))) ''a0'' = Some a \<and>
     metadataForAccount reference_sdk example_service a =
       Some \<lparr>meta_kind = AccountCorporateWallet, meta_corporateAccountID = 0\<rparr>"
  using cache_coherent [OF example_serves [OF first_run] first_cache] by (auto simp: fake_view_def)

text \<open>
  C23.  The system accounts stay what startup made them: in every state of the running service the
  reserved IDs are the safeguarded cash account and the card settlement account.
\<close>

theorem system_accounts_kept:
  assumes "serves sdk s ops view linv env outside w0 ps w"
  shows "has_role sdk s (view (w_ledger w)) (SafeguardedCashAccountID sdk) AccountSafeguardedCash \<and>
    has_role sdk s (view (w_ledger w)) (CardSettlementPayableAccountID sdk) AccountCardSettlementPayable"
  using serves_world(2) [OF assms] has_role_grows [OF serves_sound(2) [OF assms]]
  by (auto simp: EnsureSystemAccounts_post_def)

theorem system_accounts_kept_witness:
  "has_role reference_sdk example_service
     (fake_view reference_sdk (w_ledger (snd (example_serve retried_topups)))) 1 AccountSafeguardedCash"
  using system_accounts_kept [OF topups_serves] by (simp add: SafeguardedCashAccountID_def)



text \<open>
  C29.  A balance response is about the requested account: the account exists in the ledger under the
  requested ID and is one of the chart, the response carries that ID, its kind and its parent, and
  its figures are the balances of one record of this account.
\<close>

theorem balance_is_true:
  assumes "serves sdk s ops view linv env outside w0 ps w"
    and "(GetAccount v, Return resp) \<in> set ps" "Http_body resp = BodyBalance b"
  shows "\<exists>i a m. parsePublicTigerBeetleID sdk v = Inr i \<and> Http_status resp = 200 \<and>
    view_accounts (view (w_ledger w)) i = Some (account_meta a) \<and> metadataForAccount sdk s a = Some m \<and>
    b = balance_response sdk a m \<and> BalanceResp_AccountID b = Uint128_String sdk i \<and>
    BalanceResp_Kind b = meta_kind m \<and>
    BalanceResp_CorporateAccountID b = publicID sdk (meta_corporateAccountID m)"
proof -
  have sdk: "tb_sdk sdk" using assms(1) by (simp add: serves_def)
  obtain i a m where b: "parsePublicTigerBeetleID sdk v = Inr i" "Http_status resp = 200"
      "view_accounts (view (w_ledger w)) i = Some (account_meta a)" "metadataForAccount sdk s a = Some m"
      "b = balance_response sdk a m"
    using serves_post [OF assms(1,2)] assms(3) by (auto simp: Balance_post_def)
  moreover have "Account_ID (account_meta a) = i"
    using serves_view_ok [OF assms(1)] b(3) unfolding view_ok_def by blast
  moreover have "meta_corporateAccountID m = Account_UserData128 a"
    using tb_sdk.metadataForAccount_iff [OF sdk] b(4) by blast
  ultimately show ?thesis
    by (auto simp: balance_response_def Let_def case_prod_beta)
qed

theorem balance_is_true_witness:
  "BalanceResp_AccountID (balance_response reference_sdk (example_account 0xa0 2001 2 0 0 50000)
     \<lparr>meta_kind = AccountCorporateWallet, meta_corporateAccountID = 0\<rparr>) = ''a0''"
  using balance_is_true [OF balance_serves, of "''a0''" "writeJSON 200 (BodyBalance (balance_response reference_sdk
      (example_account 0xa0 2001 2 0 0 50000)
      \<lparr>meta_kind = AccountCorporateWallet, meta_corporateAccountID = 0\<rparr>))"]
  by (auto simp: writeJSON_def)

section \<open>Answers, log and counters\<close>

text \<open>
  C13.  Answers are typed.  Every answer fits its route: its body is the error body with one of the
  statuses of the error table, or the body of the operation with a status text and an HTTP status that
  belong together (\<open>posted\<close> and \<open>approved\<close> only with 200, \<open>created\<close> only with 201, and so on).
  In particular no request ends in the panic handler, whose answer is an error with status 500.
\<close>

theorem response_typed:
  assumes "serves sdk s ops view linv env outside w0 ps w" "(r, Return resp) \<in> set ps"
  shows "well_typed r resp"
  using serves_typed [OF assms] .

theorem response_typed_witness: "well_typed (example_topup 501) (writeError ErrIdempotencyConflict)"
  using response_typed [OF conflict_serves, of "example_topup 501" "writeError ErrIdempotencyConflict"]
  by (simp add: conflicting_topups_def conflicting_topup_responses_def)

text \<open>
  C11.  The audit trail is exact.  In every state of the running service the log and the recorded
  outcome metrics are, up to the interleaving, what the histories of its requests contain.  A finished
  request has left exactly one HTTP metric, with the status it was answered with, and has submitted at
  most one transfer, under its own request ID.  Its transaction line and operation metric, with its
  kind and request ID, are these: one with the status of the response for a response of the operation;
  one with \<open>conflict\<close> for an idempotency conflict; one with \<open>unknown\<close> for another error when it
  submitted a transfer and the call of the ledger failed; and none otherwise, that is for requests of
  accounts, for errors before a submission or after one that was answered, and for an increment of an
  authorization that is not open, for which nothing was submitted.
\<close>

theorem audit_trail:
  assumes "serves sdk s ops view linv env outside w0 ps w"
    and "recorded ops env outside (serveHTTP sdk s) w0 ps w hs"
  shows "mset (w_log w) = (\<Sum>h\<leftarrow>hs. mset (fst (trail_of h))) \<and>
    mset (filter reported (w_metrics w)) = (\<Sum>h\<leftarrow>hs. mset (fst (snd (trail_of h)))) \<and>
    (\<forall>n r resp. n < length ps \<longrightarrow> ps ! n = (r, Return resp) \<longrightarrow> request_trail sdk s r resp (trail_of (hs ! n)))"
  using serves_audited [OF assms] serves_trail [OF assms] by (auto simp: audited_def)

theorem audit_trail_witness: "length (w_log (snd (example_serve [example_topup 500]))) = 1"
proof -
  let ?w = "snd (example_serve [example_topup 500])"
  note serves = example_serves [OF first_run]
  obtain hs where hs: "recorded (fake_ops reference_sdk) example_env (\<lambda>_ _. False)
      (serveHTTP reference_sdk example_service) example_world (zip [example_topup 500]
        (map Return [transaction_answer 200 ''b1'' ''posted'' ''created'' 1001 ([], [])])) ?w hs"
    using serves_recorded [OF serves] by blast
  obtain h where h: "hs = [h]"
    using recorded_length [OF hs] by (auto simp: length_Suc_conv)
  have tr: "mset (w_log ?w) = mset (fst (trail_of h))"
      "request_trail reference_sdk example_service (example_topup 500)
        (transaction_answer 200 ''b1'' ''posted'' ''created'' 1001 ([], [])) (trail_of h)"
    using audit_trail [OF serves hs] by (auto simp: h)
  then have "length (fst (trail_of h)) = 1"
    by (auto simp: request_trail_def handler_trail_def completed_def example_topup_def transaction_answer_def writeJSON_def)
  then show ?thesis
    using tr(1) by (metis size_mset)
qed

text \<open>
  C15.  The counters are exact.  When all requests have finished, the HTTP counter of a method, route and
  status is the number of requests answered so, and, with metrics on, the operation counter of a kind
  and outcome is the number of transaction lines with that kind and outcome.
\<close>

theorem counters_exact:
  assumes "serves sdk s ops view linv env outside w0 ps w" "finished ps"
  shows "metrics_http (fold metrics_apply (w_metrics w) NewMetrics) (verb, label, code) =
      length (filter (answered verb label code) ps) \<and>
    (Service_metrics s \<longrightarrow> metrics_operations (fold metrics_apply (w_metrics w) NewMetrics) (kind, status) =
      length (filter (reports kind status) (w_log w)))"
  using serves_counts [OF assms] by blast

theorem counters_exact_witness:
  "metrics_http (fold metrics_apply (w_metrics (snd (example_serve retried_topups))) NewMetrics)
     (''POST'', ''topup'', ''200'') = 2"
proof -
  have "finished (zip retried_topups (map Return retried_topup_responses))"
    by (simp add: finished_def retried_topups_def retried_topup_responses_def)
  moreover have "show_int 200 = ''200''"
    by code_simp
  ultimately show ?thesis
    using counters_exact [OF topups_serves, of "''POST''" "''topup''" "''200''"]
    by (simp add: answered_def retried_topups_def retried_topup_responses_def example_topup_def transaction_answer_def
        writeJSON_def)
qed

text \<open>
  C14.  The log does not lie.  When all requests have finished, a transaction line with the status
  \<open>posted\<close> or \<open>approved\<close> names a request ID under which the ledger has a transfer.
\<close>

theorem log_is_true:
  assumes "serves sdk s ops view linv env outside w0 ps w" "finished ps" "l \<in> set (w_log w)"
    and "map_of (log_fields l) ''status'' = Some (LogString st)" "st \<in> {''posted'', ''approved''}"
  shows "\<exists>rid i t. map_of (log_fields l) ''request_id'' = Some (LogString rid) \<and> requestID sdk rid = Inr i \<and>
    view_transfers (view (w_ledger w)) i = Some t"
proof (rule serves_line [OF assms(1-3)])
  fix r resp kind rid st'
  assume r: "(r, Return resp) \<in> set ps" "operation_of r = Some (kind, rid)" "completion_line kind rid st' l"
    and st': "st' = (if is_BodyError (Http_body resp) then if Http_status resp = 409 then ''conflict'' else ''unknown''
      else body_status (Http_body resp))"
  have "st' = st"
    using r(3) assms(4) by (simp add: completion_line_def)
  with st' assms(5) have "body_status (Http_body resp) \<in> {''posted'', ''approved''}"
    by (auto split: if_splits)
  from reported_executed [OF serves_post [OF assms(1) r(1)] serves_typed [OF assms(1) r(1)] this] show ?thesis
    using r(2,3) by (auto simp: executed_def completion_line_def)
qed

theorem log_is_true_witness:
  "\<exists>t. fake_transfers (w_ledger (snd (example_serve [example_topup 500]))) ''b1'' = Some t"
proof -
  let ?w = "snd (example_serve [example_topup 500])"
  obtain l where l: "w_log ?w = [l]" "map_of (log_fields l) ''status'' = Some (LogString ''posted'')"
      "map_of (log_fields l) ''request_id'' = Some (LogString ''b1'')"
    by (simp add: run_all cong: run_lazy)
  have "finished (zip [example_topup 500] (map Return [transaction_answer 200 ''b1'' ''posted'' ''created'' 1001 ([], [])]))"
    by (simp add: finished_def)
  from log_is_true [OF example_serves [OF first_run] this, of l "''posted''"] l show ?thesis
    by (auto simp: fake_view_def)
qed

section \<open>Shared resources\<close>

text \<open>
  C10.  Admission bounds the load.  At every moment of every interleaving at most as many requests wait
  for the ledger as there are admission slots, and the slot counter never exceeds the limit.
\<close>

theorem admission_bounds_calls:
  assumes "serves sdk s ops view linv env outside w0 ps w" "env_ok env" "w_tick w < 2 ^ 64 - 1"
  shows "length (filter (\<lambda>(r, p). in_ledger_call p) ps) \<le> w_slots w \<and> w_slots w \<le> env_slots env"
proof -
  obtain st where st: "tracked False (env_slots env) ps st w"
    using serves_tracked [OF assms] by blast
  from tracked_calls(1) [OF st] st show ?thesis
    by (simp add: tracked_def)
qed

theorem admission_bounds_calls_witness:
  "w_slots (snd (example_serve [example_topup 500])) \<le> 8"
  using admission_bounds_calls [OF example_serves [OF first_run] example_env_ok first_tick]
  by (simp add: example_env_def)

text \<open>
  C19.  Nothing leaks.  When every request that arrived has finished, successfully or not, all slots
  are free, no ledger call is counted as in flight and the service reports that it is ready.
\<close>

theorem resources_returned:
  assumes "serves sdk s ops view linv env outside w0 ps w" "env_ok env" "w_tick w < 2 ^ 64 - 1"
    and "\<And>r p. (r, p) \<in> set ps \<Longrightarrow> \<exists>x. p = Return x"
  shows "w_slots w = 0 \<and> Health_InFlight (observed_Health now (w_observed w)) = 0 \<and>
    Health_Ready (observed_Health now (w_observed w))"
proof -
  obtain st where st: "tracked False (env_slots env) ps st w"
    using serves_tracked [OF assms(1-3)] by blast
  from tracked_finished [OF st assms(4)] have "w_slots w = 0" "obs_active (w_observed w) = []"
    by auto
  moreover have "obs_inv (w_observed w)"
    using st by (simp add: tracked_def)
  ultimately show ?thesis
    by (simp add: observed_Health_def Time_IsZero_def obs_inv_def)
qed

theorem resources_returned_witness:
  "w_slots (snd (example_serve [example_topup 500])) = 0 \<and>
   Health_Ready (observed_Health 0 (w_observed (snd (example_serve [example_topup 500]))))"
  using resources_returned [OF example_serves [OF first_run] example_env_ok first_tick] by fastforce

end
